(* ===== verification/Prelude.thy ===== *)
theory Prelude
  imports Main "HOL-Library.Word" "HOL-Library.Sublist"
begin

text \<open>
  What the component theories share: the result type of fallible code, the
  byte-level view of Rust strings with the standard-library operations the
  sources call on them, and generic facts on lists.

  A Rust \<^verbatim>\<open>str\<close> is the list of its UTF-8 bytes, each byte a \<^typ>\<open>char\<close>
  (\<^typ>\<open>char\<close> is the type of the 256 byte values).  \<^verbatim>\<open>len\<close> is then the list
  length and \<^verbatim>\<open>==\<close> is list equality.
\<close>

section \<open>Results\<close>

text \<open>The \<^verbatim>\<open>?\<close> operator: continue with the value, or return the error.\<close>

definition bindE :: "'e + 'a \<Rightarrow> ('a \<Rightarrow> 'e + 'b) \<Rightarrow> 'e + 'b" where
  "bindE m f = (case m of Inl e \<Rightarrow> Inl e | Inr x \<Rightarrow> f x)"

definition mapE :: "('a \<Rightarrow> 'b) \<Rightarrow> 'e + 'a \<Rightarrow> 'e + 'b" where
  "mapE f m = (case m of Inl e \<Rightarrow> Inl e | Inr x \<Rightarrow> Inr (f x))"

definition map_err :: "('e \<Rightarrow> 'f) \<Rightarrow> 'e + 'a \<Rightarrow> 'f + 'a" where
  "map_err f m = (case m of Inl e \<Rightarrow> Inl (f e) | Inr x \<Rightarrow> Inr x)"

lemma bindE_simps [simp]:
  "bindE (Inl e) f = Inl e"
  "bindE (Inr x) f = f x"
  by (simp_all add: bindE_def)

lemma mapE_simps [simp]:
  "mapE f (Inl e) = Inl e"
  "mapE f (Inr x) = Inr (f x)"
  by (simp_all add: mapE_def)

lemma map_err_simps [simp]:
  "map_err f (Inl e) = Inl (f e)"
  "map_err f (Inr x) = Inr x"
  by (simp_all add: map_err_def)

lemma bindE_eq_Inr_iff: "bindE m f = Inr y \<longleftrightarrow> (\<exists>x. m = Inr x \<and> f x = Inr y)"
  by (cases m) auto

lemma bindE_eq_Inl_iff:
  "bindE m f = Inl e \<longleftrightarrow> m = Inl e \<or> (\<exists>x. m = Inr x \<and> f x = Inl e)"
  by (cases m) auto

lemma bindE_cong [fundef_cong]:
  assumes "m = m'" "\<And>x. m' = Inr x \<Longrightarrow> f x = f' x"
  shows "bindE m f = bindE m' f'"
  using assms by (cases m') auto

section \<open>Standard-library operations on strings\<close>

subsection \<open>Splitting at a character\<close>

text \<open>\<^verbatim>\<open>split_once(c)\<close> for an ASCII character: the parts around its first
  occurrence.\<close>

fun split_once_char :: "char \<Rightarrow> string \<Rightarrow> (string \<times> string) option" where
  "split_once_char c [] = None"
| "split_once_char c (x # xs) =
     (if x = c then Some ([], xs)
      else (case split_once_char c xs of
              None \<Rightarrow> None
            | Some (a, b) \<Rightarrow> Some (x # a, b)))"

lemma split_once_char_None_iff: "split_once_char c s = None \<longleftrightarrow> c \<notin> set s"
  by (induction s) (auto split: option.splits)

lemma split_once_char_None [simp]: "c \<notin> set s \<Longrightarrow> split_once_char c s = None"
  by (simp add: split_once_char_None_iff)

lemma split_once_char_append [simp]:
  "c \<notin> set a \<Longrightarrow> split_once_char c (a @ c # b) = Some (a, b)"
  by (induction a) auto

lemma split_once_char_SomeD:
  "split_once_char c s = Some (a, b) \<Longrightarrow> s = a @ c # b \<and> c \<notin> set a"
  by (induction s arbitrary: a) (auto split: if_splits option.splits)

subsection \<open>Splitting at a string\<close>

text \<open>\<^verbatim>\<open>split_once(pat)\<close> for a non-empty string pattern.\<close>

fun split_once_str :: "string \<Rightarrow> string \<Rightarrow> (string \<times> string) option" where
  "split_once_str pat [] = None"
| "split_once_str pat (x # xs) =
     (if prefix pat (x # xs) then Some ([], drop (length pat) (x # xs))
      else (case split_once_str pat xs of
              None \<Rightarrow> None
            | Some (a, b) \<Rightarrow> Some (x # a, b)))"

text \<open>A pattern whose first byte occurs nowhere else in it cannot start inside a
  text that does not contain it and end in a following copy of the pattern.\<close>

lemma split_once_str_append:
  assumes pat: "pat = p # ps" "p \<notin> set ps"
  shows "split_once_str pat d = None \<Longrightarrow> split_once_str pat (d @ pat @ r) = Some (d, r)"
proof (induction d)
  case Nil
  then show ?case by (simp add: pat)
next
  case (Cons x d)
  from Cons.prems have not_pre: "\<not> prefix pat (x # d)" and rest: "split_once_str pat d = None"
    by (auto split: if_splits option.splits)
  have "\<not> prefix pat (x # d @ pat @ r)"
  proof
    assume "prefix pat (x # d @ pat @ r)"
    then have ps: "x = p" "prefix ps (d @ pat @ r)" by (auto simp: pat)
    have "prefix ps d"
    proof -
      from ps(2) obtain zs where eq: "d @ p # ps @ r = ps @ zs"
        by (auto simp: prefix_def pat)
      then consider us where "ps = d @ us" "p # ps @ r = us @ zs" | us where "d = ps @ us"
        by (auto simp: append_eq_append_conv2)
      then show ?thesis
      proof cases
        case 1
        then show ?thesis using pat(2) by (cases us) auto
      qed auto
    qed
    with ps(1) not_pre show False by (simp add: pat)
  qed
  with Cons.IH[OF rest] show ?case by simp
qed

subsection \<open>Prefixes\<close>

definition strip_prefix :: "string \<Rightarrow> string \<Rightarrow> string option" where
  "strip_prefix pat s = (if prefix pat s then Some (drop (length pat) s) else None)"

subsection \<open>Trimming\<close>

text \<open>The UTF-8 encodings of the characters with the Unicode White\_Space
  property, which \<^verbatim>\<open>trim\<close> removes.\<close>

definition white_space :: "string list" where
  "white_space =
     [[CHR 0x09], [CHR 0x0A], [CHR 0x0B], [CHR 0x0C], [CHR 0x0D], [CHR 0x20],
      [CHR 0xC2, CHR 0x85], [CHR 0xC2, CHR 0xA0], [CHR 0xE1, CHR 0x9A, CHR 0x80],
      [CHR 0xE2, CHR 0x80, CHR 0x80], [CHR 0xE2, CHR 0x80, CHR 0x81],
      [CHR 0xE2, CHR 0x80, CHR 0x82], [CHR 0xE2, CHR 0x80, CHR 0x83],
      [CHR 0xE2, CHR 0x80, CHR 0x84], [CHR 0xE2, CHR 0x80, CHR 0x85],
      [CHR 0xE2, CHR 0x80, CHR 0x86], [CHR 0xE2, CHR 0x80, CHR 0x87],
      [CHR 0xE2, CHR 0x80, CHR 0x88], [CHR 0xE2, CHR 0x80, CHR 0x89],
      [CHR 0xE2, CHR 0x80, CHR 0x8A], [CHR 0xE2, CHR 0x80, CHR 0xA8],
      [CHR 0xE2, CHR 0x80, CHR 0xA9], [CHR 0xE2, CHR 0x80, CHR 0xAF],
      [CHR 0xE2, CHR 0x81, CHR 0x9F], [CHR 0xE3, CHR 0x80, CHR 0x80]]"

definition leading :: "string list \<Rightarrow> string \<Rightarrow> string option" where
  "leading ps s = find (\<lambda>p. p \<noteq> [] \<and> prefix p s) ps"

lemma leading_SomeD: "leading ps s = Some p \<Longrightarrow> p \<in> set ps \<and> p \<noteq> [] \<and> prefix p s"
  by (auto simp: leading_def find_Some_iff)

lemma leading_None_iff: "leading ps s = None \<longleftrightarrow> (\<forall>p\<in>set ps. p \<noteq> [] \<longrightarrow> \<not> prefix p s)"
  by (auto simp: leading_def find_None_iff)

function trim_leading :: "string list \<Rightarrow> string \<Rightarrow> string" where
  "trim_leading ps s =
     (case leading ps s of None \<Rightarrow> s | Some p \<Rightarrow> trim_leading ps (drop (length p) s))"
  by pat_completeness auto
termination
  by (relation "measure (\<lambda>(_, s). length s)")
     (auto dest!: leading_SomeD simp: prefix_def)

declare trim_leading.simps [simp del]

definition trim_start :: "string \<Rightarrow> string" where
  "trim_start s = trim_leading white_space s"

definition trim_end :: "string \<Rightarrow> string" where
  "trim_end s = rev (trim_leading (map rev white_space) (rev s))"

definition trim :: "string \<Rightarrow> string" where
  "trim s = trim_end (trim_start s)"

text \<open>A string without leading and trailing white space.\<close>

definition trimmed :: "string \<Rightarrow> bool" where
  "trimmed s \<longleftrightarrow> leading white_space s = None \<and> leading (map rev white_space) (rev s) = None"

lemma trim_leading_done [simp]: "leading ps (trim_leading ps s) = None"
proof (induction ps s rule: trim_leading.induct)
  case (1 ps s)
  then show ?case
    by (subst trim_leading.simps) (auto split: option.splits)
qed

lemma trim_leading_suffix: "suffix (trim_leading ps s) s"
proof (induction ps s rule: trim_leading.induct)
  case (1 ps s)
  show ?case
  proof (cases "leading ps s")
    case None
    then show ?thesis by (simp add: trim_leading.simps)
  next
    case (Some p)
    with 1 have "suffix (trim_leading ps (drop (length p) s)) (drop (length p) s)" by blast
    then have "suffix (trim_leading ps (drop (length p) s)) s"
      using suffix_drop suffix_order.trans by blast
    with Some show ?thesis by (subst trim_leading.simps) simp
  qed
qed

lemma trim_leading_id: "leading ps s = None \<Longrightarrow> trim_leading ps s = s"
  by (simp add: trim_leading.simps)

lemma leading_prefix_None:
  "leading ps s = None \<Longrightarrow> prefix t s \<Longrightarrow> leading ps t = None"
  by (auto simp: leading_None_iff)

lemma trimmed_trim [simp]: "trimmed (trim s)"
proof -
  let ?u = "trim_start s"
  have "prefix (trim_end ?u) ?u"
    using trim_leading_suffix[of "map rev white_space" "rev ?u"]
    by (simp add: trim_end_def suffix_to_prefix)
  moreover have "leading white_space ?u = None" by (simp add: trim_start_def)
  ultimately show ?thesis
    by (auto simp: trimmed_def trim_def intro: leading_prefix_None) (simp add: trim_end_def)
qed

lemma trim_id: "trimmed s \<Longrightarrow> trim s = s"
  by (simp add: trimmed_def trim_def trim_start_def trim_end_def trim_leading_id)

lemma trim_trim [simp]: "trim (trim s) = trim s"
  by (simp add: trim_id)

lemma trimmed_iff: "trimmed s \<longleftrightarrow> trim s = s"
  using trim_id trimmed_trim by metis

lemma trim_sublist: "sublist (trim s) s"
proof -
  have "sublist (trim_end (trim_start s)) (trim_start s)"
    unfolding trim_end_def
    using trim_leading_suffix[of "map rev white_space" "rev (trim_start s)"]
    by (metis prefix_imp_sublist rev_rev_ident suffix_to_prefix)
  moreover have "sublist (trim_start s) s"
    by (simp add: trim_start_def trim_leading_suffix)
  ultimately show ?thesis
    unfolding trim_def using sublist_order.order.trans by blast
qed

lemma set_trim_subset: "set (trim s) \<subseteq> set s"
  using trim_sublist set_mono_sublist by blast

lemma length_trim_le: "length (trim s) \<le> length s"
  by (simp add: sublist_length_le trim_sublist)

lemma trimmed_Nil [simp]: "trimmed []"
  by (simp add: trimmed_def leading_None_iff)

section \<open>Printing numbers\<close>

fun nat_str :: "nat \<Rightarrow> string" where
  "nat_str n =
     (if n < 10 then [char_of (48 + n)] else nat_str (n div 10) @ [char_of (48 + n mod 10)])"

declare nat_str.simps [simp del]

section \<open>Collecting results\<close>

text \<open>\<^verbatim>\<open>iter.map(f).collect::<Result<Vec<_>, _>>()\<close>: the first error, or all values.\<close>

fun collectE :: "('a \<Rightarrow> 'e + 'b) \<Rightarrow> 'a list \<Rightarrow> 'e + 'b list" where
  "collectE f [] = Inr []"
| "collectE f (x # xs) = bindE (f x) (\<lambda>y. bindE (collectE f xs) (\<lambda>ys. Inr (y # ys)))"

lemma collectE_Inr_map:
  "(\<And>x. x \<in> set xs \<Longrightarrow> f x = Inr (g x)) \<Longrightarrow> collectE f xs = Inr (map g xs)"
  by (induction xs) auto

lemma collectE_InrD: "collectE f xs = Inr ys \<Longrightarrow> list_all2 (\<lambda>x y. f x = Inr y) xs ys"
  by (induction xs arbitrary: ys) (auto simp: bindE_eq_Inr_iff)

section \<open>JSON values\<close>

text \<open>The values of \<^verbatim>\<open>serde_json::Value\<close>.  A number is an integer or the text of a
  number with a fraction or an exponent; an object is its entries in the order of their keys.\<close>

datatype json =
    JNull
  | JBool bool
  | JInt int
  | JFloat string
  | JString string
  | JArray "json list"
  | JObject "(string \<times> json) list"

definition json_is_null :: "json \<Rightarrow> bool" where
  "json_is_null v = (case v of JNull \<Rightarrow> True | _ \<Rightarrow> False)"

definition json_as_u64 :: "json \<Rightarrow> int option" where
  "json_as_u64 v = (case v of JInt i \<Rightarrow> if 0 \<le> i \<and> i < 2 ^ 64 then Some i else None | _ \<Rightarrow> None)"

definition json_get :: "json \<Rightarrow> string \<Rightarrow> json option" where
  "json_get v k = (case v of JObject kvs \<Rightarrow> map_of kvs k | _ \<Rightarrow> None)"

section \<open>Distinct string tables\<close>

text \<open>Distinctness of a table of string literals, decided byte by byte: the strings
  that share a first byte are compared only with each other.\<close>

definition starts_with_byte :: "char \<Rightarrow> string \<Rightarrow> bool" where
  "starts_with_byte c s = (case s of [] \<Rightarrow> False | x # _ \<Rightarrow> x = c)"

lemma sum_list_filter_le:
  "sum_list (map (\<lambda>x. Suc (f x)) (filter P xs)) \<le> sum_list (map (\<lambda>x. Suc (f x)) xs)"
  by (induction xs) auto

function radix_distinct :: "string list \<Rightarrow> bool" where
  "radix_distinct [] = True"
| "radix_distinct ([] # xs) = ([] \<notin> set xs \<and> radix_distinct xs)"
| "radix_distinct ((c # s) # xs) =
     (radix_distinct (s # map tl (filter (starts_with_byte c) xs)) \<and>
      radix_distinct (filter (\<lambda>x. \<not> starts_with_byte c x) xs))"
  by pat_completeness auto
termination
proof (relation "measure (\<lambda>xs. sum_list (map (\<lambda>x. Suc (length x)) xs))", goal_cases)
  case (3 c s xs)
  have "sum_list (map (\<lambda>x. Suc (length x)) (map tl (filter (starts_with_byte c) xs)))
     \<le> sum_list (map (\<lambda>x. Suc (length x)) xs)"
    by (induction xs) auto
  then show ?case by simp
next
  case (4 c s xs)
  show ?case using sum_list_filter_le[of length "\<lambda>x. \<not> starts_with_byte c x" xs] by simp
qed auto

lemma radix_distinct_sound: "radix_distinct xs \<Longrightarrow> distinct xs"
proof (induction xs rule: radix_distinct.induct)
  case (3 c s xs)
  let ?in = "filter (starts_with_byte c) xs" and ?out = "filter (\<lambda>x. \<not> starts_with_byte c x) xs"
  from 3 have tails: "distinct (s # map tl ?in)" and out: "distinct ?out" by auto
  have tl: "\<forall>x\<in>set ?in. x = c # tl x" by (auto simp: starts_with_byte_def split: list.splits)
  have "distinct ?in" using tails by (auto simp: distinct_map)
  with out have "distinct xs"
    by (induction xs) (auto split: if_splits)
  moreover have "c # s \<notin> set xs"
  proof
    assume "c # s \<in> set xs"
    then have "s \<in> tl ` set ?in" by (force simp: starts_with_byte_def)
    with tails show False by auto
  qed
  ultimately show ?case by simp
qed auto

end
