(* ===== verification/Error_Codes.thy ===== *)
theory Error_Codes
  imports Prelude
begin

text \<open>
  The error registry (\<^verbatim>\<open>atm-error/src/error_codes.rs\<close>), the recovery-guidance
  catalog (\<^verbatim>\<open>atm-storage/src/error_catalog.rs\<close>) and the error value
  (\<^verbatim>\<open>atm-storage/src/error.rs\<close>).  Every stable code prints to one string and
  that string parses back to that code and to no other, and the detail and the
  remediation of a rendered error are recovered from its message.

  The source has one enumeration of 153 codes, and five helpers that each
  name the codes of one area and leave the others to the next helper.  The
  enumeration is declared here area by area, a constructor per area and the
  source's variants inside it; the last helper's arm for a code that no helper
  names (\<^verbatim>\<open>unreachable!\<close>) is the value \<^verbatim>\<open>None\<close>.
\<close>

section \<open>The code registry\<close>

datatype (plugins only: code size) ConfigOrIdentityCode =
    ConfigHomeUnavailable
  | AtmHomeUnresolved
  | ConfigParseFailed
  | ConfigRetiredHookMembersKey
  | ConfigRetiredLegacyHookKeys
  | ConfigTeamParseFailed
  | ConfigTeamMissing
  | IdentityUnavailable
  | IdentityInvalid
  | IdentityConflict
  | MemberAlreadyExists
  | MemberNotFound

datatype (plugins only: code size) DaemonOrAddressCode =
    DaemonUnavailable
  | RuntimeRootInvalid
  | RuntimeBootstrapRefused
  | SocketOverrideForbidden
  | DaemonMayHaveExecuted
  | DaemonLifecycleWedge
  | DaemonLaunchGateRejected
  | DaemonServingStateRejected
  | DaemonStaleOwnerRecoveryFailed
  | DaemonAutoStartFailed
  | DaemonConnectionSaturated
  | BlockingBridgeDeadlineBeforeStart
  | BlockingBridgeDeadlineAfterStart
  | RemoteDeliveryUnconfirmed
  | PeerWireModeInvalid
  | PeerWireModeSourceForbidden
  | PeerWirePlaintextAuthenticationRequired
  | PeerConfigValidationFailed
  | CertificateOperationFailed
  | PeerAuthenticationFailed
  | TransportTimeout
  | TransportProtocolFailed
  | BindPreflightFailed
  | ClientDaemonVersionIncompatible
  | DaemonAdvisorySessionAlreadyRegistered
  | DaemonAdvisorySessionNotRegistered
  | DaemonAdvisorySessionCleanupFailed
  | AddressParseFailed
  | TeamUnavailable
  | TeamInvalid
  | TeamNotFound
  | AgentNotFound

datatype (plugins only: code size) MailboxOrValidationCode =
    MailboxReadFailed
  | MailboxWriteFailed
  | MailboxLockFailed
  | MailboxLockReadOnlyFilesystem
  | MailboxLockTimeout
  | InternalError
  | MessageValidationFailed
  | TaskNotFound
  | TaskAlreadyActive
  | TaskAlreadyClosed
  | TaskNotCounterparty
  | TaskStaleCounterparty
  | TaskMoveInvalid
  | TaskMaxActiveReached
  | SearchLocalOnly
  | LocalHttpCapabilityInvalid
  | LocalHttpEndpointSchemaUnsupported
  | LocalHttpEndpointMissing
  | LocalHttpEndpointNonLoopback
  | LocalHttpRuntimeDirectoryMissing
  | LocalHttpCapabilityRevoked
  | MessageIdConflict
  | SelfAddressedSendInvalid
  | EmptyNudgeTemplateBody
  | CallerContextRequestInvalid
  | TemplateContentNotUtf8
  | DecomposedTemplateIncludeForbidden
  | TemplateLoadFailed
  | TemplateHashApiFailed
  | TemplateInspectionParseFailed
  | TemplateRequiredVariableMissing
  | TemplateVariableResolutionFailed
  | TemplateRenderVerificationFailed
  | TemplateIncludeUnresolved
  | TemplateClassificationInvalid
  | TemplateWorkflowInvalid
  | TemplateWorkflowValueInvalid
  | TemplateTagReserved
  | WorkflowQueryInvalid
  | WorkflowTelemetryConfigInvalid
  | TelemetryExportConfigInvalid
  | WorkflowTelemetryDropped
  | SerializationFailed
  | FilePolicyRejected
  | FileReferenceRewriteFailed
  | WaitTimeout
  | AckInvalidState
  | ClearInvalidState

datatype (plugins only: code size) ObservabilityOrWarningCode =
    ObservabilityEmitFailed
  | ObservabilityQueryFailed
  | ObservabilityFollowFailed
  | ObservabilityHealthFailed
  | ObservabilityBootstrapFailed
  | ObservabilityHealthOk
  | RetainedDiagnosticsHealthOk
  | WarningInvalidTeamMemberSkipped
  | WarningMailboxRecordSkipped
  | WarningMalformedAtmFieldIgnored
  | WarningObservabilityHealthDegraded
  | WarningRetainedDiagnosticsDegraded
  | WarningSqliteHealthDegraded
  | WarningOriginInboxEntrySkipped
  | WarningMissingTeamConfigFallback
  | WarningSendAlertStateDegraded
  | WarningIdentityDrift
  | WarningRosterDrift
  | WarningHerdrUnnamedAgentTarget
  | WarningBaselineMemberMissing
  | WarningRestoreInProgress
  | WarningStaleMailboxLock
  | WarningHookSkipped
  | WarningHookExecutionFailed
  | RosterNoLead
  | RosterMultipleLeads
  | RosterReservedName
  | TaskStalled
  | MemberBlocked
  | RosterMixedLocalBackend
  | HerdrAgentNotVisible

datatype (plugins only: code size) PostSendOrMiscCode =
    PostSendPaneMissing
  | PostSendTmuxSendFailed
  | PostSendHerdrPromptFailed
  | HerdrPromptFailed
  | HerdrUnavailable
  | PostSendGraftUnavailable
  | GraftReceiverAlreadyActive
  | GraftReceiverNotOwner
  | GraftReceiverNotRegistered
  | PostSendAdvisoryDeliveryFailed
  | TestFakeTransportInjectionFailed
  | HelpTopicNotFound
  | HookModuleInvalid
  | CronExprInvalid
  | HookRefused
  | HookExit
  | HookTimeout
  | HookMalformed
  | StoreQueryFailed
  | ToolSenderUnregistered
  | ToolSenderReserved
  | ToolSenderUnauthorized
  | ToolKeyUnknown
  | ToolKeyRevoked
  | ToolNonceReplay
  | ToolHostMismatch
  | ToolGenerationConflict
  | ToolSignatureInvalid
  | ToolRequestExpired
  | ToolCommitUncertain

datatype AtmErrorCode =
    ConfigOrIdentity ConfigOrIdentityCode
  | DaemonOrAddress DaemonOrAddressCode
  | MailboxOrValidation MailboxOrValidationCode
  | ObservabilityOrWarning ObservabilityOrWarningCode
  | PostSendOrMisc PostSendOrMiscCode

definition config_or_identity_str :: "AtmErrorCode \<Rightarrow> string option" where
  "config_or_identity_str self = (case self of
     ConfigOrIdentity c \<Rightarrow> Some (case c of
      ConfigHomeUnavailable \<Rightarrow> ''ATM_CONFIG_HOME_UNAVAILABLE''
    | AtmHomeUnresolved \<Rightarrow> ''ATM_HOME_UNRESOLVED''
    | ConfigParseFailed \<Rightarrow> ''ATM_CONFIG_PARSE_FAILED''
    | ConfigRetiredHookMembersKey \<Rightarrow> ''ATM_CONFIG_RETIRED_HOOK_MEMBERS_KEY''
    | ConfigRetiredLegacyHookKeys \<Rightarrow> ''ATM_CONFIG_RETIRED_LEGACY_HOOK_KEYS''
    | ConfigTeamParseFailed \<Rightarrow> ''ATM_CONFIG_TEAM_PARSE_FAILED''
    | ConfigTeamMissing \<Rightarrow> ''ATM_CONFIG_TEAM_MISSING''
    | IdentityUnavailable \<Rightarrow> ''ATM_IDENTITY_UNAVAILABLE''
    | IdentityInvalid \<Rightarrow> ''ATM_IDENTITY_INVALID''
    | IdentityConflict \<Rightarrow> ''ATM_IDENTITY_CONFLICT''
    | MemberAlreadyExists \<Rightarrow> ''ATM_MEMBER_ALREADY_EXISTS''
    | MemberNotFound \<Rightarrow> ''ATM_MEMBER_NOT_FOUND'')
   | _ \<Rightarrow> None)"

definition daemon_or_address_str :: "AtmErrorCode \<Rightarrow> string option" where
  "daemon_or_address_str self = (case self of
     DaemonOrAddress c \<Rightarrow> Some (case c of
      DaemonUnavailable \<Rightarrow> ''ATM_DAEMON_UNAVAILABLE''
    | RuntimeRootInvalid \<Rightarrow> ''ATM_RUNTIME_ROOT_INVALID''
    | RuntimeBootstrapRefused \<Rightarrow> ''ATM_RUNTIME_BOOTSTRAP_REFUSED''
    | SocketOverrideForbidden \<Rightarrow> ''ATM_SOCKET_OVERRIDE_FORBIDDEN''
    | DaemonMayHaveExecuted \<Rightarrow> ''ATM_DAEMON_MAY_HAVE_EXECUTED''
    | DaemonLifecycleWedge \<Rightarrow> ''ATM_DAEMON_LIFECYCLE_WEDGE''
    | DaemonLaunchGateRejected \<Rightarrow> ''ATM_DAEMON_LAUNCH_GATE_REJECTED''
    | DaemonServingStateRejected \<Rightarrow> ''ATM_DAEMON_SERVING_STATE_REJECTED''
    | DaemonStaleOwnerRecoveryFailed \<Rightarrow> ''ATM_DAEMON_STALE_OWNER_RECOVERY_FAILED''
    | DaemonAutoStartFailed \<Rightarrow> ''ATM_DAEMON_AUTO_START_FAILED''
    | DaemonConnectionSaturated \<Rightarrow> ''ATM_DAEMON_CONNECTION_SATURATED''
    | BlockingBridgeDeadlineBeforeStart \<Rightarrow> ''ATM_BLOCKING_BRIDGE_DEADLINE_BEFORE_START''
    | BlockingBridgeDeadlineAfterStart \<Rightarrow> ''ATM_BLOCKING_BRIDGE_DEADLINE_AFTER_START''
    | RemoteDeliveryUnconfirmed \<Rightarrow> ''REMOTE_DELIVERY_UNCONFIRMED''
    | PeerWireModeInvalid \<Rightarrow> ''ATM_PEER_WIRE_MODE_INVALID''
    | PeerWireModeSourceForbidden \<Rightarrow> ''ATM_PEER_WIRE_MODE_SOURCE_FORBIDDEN''
    | PeerWirePlaintextAuthenticationRequired \<Rightarrow> ''ATM_PEER_WIRE_PLAINTEXT_AUTHENTICATION_REQUIRED''
    | PeerConfigValidationFailed \<Rightarrow> ''ATM_PEER_CONFIG_VALIDATION_FAILED''
    | CertificateOperationFailed \<Rightarrow> ''ATM_CERTIFICATE_OPERATION_FAILED''
    | PeerAuthenticationFailed \<Rightarrow> ''ATM_PEER_AUTHENTICATION_FAILED''
    | TransportTimeout \<Rightarrow> ''ATM_TRANSPORT_TIMEOUT''
    | TransportProtocolFailed \<Rightarrow> ''ATM_TRANSPORT_PROTOCOL_FAILED''
    | BindPreflightFailed \<Rightarrow> ''ATM_BIND_PREFLIGHT_FAILED''
    | ClientDaemonVersionIncompatible \<Rightarrow> ''ATM_CLIENT_DAEMON_VERSION_INCOMPATIBLE''
    | DaemonAdvisorySessionAlreadyRegistered \<Rightarrow> ''ATM_DAEMON_ADVISORY_SESSION_ALREADY_REGISTERED''
    | DaemonAdvisorySessionNotRegistered \<Rightarrow> ''ATM_DAEMON_ADVISORY_SESSION_NOT_REGISTERED''
    | DaemonAdvisorySessionCleanupFailed \<Rightarrow> ''ATM_DAEMON_ADVISORY_SESSION_CLEANUP_FAILED''
    | AddressParseFailed \<Rightarrow> ''ATM_ADDRESS_PARSE_FAILED''
    | TeamUnavailable \<Rightarrow> ''ATM_TEAM_UNAVAILABLE''
    | TeamInvalid \<Rightarrow> ''ATM_TEAM_INVALID''
    | TeamNotFound \<Rightarrow> ''ATM_TEAM_NOT_FOUND''
    | AgentNotFound \<Rightarrow> ''ATM_AGENT_NOT_FOUND'')
   | _ \<Rightarrow> None)"

definition mailbox_or_validation_str :: "AtmErrorCode \<Rightarrow> string option" where
  "mailbox_or_validation_str self = (case self of
     MailboxOrValidation c \<Rightarrow> Some (case c of
      MailboxReadFailed \<Rightarrow> ''ATM_MAILBOX_READ_FAILED''
    | MailboxWriteFailed \<Rightarrow> ''ATM_MAILBOX_WRITE_FAILED''
    | MailboxLockFailed \<Rightarrow> ''ATM_MAILBOX_LOCK_FAILED''
    | MailboxLockReadOnlyFilesystem \<Rightarrow> ''ATM_MAILBOX_LOCK_READ_ONLY_FILESYSTEM''
    | MailboxLockTimeout \<Rightarrow> ''ATM_MAILBOX_LOCK_TIMEOUT''
    | InternalError \<Rightarrow> ''ATM_INTERNAL_ERROR''
    | MessageValidationFailed \<Rightarrow> ''ATM_MESSAGE_VALIDATION_FAILED''
    | TaskNotFound \<Rightarrow> ''ATM_TASK_NOT_FOUND''
    | TaskAlreadyActive \<Rightarrow> ''ATM_TASK_ALREADY_ACTIVE''
    | TaskAlreadyClosed \<Rightarrow> ''ATM_TASK_ALREADY_CLOSED''
    | TaskNotCounterparty \<Rightarrow> ''ATM_TASK_NOT_COUNTERPARTY''
    | TaskStaleCounterparty \<Rightarrow> ''ATM_TASK_STALE_COUNTERPARTY''
    | TaskMoveInvalid \<Rightarrow> ''ATM_TASK_MOVE_INVALID''
    | TaskMaxActiveReached \<Rightarrow> ''ATM_TASK_MAX_ACTIVE_REACHED''
    | SearchLocalOnly \<Rightarrow> ''ATM_SEARCH_LOCAL_ONLY''
    | LocalHttpCapabilityInvalid \<Rightarrow> ''ATM_LOCAL_HTTP_CAPABILITY_INVALID''
    | LocalHttpEndpointSchemaUnsupported \<Rightarrow> ''ATM_LOCAL_HTTP_ENDPOINT_SCHEMA_UNSUPPORTED''
    | LocalHttpEndpointMissing \<Rightarrow> ''ATM_LOCAL_HTTP_ENDPOINT_MISSING''
    | LocalHttpEndpointNonLoopback \<Rightarrow> ''ATM_LOCAL_HTTP_ENDPOINT_NON_LOOPBACK''
    | LocalHttpRuntimeDirectoryMissing \<Rightarrow> ''ATM_LOCAL_HTTP_RUNTIME_DIRECTORY_MISSING''
    | LocalHttpCapabilityRevoked \<Rightarrow> ''ATM_LOCAL_HTTP_CAPABILITY_REVOKED''
    | MessageIdConflict \<Rightarrow> ''ATM_MESSAGE_ID_CONFLICT''
    | SelfAddressedSendInvalid \<Rightarrow> ''ATM_SELF_ADDRESSED_SEND_INVALID''
    | EmptyNudgeTemplateBody \<Rightarrow> ''ATM_NUDGE_TEMPLATE_BODY_EMPTY''
    | CallerContextRequestInvalid \<Rightarrow> ''ATM_CALLER_CONTEXT_REQUEST_INVALID''
    | TemplateContentNotUtf8 \<Rightarrow> ''TEMPLATE_CONTENT_NOT_UTF8''
    | DecomposedTemplateIncludeForbidden \<Rightarrow> ''DECOMPOSED_TEMPLATE_INCLUDE_FORBIDDEN''
    | TemplateLoadFailed \<Rightarrow> ''TEMPLATE_LOAD_FAILED''
    | TemplateHashApiFailed \<Rightarrow> ''TEMPLATE_HASH_API_FAILED''
    | TemplateInspectionParseFailed \<Rightarrow> ''TEMPLATE_INSPECTION_PARSE_FAILED''
    | TemplateRequiredVariableMissing \<Rightarrow> ''TEMPLATE_REQUIRED_VARIABLE_MISSING''
    | TemplateVariableResolutionFailed \<Rightarrow> ''TEMPLATE_VARIABLE_RESOLUTION_FAILED''
    | TemplateRenderVerificationFailed \<Rightarrow> ''TEMPLATE_RENDER_VERIFICATION_FAILED''
    | TemplateIncludeUnresolved \<Rightarrow> ''TEMPLATE_INCLUDE_UNRESOLVED''
    | TemplateClassificationInvalid \<Rightarrow> ''TEMPLATE_CLASSIFICATION_INVALID''
    | TemplateWorkflowInvalid \<Rightarrow> ''TEMPLATE_WORKFLOW_INVALID''
    | TemplateWorkflowValueInvalid \<Rightarrow> ''TEMPLATE_WORKFLOW_VALUE_INVALID''
    | TemplateTagReserved \<Rightarrow> ''TEMPLATE_TAG_RESERVED''
    | WorkflowQueryInvalid \<Rightarrow> ''ATM_WORKFLOW_QUERY_INVALID''
    | WorkflowTelemetryConfigInvalid \<Rightarrow> ''ATM_WORKFLOW_TELEMETRY_CONFIG_INVALID''
    | TelemetryExportConfigInvalid \<Rightarrow> ''ATM_TELEMETRY_EXPORT_CONFIG_INVALID''
    | WorkflowTelemetryDropped \<Rightarrow> ''ATM_WORKFLOW_TELEMETRY_DROPPED''
    | SerializationFailed \<Rightarrow> ''ATM_SERIALIZATION_FAILED''
    | FilePolicyRejected \<Rightarrow> ''ATM_FILE_POLICY_REJECTED''
    | FileReferenceRewriteFailed \<Rightarrow> ''ATM_FILE_REFERENCE_REWRITE_FAILED''
    | WaitTimeout \<Rightarrow> ''ATM_WAIT_TIMEOUT''
    | AckInvalidState \<Rightarrow> ''ATM_ACK_INVALID_STATE''
    | ClearInvalidState \<Rightarrow> ''ATM_CLEAR_INVALID_STATE'')
   | _ \<Rightarrow> None)"

definition observability_or_warning_str :: "AtmErrorCode \<Rightarrow> string option" where
  "observability_or_warning_str self = (case self of
     ObservabilityOrWarning c \<Rightarrow> Some (case c of
      ObservabilityEmitFailed \<Rightarrow> ''ATM_OBSERVABILITY_EMIT_FAILED''
    | ObservabilityQueryFailed \<Rightarrow> ''ATM_OBSERVABILITY_QUERY_FAILED''
    | ObservabilityFollowFailed \<Rightarrow> ''ATM_OBSERVABILITY_FOLLOW_FAILED''
    | ObservabilityHealthFailed \<Rightarrow> ''ATM_OBSERVABILITY_HEALTH_FAILED''
    | ObservabilityBootstrapFailed \<Rightarrow> ''ATM_OBSERVABILITY_BOOTSTRAP_FAILED''
    | ObservabilityHealthOk \<Rightarrow> ''ATM_OBSERVABILITY_HEALTH_OK''
    | RetainedDiagnosticsHealthOk \<Rightarrow> ''ATM_RETAINED_DIAGNOSTICS_HEALTH_OK''
    | WarningInvalidTeamMemberSkipped \<Rightarrow> ''ATM_WARNING_INVALID_TEAM_MEMBER_SKIPPED''
    | WarningMailboxRecordSkipped \<Rightarrow> ''ATM_WARNING_MAILBOX_RECORD_SKIPPED''
    | WarningMalformedAtmFieldIgnored \<Rightarrow> ''ATM_WARNING_MALFORMED_ATM_FIELD_IGNORED''
    | WarningObservabilityHealthDegraded \<Rightarrow> ''ATM_WARNING_OBSERVABILITY_HEALTH_DEGRADED''
    | WarningRetainedDiagnosticsDegraded \<Rightarrow> ''ATM_WARNING_RETAINED_DIAGNOSTICS_DEGRADED''
    | WarningSqliteHealthDegraded \<Rightarrow> ''ATM_WARNING_SQLITE_HEALTH_DEGRADED''
    | WarningOriginInboxEntrySkipped \<Rightarrow> ''ATM_WARNING_ORIGIN_INBOX_ENTRY_SKIPPED''
    | WarningMissingTeamConfigFallback \<Rightarrow> ''ATM_WARNING_MISSING_TEAM_CONFIG_FALLBACK''
    | WarningSendAlertStateDegraded \<Rightarrow> ''ATM_WARNING_SEND_ALERT_STATE_DEGRADED''
    | WarningIdentityDrift \<Rightarrow> ''ATM_WARNING_IDENTITY_DRIFT''
    | WarningRosterDrift \<Rightarrow> ''ATM_WARNING_ROSTER_DRIFT''
    | WarningHerdrUnnamedAgentTarget \<Rightarrow> ''ATM_WARNING_HERDR_UNNAMED_AGENT_TARGET''
    | WarningBaselineMemberMissing \<Rightarrow> ''ATM_WARNING_BASELINE_MEMBER_MISSING''
    | WarningRestoreInProgress \<Rightarrow> ''ATM_WARNING_RESTORE_IN_PROGRESS''
    | WarningStaleMailboxLock \<Rightarrow> ''ATM_WARNING_STALE_MAILBOX_LOCK''
    | WarningHookSkipped \<Rightarrow> ''ATM_WARNING_HOOK_SKIPPED''
    | WarningHookExecutionFailed \<Rightarrow> ''ATM_WARNING_HOOK_EXECUTION_FAILED''
    | RosterNoLead \<Rightarrow> ''ATM_ROSTER_NO_LEAD''
    | RosterMultipleLeads \<Rightarrow> ''ATM_ROSTER_MULTIPLE_LEADS''
    | RosterReservedName \<Rightarrow> ''ATM_ROSTER_RESERVED_NAME''
    | TaskStalled \<Rightarrow> ''ATM_TASK_STALLED''
    | MemberBlocked \<Rightarrow> ''ATM_MEMBER_BLOCKED''
    | RosterMixedLocalBackend \<Rightarrow> ''ATM_ROSTER_MIXED_LOCAL_BACKEND''
    | HerdrAgentNotVisible \<Rightarrow> ''ATM_HERDR_AGENT_NOT_VISIBLE'')
   | _ \<Rightarrow> None)"

definition post_send_or_misc_str :: "AtmErrorCode \<Rightarrow> string option" where
  "post_send_or_misc_str self = (case self of
     PostSendOrMisc c \<Rightarrow> Some (case c of
      PostSendPaneMissing \<Rightarrow> ''ATM_POST_SEND_PANE_MISSING''
    | PostSendTmuxSendFailed \<Rightarrow> ''ATM_POST_SEND_TMUX_SEND_FAILED''
    | PostSendHerdrPromptFailed \<Rightarrow> ''ATM_POST_SEND_HERDR_PROMPT_FAILED''
    | HerdrPromptFailed \<Rightarrow> ''ATM_HERDR_PROMPT_FAILED''
    | HerdrUnavailable \<Rightarrow> ''ATM_HERDR_UNAVAILABLE''
    | PostSendGraftUnavailable \<Rightarrow> ''ATM_POST_SEND_GRAFT_UNAVAILABLE''
    | GraftReceiverAlreadyActive \<Rightarrow> ''ATM_GRAFT_RECEIVER_ALREADY_ACTIVE''
    | GraftReceiverNotOwner \<Rightarrow> ''ATM_GRAFT_RECEIVER_NOT_OWNER''
    | GraftReceiverNotRegistered \<Rightarrow> ''ATM_GRAFT_RECEIVER_NOT_REGISTERED''
    | PostSendAdvisoryDeliveryFailed \<Rightarrow> ''ATM_POST_SEND_ADVISORY_DELIVERY_FAILED''
    | TestFakeTransportInjectionFailed \<Rightarrow> ''ATM_TEST_FAKE_TRANSPORT_INJECTION_FAILED''
    | HelpTopicNotFound \<Rightarrow> ''ATM_HELP_TOPIC_NOT_FOUND''
    | HookModuleInvalid \<Rightarrow> ''ATM_HOOK_MODULE_INVALID''
    | CronExprInvalid \<Rightarrow> ''ATM_CRON_EXPR_INVALID''
    | HookRefused \<Rightarrow> ''ATM_HOOK_REFUSED''
    | HookExit \<Rightarrow> ''ATM_HOOK_EXIT''
    | HookTimeout \<Rightarrow> ''ATM_HOOK_TIMEOUT''
    | HookMalformed \<Rightarrow> ''ATM_HOOK_MALFORMED''
    | StoreQueryFailed \<Rightarrow> ''ATM_STORE_QUERY_FAILED''
    | ToolSenderUnregistered \<Rightarrow> ''ATM_TOOL_SENDER_UNREGISTERED''
    | ToolSenderReserved \<Rightarrow> ''ATM_TOOL_SENDER_RESERVED''
    | ToolSenderUnauthorized \<Rightarrow> ''ATM_TOOL_SENDER_UNAUTHORIZED''
    | ToolKeyUnknown \<Rightarrow> ''ATM_TOOL_KEY_UNKNOWN''
    | ToolKeyRevoked \<Rightarrow> ''ATM_TOOL_KEY_REVOKED''
    | ToolNonceReplay \<Rightarrow> ''ATM_TOOL_NONCE_REPLAY''
    | ToolHostMismatch \<Rightarrow> ''ATM_TOOL_HOST_MISMATCH''
    | ToolGenerationConflict \<Rightarrow> ''ATM_TOOL_GENERATION_CONFLICT''
    | ToolSignatureInvalid \<Rightarrow> ''ATM_TOOL_SIGNATURE_INVALID''
    | ToolRequestExpired \<Rightarrow> ''ATM_TOOL_REQUEST_EXPIRED''
    | ToolCommitUncertain \<Rightarrow> ''ATM_TOOL_COMMIT_UNCERTAIN'')
   | _ \<Rightarrow> None)"

definition AtmErrorCode_as_str :: "AtmErrorCode \<Rightarrow> string option" where
  "AtmErrorCode_as_str self =
     (case config_or_identity_str self of Some value \<Rightarrow> Some value | None \<Rightarrow>
     (case daemon_or_address_str self of Some value \<Rightarrow> Some value | None \<Rightarrow>
     (case mailbox_or_validation_str self of Some value \<Rightarrow> Some value | None \<Rightarrow>
     (case observability_or_warning_str self of Some value \<Rightarrow> Some value | None \<Rightarrow>
      post_send_or_misc_str self))))"

definition config_or_identity_codes :: "(string \<times> AtmErrorCode) list" where
  "config_or_identity_codes =
     [ (''ATM_CONFIG_HOME_UNAVAILABLE'', ConfigOrIdentity ConfigHomeUnavailable)
     , (''ATM_HOME_UNRESOLVED'', ConfigOrIdentity AtmHomeUnresolved)
     , (''ATM_CONFIG_PARSE_FAILED'', ConfigOrIdentity ConfigParseFailed)
     , (''ATM_CONFIG_RETIRED_HOOK_MEMBERS_KEY'', ConfigOrIdentity ConfigRetiredHookMembersKey)
     , (''ATM_CONFIG_RETIRED_LEGACY_HOOK_KEYS'', ConfigOrIdentity ConfigRetiredLegacyHookKeys)
     , (''ATM_CONFIG_TEAM_PARSE_FAILED'', ConfigOrIdentity ConfigTeamParseFailed)
     , (''ATM_CONFIG_TEAM_MISSING'', ConfigOrIdentity ConfigTeamMissing)
     , (''ATM_IDENTITY_UNAVAILABLE'', ConfigOrIdentity IdentityUnavailable)
     , (''ATM_IDENTITY_INVALID'', ConfigOrIdentity IdentityInvalid)
     , (''ATM_IDENTITY_CONFLICT'', ConfigOrIdentity IdentityConflict)
     , (''ATM_MEMBER_ALREADY_EXISTS'', ConfigOrIdentity MemberAlreadyExists)
     , (''ATM_MEMBER_NOT_FOUND'', ConfigOrIdentity MemberNotFound) ]"

definition parse_config_or_identity_code :: "string \<Rightarrow> AtmErrorCode option" where
  "parse_config_or_identity_code value = map_of config_or_identity_codes value"

definition daemon_or_address_codes :: "(string \<times> AtmErrorCode) list" where
  "daemon_or_address_codes =
     [ (''ATM_DAEMON_UNAVAILABLE'', DaemonOrAddress DaemonUnavailable)
     , (''ATM_RUNTIME_ROOT_INVALID'', DaemonOrAddress RuntimeRootInvalid)
     , (''ATM_RUNTIME_BOOTSTRAP_REFUSED'', DaemonOrAddress RuntimeBootstrapRefused)
     , (''ATM_SOCKET_OVERRIDE_FORBIDDEN'', DaemonOrAddress SocketOverrideForbidden)
     , (''ATM_DAEMON_MAY_HAVE_EXECUTED'', DaemonOrAddress DaemonMayHaveExecuted)
     , (''ATM_DAEMON_LIFECYCLE_WEDGE'', DaemonOrAddress DaemonLifecycleWedge)
     , (''ATM_DAEMON_LAUNCH_GATE_REJECTED'', DaemonOrAddress DaemonLaunchGateRejected)
     , (''ATM_DAEMON_SERVING_STATE_REJECTED'', DaemonOrAddress DaemonServingStateRejected)
     , (''ATM_DAEMON_STALE_OWNER_RECOVERY_FAILED'', DaemonOrAddress DaemonStaleOwnerRecoveryFailed)
     , (''ATM_DAEMON_AUTO_START_FAILED'', DaemonOrAddress DaemonAutoStartFailed)
     , (''ATM_DAEMON_CONNECTION_SATURATED'', DaemonOrAddress DaemonConnectionSaturated)
     , (''ATM_BLOCKING_BRIDGE_DEADLINE_BEFORE_START'', DaemonOrAddress BlockingBridgeDeadlineBeforeStart)
     , (''ATM_BLOCKING_BRIDGE_DEADLINE_AFTER_START'', DaemonOrAddress BlockingBridgeDeadlineAfterStart)
     , (''REMOTE_DELIVERY_UNCONFIRMED'', DaemonOrAddress RemoteDeliveryUnconfirmed)
     , (''ATM_PEER_WIRE_MODE_INVALID'', DaemonOrAddress PeerWireModeInvalid)
     , (''ATM_PEER_WIRE_MODE_SOURCE_FORBIDDEN'', DaemonOrAddress PeerWireModeSourceForbidden)
     , (''ATM_PEER_WIRE_PLAINTEXT_AUTHENTICATION_REQUIRED'', DaemonOrAddress PeerWirePlaintextAuthenticationRequired)
     , (''ATM_PEER_CONFIG_VALIDATION_FAILED'', DaemonOrAddress PeerConfigValidationFailed)
     , (''ATM_CERTIFICATE_OPERATION_FAILED'', DaemonOrAddress CertificateOperationFailed)
     , (''ATM_PEER_AUTHENTICATION_FAILED'', DaemonOrAddress PeerAuthenticationFailed)
     , (''ATM_TRANSPORT_TIMEOUT'', DaemonOrAddress TransportTimeout)
     , (''ATM_TRANSPORT_PROTOCOL_FAILED'', DaemonOrAddress TransportProtocolFailed)
     , (''ATM_BIND_PREFLIGHT_FAILED'', DaemonOrAddress BindPreflightFailed)
     , (''ATM_CLIENT_DAEMON_VERSION_INCOMPATIBLE'', DaemonOrAddress ClientDaemonVersionIncompatible)
     , (''ATM_DAEMON_ADVISORY_SESSION_ALREADY_REGISTERED'', DaemonOrAddress DaemonAdvisorySessionAlreadyRegistered)
     , (''ATM_DAEMON_ADVISORY_SESSION_NOT_REGISTERED'', DaemonOrAddress DaemonAdvisorySessionNotRegistered)
     , (''ATM_DAEMON_ADVISORY_SESSION_CLEANUP_FAILED'', DaemonOrAddress DaemonAdvisorySessionCleanupFailed)
     , (''ATM_ADDRESS_PARSE_FAILED'', DaemonOrAddress AddressParseFailed)
     , (''ATM_TEAM_UNAVAILABLE'', DaemonOrAddress TeamUnavailable)
     , (''ATM_TEAM_INVALID'', DaemonOrAddress TeamInvalid)
     , (''ATM_TEAM_NOT_FOUND'', DaemonOrAddress TeamNotFound)
     , (''ATM_AGENT_NOT_FOUND'', DaemonOrAddress AgentNotFound) ]"

definition parse_daemon_or_address_code :: "string \<Rightarrow> AtmErrorCode option" where
  "parse_daemon_or_address_code value = map_of daemon_or_address_codes value"

definition mailbox_or_validation_codes :: "(string \<times> AtmErrorCode) list" where
  "mailbox_or_validation_codes =
     [ (''ATM_MAILBOX_READ_FAILED'', MailboxOrValidation MailboxReadFailed)
     , (''ATM_MAILBOX_WRITE_FAILED'', MailboxOrValidation MailboxWriteFailed)
     , (''ATM_MAILBOX_LOCK_FAILED'', MailboxOrValidation MailboxLockFailed)
     , (''ATM_MAILBOX_LOCK_READ_ONLY_FILESYSTEM'', MailboxOrValidation MailboxLockReadOnlyFilesystem)
     , (''ATM_MAILBOX_LOCK_TIMEOUT'', MailboxOrValidation MailboxLockTimeout)
     , (''ATM_INTERNAL_ERROR'', MailboxOrValidation InternalError)
     , (''ATM_MESSAGE_VALIDATION_FAILED'', MailboxOrValidation MessageValidationFailed)
     , (''ATM_TASK_NOT_FOUND'', MailboxOrValidation TaskNotFound)
     , (''ATM_TASK_ALREADY_ACTIVE'', MailboxOrValidation TaskAlreadyActive)
     , (''ATM_TASK_ALREADY_CLOSED'', MailboxOrValidation TaskAlreadyClosed)
     , (''ATM_TASK_NOT_COUNTERPARTY'', MailboxOrValidation TaskNotCounterparty)
     , (''ATM_TASK_STALE_COUNTERPARTY'', MailboxOrValidation TaskStaleCounterparty)
     , (''ATM_TASK_MOVE_INVALID'', MailboxOrValidation TaskMoveInvalid)
     , (''ATM_TASK_MAX_ACTIVE_REACHED'', MailboxOrValidation TaskMaxActiveReached)
     , (''ATM_SEARCH_LOCAL_ONLY'', MailboxOrValidation SearchLocalOnly)
     , (''ATM_LOCAL_HTTP_CAPABILITY_INVALID'', MailboxOrValidation LocalHttpCapabilityInvalid)
     , (''ATM_LOCAL_HTTP_ENDPOINT_SCHEMA_UNSUPPORTED'', MailboxOrValidation LocalHttpEndpointSchemaUnsupported)
     , (''ATM_LOCAL_HTTP_ENDPOINT_MISSING'', MailboxOrValidation LocalHttpEndpointMissing)
     , (''ATM_LOCAL_HTTP_ENDPOINT_NON_LOOPBACK'', MailboxOrValidation LocalHttpEndpointNonLoopback)
     , (''ATM_LOCAL_HTTP_RUNTIME_DIRECTORY_MISSING'', MailboxOrValidation LocalHttpRuntimeDirectoryMissing)
     , (''ATM_LOCAL_HTTP_CAPABILITY_REVOKED'', MailboxOrValidation LocalHttpCapabilityRevoked)
     , (''ATM_MESSAGE_ID_CONFLICT'', MailboxOrValidation MessageIdConflict)
     , (''ATM_SELF_ADDRESSED_SEND_INVALID'', MailboxOrValidation SelfAddressedSendInvalid)
     , (''ATM_NUDGE_TEMPLATE_BODY_EMPTY'', MailboxOrValidation EmptyNudgeTemplateBody)
     , (''ATM_CALLER_CONTEXT_REQUEST_INVALID'', MailboxOrValidation CallerContextRequestInvalid)
     , (''TEMPLATE_CONTENT_NOT_UTF8'', MailboxOrValidation TemplateContentNotUtf8)
     , (''DECOMPOSED_TEMPLATE_INCLUDE_FORBIDDEN'', MailboxOrValidation DecomposedTemplateIncludeForbidden)
     , (''TEMPLATE_LOAD_FAILED'', MailboxOrValidation TemplateLoadFailed)
     , (''TEMPLATE_HASH_API_FAILED'', MailboxOrValidation TemplateHashApiFailed)
     , (''TEMPLATE_INSPECTION_PARSE_FAILED'', MailboxOrValidation TemplateInspectionParseFailed)
     , (''TEMPLATE_REQUIRED_VARIABLE_MISSING'', MailboxOrValidation TemplateRequiredVariableMissing)
     , (''TEMPLATE_VARIABLE_RESOLUTION_FAILED'', MailboxOrValidation TemplateVariableResolutionFailed)
     , (''TEMPLATE_RENDER_VERIFICATION_FAILED'', MailboxOrValidation TemplateRenderVerificationFailed)
     , (''TEMPLATE_INCLUDE_UNRESOLVED'', MailboxOrValidation TemplateIncludeUnresolved)
     , (''TEMPLATE_CLASSIFICATION_INVALID'', MailboxOrValidation TemplateClassificationInvalid)
     , (''TEMPLATE_WORKFLOW_INVALID'', MailboxOrValidation TemplateWorkflowInvalid)
     , (''TEMPLATE_WORKFLOW_VALUE_INVALID'', MailboxOrValidation TemplateWorkflowValueInvalid)
     , (''TEMPLATE_TAG_RESERVED'', MailboxOrValidation TemplateTagReserved)
     , (''ATM_WORKFLOW_QUERY_INVALID'', MailboxOrValidation WorkflowQueryInvalid)
     , (''ATM_WORKFLOW_TELEMETRY_CONFIG_INVALID'', MailboxOrValidation WorkflowTelemetryConfigInvalid)
     , (''ATM_TELEMETRY_EXPORT_CONFIG_INVALID'', MailboxOrValidation TelemetryExportConfigInvalid)
     , (''ATM_WORKFLOW_TELEMETRY_DROPPED'', MailboxOrValidation WorkflowTelemetryDropped)
     , (''ATM_SERIALIZATION_FAILED'', MailboxOrValidation SerializationFailed)
     , (''ATM_FILE_POLICY_REJECTED'', MailboxOrValidation FilePolicyRejected)
     , (''ATM_FILE_REFERENCE_REWRITE_FAILED'', MailboxOrValidation FileReferenceRewriteFailed)
     , (''ATM_WAIT_TIMEOUT'', MailboxOrValidation WaitTimeout)
     , (''ATM_ACK_INVALID_STATE'', MailboxOrValidation AckInvalidState)
     , (''ATM_CLEAR_INVALID_STATE'', MailboxOrValidation ClearInvalidState) ]"

definition parse_mailbox_or_validation_code :: "string \<Rightarrow> AtmErrorCode option" where
  "parse_mailbox_or_validation_code value = map_of mailbox_or_validation_codes value"

definition observability_or_warning_codes :: "(string \<times> AtmErrorCode) list" where
  "observability_or_warning_codes =
     [ (''ATM_OBSERVABILITY_EMIT_FAILED'', ObservabilityOrWarning ObservabilityEmitFailed)
     , (''ATM_OBSERVABILITY_QUERY_FAILED'', ObservabilityOrWarning ObservabilityQueryFailed)
     , (''ATM_OBSERVABILITY_FOLLOW_FAILED'', ObservabilityOrWarning ObservabilityFollowFailed)
     , (''ATM_OBSERVABILITY_HEALTH_FAILED'', ObservabilityOrWarning ObservabilityHealthFailed)
     , (''ATM_OBSERVABILITY_BOOTSTRAP_FAILED'', ObservabilityOrWarning ObservabilityBootstrapFailed)
     , (''ATM_OBSERVABILITY_HEALTH_OK'', ObservabilityOrWarning ObservabilityHealthOk)
     , (''ATM_RETAINED_DIAGNOSTICS_HEALTH_OK'', ObservabilityOrWarning RetainedDiagnosticsHealthOk)
     , (''ATM_WARNING_INVALID_TEAM_MEMBER_SKIPPED'', ObservabilityOrWarning WarningInvalidTeamMemberSkipped)
     , (''ATM_WARNING_MAILBOX_RECORD_SKIPPED'', ObservabilityOrWarning WarningMailboxRecordSkipped)
     , (''ATM_WARNING_MALFORMED_ATM_FIELD_IGNORED'', ObservabilityOrWarning WarningMalformedAtmFieldIgnored)
     , (''ATM_WARNING_OBSERVABILITY_HEALTH_DEGRADED'', ObservabilityOrWarning WarningObservabilityHealthDegraded)
     , (''ATM_WARNING_RETAINED_DIAGNOSTICS_DEGRADED'', ObservabilityOrWarning WarningRetainedDiagnosticsDegraded)
     , (''ATM_WARNING_SQLITE_HEALTH_DEGRADED'', ObservabilityOrWarning WarningSqliteHealthDegraded)
     , (''ATM_WARNING_ORIGIN_INBOX_ENTRY_SKIPPED'', ObservabilityOrWarning WarningOriginInboxEntrySkipped)
     , (''ATM_WARNING_MISSING_TEAM_CONFIG_FALLBACK'', ObservabilityOrWarning WarningMissingTeamConfigFallback)
     , (''ATM_WARNING_SEND_ALERT_STATE_DEGRADED'', ObservabilityOrWarning WarningSendAlertStateDegraded)
     , (''ATM_WARNING_IDENTITY_DRIFT'', ObservabilityOrWarning WarningIdentityDrift)
     , (''ATM_WARNING_ROSTER_DRIFT'', ObservabilityOrWarning WarningRosterDrift)
     , (''ATM_WARNING_HERDR_UNNAMED_AGENT_TARGET'', ObservabilityOrWarning WarningHerdrUnnamedAgentTarget)
     , (''ATM_WARNING_BASELINE_MEMBER_MISSING'', ObservabilityOrWarning WarningBaselineMemberMissing)
     , (''ATM_WARNING_RESTORE_IN_PROGRESS'', ObservabilityOrWarning WarningRestoreInProgress)
     , (''ATM_WARNING_STALE_MAILBOX_LOCK'', ObservabilityOrWarning WarningStaleMailboxLock)
     , (''ATM_WARNING_HOOK_SKIPPED'', ObservabilityOrWarning WarningHookSkipped)
     , (''ATM_WARNING_HOOK_EXECUTION_FAILED'', ObservabilityOrWarning WarningHookExecutionFailed)
     , (''ATM_ROSTER_NO_LEAD'', ObservabilityOrWarning RosterNoLead)
     , (''ATM_ROSTER_MULTIPLE_LEADS'', ObservabilityOrWarning RosterMultipleLeads)
     , (''ATM_ROSTER_RESERVED_NAME'', ObservabilityOrWarning RosterReservedName)
     , (''ATM_TASK_STALLED'', ObservabilityOrWarning TaskStalled)
     , (''ATM_MEMBER_BLOCKED'', ObservabilityOrWarning MemberBlocked)
     , (''ATM_ROSTER_MIXED_LOCAL_BACKEND'', ObservabilityOrWarning RosterMixedLocalBackend)
     , (''ATM_HERDR_AGENT_NOT_VISIBLE'', ObservabilityOrWarning HerdrAgentNotVisible) ]"

definition parse_observability_or_warning_code :: "string \<Rightarrow> AtmErrorCode option" where
  "parse_observability_or_warning_code value = map_of observability_or_warning_codes value"

definition post_send_or_misc_codes :: "(string \<times> AtmErrorCode) list" where
  "post_send_or_misc_codes =
     [ (''ATM_POST_SEND_PANE_MISSING'', PostSendOrMisc PostSendPaneMissing)
     , (''ATM_POST_SEND_TMUX_SEND_FAILED'', PostSendOrMisc PostSendTmuxSendFailed)
     , (''ATM_POST_SEND_HERDR_PROMPT_FAILED'', PostSendOrMisc PostSendHerdrPromptFailed)
     , (''ATM_HERDR_PROMPT_FAILED'', PostSendOrMisc HerdrPromptFailed)
     , (''ATM_HERDR_UNAVAILABLE'', PostSendOrMisc HerdrUnavailable)
     , (''ATM_POST_SEND_GRAFT_UNAVAILABLE'', PostSendOrMisc PostSendGraftUnavailable)
     , (''ATM_GRAFT_RECEIVER_ALREADY_ACTIVE'', PostSendOrMisc GraftReceiverAlreadyActive)
     , (''ATM_GRAFT_RECEIVER_NOT_OWNER'', PostSendOrMisc GraftReceiverNotOwner)
     , (''ATM_GRAFT_RECEIVER_NOT_REGISTERED'', PostSendOrMisc GraftReceiverNotRegistered)
     , (''ATM_POST_SEND_ADVISORY_DELIVERY_FAILED'', PostSendOrMisc PostSendAdvisoryDeliveryFailed)
     , (''ATM_TEST_FAKE_TRANSPORT_INJECTION_FAILED'', PostSendOrMisc TestFakeTransportInjectionFailed)
     , (''ATM_HELP_TOPIC_NOT_FOUND'', PostSendOrMisc HelpTopicNotFound)
     , (''ATM_HOOK_MODULE_INVALID'', PostSendOrMisc HookModuleInvalid)
     , (''ATM_CRON_EXPR_INVALID'', PostSendOrMisc CronExprInvalid)
     , (''ATM_HOOK_REFUSED'', PostSendOrMisc HookRefused)
     , (''ATM_HOOK_EXIT'', PostSendOrMisc HookExit)
     , (''ATM_HOOK_TIMEOUT'', PostSendOrMisc HookTimeout)
     , (''ATM_HOOK_MALFORMED'', PostSendOrMisc HookMalformed)
     , (''ATM_STORE_QUERY_FAILED'', PostSendOrMisc StoreQueryFailed)
     , (''ATM_TOOL_SENDER_UNREGISTERED'', PostSendOrMisc ToolSenderUnregistered)
     , (''ATM_TOOL_SENDER_RESERVED'', PostSendOrMisc ToolSenderReserved)
     , (''ATM_TOOL_SENDER_UNAUTHORIZED'', PostSendOrMisc ToolSenderUnauthorized)
     , (''ATM_TOOL_KEY_UNKNOWN'', PostSendOrMisc ToolKeyUnknown)
     , (''ATM_TOOL_KEY_REVOKED'', PostSendOrMisc ToolKeyRevoked)
     , (''ATM_TOOL_NONCE_REPLAY'', PostSendOrMisc ToolNonceReplay)
     , (''ATM_TOOL_HOST_MISMATCH'', PostSendOrMisc ToolHostMismatch)
     , (''ATM_TOOL_GENERATION_CONFLICT'', PostSendOrMisc ToolGenerationConflict)
     , (''ATM_TOOL_SIGNATURE_INVALID'', PostSendOrMisc ToolSignatureInvalid)
     , (''ATM_TOOL_REQUEST_EXPIRED'', PostSendOrMisc ToolRequestExpired)
     , (''ATM_TOOL_COMMIT_UNCERTAIN'', PostSendOrMisc ToolCommitUncertain) ]"

definition parse_post_send_or_misc_code :: "string \<Rightarrow> AtmErrorCode option" where
  "parse_post_send_or_misc_code value = map_of post_send_or_misc_codes value"

definition parse_known_error_code :: "string \<Rightarrow> AtmErrorCode option" where
  "parse_known_error_code value =
     (case parse_config_or_identity_code value of Some c \<Rightarrow> Some c | None \<Rightarrow>
     (case parse_daemon_or_address_code value of Some c \<Rightarrow> Some c | None \<Rightarrow>
     (case parse_mailbox_or_validation_code value of Some c \<Rightarrow> Some c | None \<Rightarrow>
     (case parse_observability_or_warning_code value of Some c \<Rightarrow> Some c | None \<Rightarrow>
      parse_post_send_or_misc_code value))))"

datatype UnknownAtmErrorCode = UnknownAtmErrorCode string

definition AtmErrorCode_from_str :: "string \<Rightarrow> UnknownAtmErrorCode + AtmErrorCode" where
  "AtmErrorCode_from_str value =
     (case parse_known_error_code value of
        Some c \<Rightarrow> Inr c
      | None \<Rightarrow> Inl (UnknownAtmErrorCode value))"

section \<open>The guidance catalog\<close>

definition tool_sender_guidance :: "AtmErrorCode \<Rightarrow> string option" where
  "tool_sender_guidance code = (case code of
      PostSendOrMisc c \<Rightarrow> (case c of
        ToolSenderUnregistered \<Rightarrow> Some ''Register this plug-in sender through an authenticated installer, then retry.''
      | ToolSenderReserved \<Rightarrow> Some ''Use the daemon-owned virtual sender flow; do not register or claim a reserved sender.''
      | ToolSenderUnauthorized \<Rightarrow> Some ''Use an authorized sender or have the administrator update its explicit sender allowlist.''
      | ToolKeyUnknown \<Rightarrow> Some ''Use a key id enrolled in the protected trust root or active sender registration.''
      | ToolKeyRevoked \<Rightarrow> Some ''Enroll and activate a replacement key through the administrator-controlled rotation flow.''
      | ToolNonceReplay \<Rightarrow> Some ''For an exact retry, query the prior operation receipt; for a new operation, issue and sign a fresh nonce.''
      | ToolHostMismatch \<Rightarrow> Some ''Send the request to its authorized host or have the administrator update the signed host allowlist.''
      | ToolGenerationConflict \<Rightarrow> Some ''Read the current registration generation and create a newly signed request against it.''
      | ToolSignatureInvalid \<Rightarrow> Some ''Canonicalize the request fields and sign them again with the enrolled private key.''
      | ToolRequestExpired \<Rightarrow> Some ''Issue a request with a current validity interval and sign the new request.''
      | ToolCommitUncertain \<Rightarrow> Some ''Reconcile the operation by its original nonce and digest before retrying; do not submit a new operation blindly.''
      | _ \<Rightarrow> None)
    | _ \<Rightarrow> None)"

definition hook_guidance :: "AtmErrorCode \<Rightarrow> string option" where
  "hook_guidance code = (case code of
      PostSendOrMisc c \<Rightarrow> (case c of
        HookModuleInvalid \<Rightarrow> Some ''Register a task hook module path and name the hook from the supported list, then retry.''
      | CronExprInvalid \<Rightarrow> Some ''Use a five-field cron expression or an --until time later than now, then retry.''
      | HookRefused \<Rightarrow> Some ''''
      | HookExit \<Rightarrow> Some ''Fix the hook module so it starts and exits with a valid reply, then retry.''
      | HookTimeout \<Rightarrow> Some ''Make the hook reply within its timeout or raise the timeout within the budget, then retry.''
      | HookMalformed \<Rightarrow> Some ''Make the hook reply match the JSON reply contract, then retry.''
      | _ \<Rightarrow> None)
    | _ \<Rightarrow> None)"

definition configuration_guidance :: "AtmErrorCode \<Rightarrow> string option" where
  "configuration_guidance code = (case code of
      ConfigOrIdentity c \<Rightarrow> (case c of
        ConfigHomeUnavailable \<Rightarrow> Some ''Repair the active ATM configuration and retry.''
      | AtmHomeUnresolved \<Rightarrow> Some ''Repair the active ATM configuration and retry.''
      | ConfigParseFailed \<Rightarrow> Some ''Repair the active ATM configuration and retry.''
      | ConfigRetiredHookMembersKey \<Rightarrow> Some ''Repair the active ATM configuration and retry.''
      | ConfigRetiredLegacyHookKeys \<Rightarrow> Some ''Repair the active ATM configuration and retry.''
      | ConfigTeamParseFailed \<Rightarrow> Some ''Repair the active ATM configuration and retry.''
      | ConfigTeamMissing \<Rightarrow> Some ''Repair the active ATM configuration and retry.''
      | IdentityUnavailable \<Rightarrow> Some ''Set a valid ATM identity before retrying.''
      | IdentityInvalid \<Rightarrow> Some ''Set a valid ATM identity before retrying.''
      | IdentityConflict \<Rightarrow> Some ''Set a valid ATM identity before retrying.''
      | MemberAlreadyExists \<Rightarrow> Some ''Confirm the target team and member before retrying.''
      | MemberNotFound \<Rightarrow> Some ''Confirm the target team and member before retrying.'')
    | _ \<Rightarrow> None)"

definition identity_guidance :: "AtmErrorCode \<Rightarrow> string option" where
  "identity_guidance code = (case code of
      DaemonOrAddress c \<Rightarrow> (case c of
        AddressParseFailed \<Rightarrow> Some ''Correct the ATM address or team selection and retry.''
      | TeamUnavailable \<Rightarrow> Some ''Correct the ATM address or team selection and retry.''
      | TeamInvalid \<Rightarrow> Some ''Correct the ATM address or team selection and retry.''
      | TeamNotFound \<Rightarrow> Some ''Correct the ATM address or team selection and retry.''
      | AgentNotFound \<Rightarrow> Some ''Correct the ATM address or team selection and retry.''
      | _ \<Rightarrow> None)
    | _ \<Rightarrow> None)"

definition daemon_guidance :: "AtmErrorCode \<Rightarrow> string option" where
  "daemon_guidance code = (case code of
      DaemonOrAddress c \<Rightarrow> (case c of
        DaemonMayHaveExecuted \<Rightarrow> Some ''Inspect the mailbox or daemon-side effects before attempting this request again.''
      | RemoteDeliveryUnconfirmed \<Rightarrow> Some ''Inspect the peer's delivery status before attempting this request again.''
      | DaemonUnavailable \<Rightarrow> Some ''Ensure atm-daemon binary is installed, then restore the single local daemon to a healthy serving state and retry.''
      | RuntimeRootInvalid \<Rightarrow> Some ''Ensure atm-daemon binary is installed, then restore the single local daemon to a healthy serving state and retry.''
      | RuntimeBootstrapRefused \<Rightarrow> Some ''Ensure atm-daemon binary is installed, then restore the single local daemon to a healthy serving state and retry.''
      | SocketOverrideForbidden \<Rightarrow> Some ''Ensure atm-daemon binary is installed, then restore the single local daemon to a healthy serving state and retry.''
      | DaemonLifecycleWedge \<Rightarrow> Some ''Ensure atm-daemon binary is installed, then restore the single local daemon to a healthy serving state and retry.''
      | DaemonLaunchGateRejected \<Rightarrow> Some ''Ensure atm-daemon binary is installed, then restore the single local daemon to a healthy serving state and retry.''
      | DaemonServingStateRejected \<Rightarrow> Some ''Ensure atm-daemon binary is installed, then restore the single local daemon to a healthy serving state and retry.''
      | DaemonStaleOwnerRecoveryFailed \<Rightarrow> Some ''Ensure atm-daemon binary is installed, then restore the single local daemon to a healthy serving state and retry.''
      | DaemonAutoStartFailed \<Rightarrow> Some ''Ensure atm-daemon binary is installed, then restore the single local daemon to a healthy serving state and retry.''
      | PeerConfigValidationFailed \<Rightarrow> Some ''Ensure atm-daemon binary is installed, then restore the single local daemon to a healthy serving state and retry.''
      | CertificateOperationFailed \<Rightarrow> Some ''Ensure atm-daemon binary is installed, then restore the single local daemon to a healthy serving state and retry.''
      | BindPreflightFailed \<Rightarrow> Some ''Ensure atm-daemon binary is installed, then restore the single local daemon to a healthy serving state and retry.''
      | ClientDaemonVersionIncompatible \<Rightarrow> Some ''Ensure atm-daemon binary is installed, then restore the single local daemon to a healthy serving state and retry.''
      | DaemonAdvisorySessionAlreadyRegistered \<Rightarrow> Some ''Ensure atm-daemon binary is installed, then restore the single local daemon to a healthy serving state and retry.''
      | DaemonAdvisorySessionNotRegistered \<Rightarrow> Some ''Ensure atm-daemon binary is installed, then restore the single local daemon to a healthy serving state and retry.''
      | DaemonAdvisorySessionCleanupFailed \<Rightarrow> Some ''Ensure atm-daemon binary is installed, then restore the single local daemon to a healthy serving state and retry.''
      | DaemonConnectionSaturated \<Rightarrow> Some ''Wait for the daemon to finish an in-flight request, then retry.''
      | BlockingBridgeDeadlineBeforeStart \<Rightarrow> Some ''Wait for bounded blocking capacity to become available, then retry within a fresh request deadline.''
      | BlockingBridgeDeadlineAfterStart \<Rightarrow> Some ''Inspect the stalled blocking operation and retry only after its bounded capacity recovers.''
      | PeerWireModeInvalid \<Rightarrow> Some ''Use `mutual-tls` or `plaintext-test` with --peer-wire-security, then restart the daemon.''
      | PeerWireModeSourceForbidden \<Rightarrow> Some ''Remove the environment or durable peer-wire setting and use the documented daemon launch argument.''
      | PeerWirePlaintextAuthenticationRequired \<Rightarrow> Some ''Restart in mutual-TLS mode and verify the enabled peer identity, certificate, and exact trust record.''
      | PeerAuthenticationFailed \<Rightarrow> Some ''Correct the registered peer hostname and certificate pin; do not use plaintext-test as a recovery.''
      | TransportTimeout \<Rightarrow> Some ''Check peer reachability and retry the bounded transport operation when the peer is available.''
      | TransportProtocolFailed \<Rightarrow> Some ''Inspect the peer TLS protocol configuration and correct it before retrying.''
      | _ \<Rightarrow> None)
    | _ \<Rightarrow> None)"

definition mailbox_guidance :: "AtmErrorCode \<Rightarrow> string option" where
  "mailbox_guidance code = (case code of
      MailboxOrValidation c \<Rightarrow> (case c of
        MailboxReadFailed \<Rightarrow> Some ''Repair mailbox access or wait for the competing operation, then retry.''
      | MailboxWriteFailed \<Rightarrow> Some ''Repair mailbox access or wait for the competing operation, then retry.''
      | MailboxLockFailed \<Rightarrow> Some ''Repair mailbox access or wait for the competing operation, then retry.''
      | MailboxLockReadOnlyFilesystem \<Rightarrow> Some ''Repair mailbox access or wait for the competing operation, then retry.''
      | MailboxLockTimeout \<Rightarrow> Some ''Repair mailbox access or wait for the competing operation, then retry.''
      | _ \<Rightarrow> None)
    | _ \<Rightarrow> None)"

definition request_guidance :: "AtmErrorCode \<Rightarrow> string option" where
  "request_guidance code = (case code of
      MailboxOrValidation c \<Rightarrow> (case c of
        MessageValidationFailed \<Rightarrow> Some ''Correct the invalid ATM request or state before retrying.''
      | TaskNotFound \<Rightarrow> Some ''Correct the invalid ATM request or state before retrying.''
      | TaskAlreadyActive \<Rightarrow> Some ''Correct the invalid ATM request or state before retrying.''
      | TaskAlreadyClosed \<Rightarrow> Some ''Correct the invalid ATM request or state before retrying.''
      | TaskNotCounterparty \<Rightarrow> Some ''Correct the invalid ATM request or state before retrying.''
      | TaskStaleCounterparty \<Rightarrow> Some ''Correct the invalid ATM request or state before retrying.''
      | TaskMoveInvalid \<Rightarrow> Some ''Correct the invalid ATM request or state before retrying.''
      | TaskMaxActiveReached \<Rightarrow> Some ''Correct the invalid ATM request or state before retrying.''
      | WorkflowQueryInvalid \<Rightarrow> Some ''Correct the invalid ATM request or state before retrying.''
      | SearchLocalOnly \<Rightarrow> Some ''Correct the invalid ATM request or state before retrying.''
      | LocalHttpCapabilityInvalid \<Rightarrow> Some ''Correct the invalid ATM request or state before retrying.''
      | LocalHttpEndpointSchemaUnsupported \<Rightarrow> Some ''Correct the invalid ATM request or state before retrying.''
      | LocalHttpEndpointMissing \<Rightarrow> Some ''Correct the invalid ATM request or state before retrying.''
      | LocalHttpEndpointNonLoopback \<Rightarrow> Some ''Correct the invalid ATM request or state before retrying.''
      | LocalHttpRuntimeDirectoryMissing \<Rightarrow> Some ''Correct the invalid ATM request or state before retrying.''
      | MessageIdConflict \<Rightarrow> Some ''Correct the invalid ATM request or state before retrying.''
      | SelfAddressedSendInvalid \<Rightarrow> Some ''Correct the invalid ATM request or state before retrying.''
      | EmptyNudgeTemplateBody \<Rightarrow> Some ''Correct the invalid ATM request or state before retrying.''
      | CallerContextRequestInvalid \<Rightarrow> Some ''Correct the invalid ATM request or state before retrying.''
      | TemplateContentNotUtf8 \<Rightarrow> Some ''Correct the invalid ATM request or state before retrying.''
      | AckInvalidState \<Rightarrow> Some ''Correct the invalid ATM request or state before retrying.''
      | ClearInvalidState \<Rightarrow> Some ''Correct the invalid ATM request or state before retrying.''
      | DecomposedTemplateIncludeForbidden \<Rightarrow> Some ''Remove template dependencies or use the confined render operation before retrying.''
      | TemplateRequiredVariableMissing \<Rightarrow> Some ''Correct the template variable names and provide values for required or referenced variables, then retry.''
      | TemplateVariableResolutionFailed \<Rightarrow> Some ''Correct the template variable names and provide values for required or referenced variables, then retry.''
      | TemplateLoadFailed \<Rightarrow> Some ''Correct the template source or its supplied variables before retrying.''
      | TemplateHashApiFailed \<Rightarrow> Some ''Correct the template source or its supplied variables before retrying.''
      | TemplateInspectionParseFailed \<Rightarrow> Some ''Correct the template source or its supplied variables before retrying.''
      | TemplateRenderVerificationFailed \<Rightarrow> Some ''Correct the template source or its supplied variables before retrying.''
      | TemplateIncludeUnresolved \<Rightarrow> Some ''Correct the template source or its supplied variables before retrying.''
      | TemplateClassificationInvalid \<Rightarrow> Some ''Correct the template source or its supplied variables before retrying.''
      | TemplateWorkflowInvalid \<Rightarrow> Some ''Correct the template source or its supplied variables before retrying.''
      | TemplateWorkflowValueInvalid \<Rightarrow> Some ''Correct the template source or its supplied variables before retrying.''
      | TemplateTagReserved \<Rightarrow> Some ''Correct the template source or its supplied variables before retrying.''
      | WorkflowTelemetryConfigInvalid \<Rightarrow> Some ''Repair telemetry configuration; ATM will continue with telemetry disabled.''
      | TelemetryExportConfigInvalid \<Rightarrow> Some ''Repair OpenTelemetry export configuration; ATM will continue with export disabled.''
      | WorkflowTelemetryDropped \<Rightarrow> Some ''Inspect telemetry diagnostics and repair the exporter if durable observability is required.''
      | _ \<Rightarrow> None)
    | _ \<Rightarrow> None)"

definition local_http_guidance :: "AtmErrorCode \<Rightarrow> string option" where
  "local_http_guidance code = (case code of
      MailboxOrValidation c \<Rightarrow> (case c of
        LocalHttpCapabilityRevoked \<Rightarrow> Some ''Re-read local endpoint metadata and authenticate with the newly published capability.''
      | _ \<Rightarrow> None)
    | _ \<Rightarrow> None)"

definition observability_guidance :: "AtmErrorCode \<Rightarrow> string option" where
  "observability_guidance code = (case code of
      ObservabilityOrWarning c \<Rightarrow> (case c of
        ObservabilityBootstrapFailed \<Rightarrow> Some ''Check the retained-log directory and file permissions, then restart the daemon.''
      | ObservabilityEmitFailed \<Rightarrow> Some ''Retry the operation; if it persists, inspect daemon health for a logger or lock failure.''
      | ObservabilityHealthFailed \<Rightarrow> Some ''Retry the operation; if it persists, inspect daemon health for a logger or lock failure.''
      | ObservabilityQueryFailed \<Rightarrow> Some ''Check the retained-log path and permissions before retrying the log operation.''
      | ObservabilityFollowFailed \<Rightarrow> Some ''Check the retained-log path and permissions before retrying the log operation.''
      | ObservabilityHealthOk \<Rightarrow> Some ''No operator action is required.''
      | _ \<Rightarrow> None)
    | _ \<Rightarrow> None)"

definition warning_guidance :: "AtmErrorCode \<Rightarrow> string option" where
  "warning_guidance code = (case code of
      ObservabilityOrWarning c \<Rightarrow> (case c of
        WarningInvalidTeamMemberSkipped \<Rightarrow> Some ''Inspect the warning context and correct the reported condition.''
      | WarningMailboxRecordSkipped \<Rightarrow> Some ''Inspect the warning context and correct the reported condition.''
      | WarningMalformedAtmFieldIgnored \<Rightarrow> Some ''Inspect the warning context and correct the reported condition.''
      | WarningObservabilityHealthDegraded \<Rightarrow> Some ''Inspect the warning context and correct the reported condition.''
      | WarningSqliteHealthDegraded \<Rightarrow> Some ''Inspect the warning context and correct the reported condition.''
      | WarningOriginInboxEntrySkipped \<Rightarrow> Some ''Inspect the warning context and correct the reported condition.''
      | WarningMissingTeamConfigFallback \<Rightarrow> Some ''Inspect the warning context and correct the reported condition.''
      | WarningSendAlertStateDegraded \<Rightarrow> Some ''Inspect the warning context and correct the reported condition.''
      | WarningIdentityDrift \<Rightarrow> Some ''Inspect the warning context and correct the reported condition.''
      | WarningRosterDrift \<Rightarrow> Some ''Inspect the warning context and correct the reported condition.''
      | WarningBaselineMemberMissing \<Rightarrow> Some ''Inspect the warning context and correct the reported condition.''
      | WarningRestoreInProgress \<Rightarrow> Some ''Inspect the warning context and correct the reported condition.''
      | WarningStaleMailboxLock \<Rightarrow> Some ''Inspect the warning context and correct the reported condition.''
      | WarningHookSkipped \<Rightarrow> Some ''Inspect the warning context and correct the reported condition.''
      | WarningHookExecutionFailed \<Rightarrow> Some ''Inspect the warning context and correct the reported condition.''
      | RosterNoLead \<Rightarrow> Some ''assign one lead: atm teams update-member <team> <member> --agent-type lead''
      | RosterMultipleLeads \<Rightarrow> Some ''keep one lead: atm teams update-member <team> <member> --agent-type <other type>''
      | RosterReservedName \<Rightarrow> Some ''rename the member: atm-daemon is reserved for daemon-originated messages''
      | TaskStalled \<Rightarrow> Some ''check the assignee or close the task: atm send <assignee> --task-complete <task_id> --stdin''
      | MemberBlocked \<Rightarrow> Some ''<member> is waiting for interactive input; attach to its Herdr agent and answer the prompt''
      | _ \<Rightarrow> None)
    | _ \<Rightarrow> None)"

definition herdr_guidance :: "AtmErrorCode \<Rightarrow> string option" where
  "herdr_guidance code = (case code of
      ObservabilityOrWarning c \<Rightarrow> (case c of
        RosterMixedLocalBackend \<Rightarrow> Some ''Use `atm teams update-member` to select the intended local backend for each member.''
      | HerdrAgentNotVisible \<Rightarrow> Some ''Start or rename the Herdr agent to the roster member name and verify its configured session.''
      | _ \<Rightarrow> None)
    | PostSendOrMisc c \<Rightarrow> (case c of
        PostSendHerdrPromptFailed \<Rightarrow> Some ''Verify the Herdr target is not blocked, then retry the post-send wake.''
      | HerdrPromptFailed \<Rightarrow> Some ''Inspect the Herdr command diagnostics and verify the Herdr server and session before retrying.''
      | HerdrUnavailable \<Rightarrow> Some ''Start the Herdr server and verify its socket and session configuration before retrying.''
      | _ \<Rightarrow> None)
    | _ \<Rightarrow> None)"

definition post_send_guidance :: "AtmErrorCode \<Rightarrow> string option" where
  "post_send_guidance code = (case code of
      PostSendOrMisc c \<Rightarrow> (case c of
        PostSendPaneMissing \<Rightarrow> Some ''Repair the configured post-send target and retry if delivery is required.''
      | PostSendTmuxSendFailed \<Rightarrow> Some ''Repair the configured post-send target and retry if delivery is required.''
      | PostSendGraftUnavailable \<Rightarrow> Some ''Repair the configured post-send target and retry if delivery is required.''
      | GraftReceiverAlreadyActive \<Rightarrow> Some ''Repair the configured post-send target and retry if delivery is required.''
      | PostSendAdvisoryDeliveryFailed \<Rightarrow> Some ''Repair the configured post-send target and retry if delivery is required.''
      | GraftReceiverNotOwner \<Rightarrow> Some ''Another generation now owns this graft receiver lease; rebind to obtain a fresh generation.''
      | _ \<Rightarrow> None)
    | _ \<Rightarrow> None)"

definition guidance :: "AtmErrorCode \<Rightarrow> string" where
  "guidance code =
     (case configuration_guidance code of Some message \<Rightarrow> message | None \<Rightarrow>
     (case identity_guidance code of Some message \<Rightarrow> message | None \<Rightarrow>
     (case daemon_guidance code of Some message \<Rightarrow> message | None \<Rightarrow>
     (case local_http_guidance code of Some message \<Rightarrow> message | None \<Rightarrow>
     (case mailbox_guidance code of Some message \<Rightarrow> message | None \<Rightarrow>
     (case request_guidance code of Some message \<Rightarrow> message | None \<Rightarrow>
     (case observability_guidance code of Some message \<Rightarrow> message | None \<Rightarrow>
     (case warning_guidance code of Some message \<Rightarrow> message | None \<Rightarrow>
     (case herdr_guidance code of Some message \<Rightarrow> message | None \<Rightarrow>
     (case post_send_guidance code of Some message \<Rightarrow> message | None \<Rightarrow>
     (case hook_guidance code of Some message \<Rightarrow> message | None \<Rightarrow>
     (case tool_sender_guidance code of Some message \<Rightarrow> message | None \<Rightarrow>
     (case code of
      MailboxOrValidation c \<Rightarrow> (case c of
        InternalError \<Rightarrow> ''Inspect the logged diagnostic context before retrying.''
      | SerializationFailed \<Rightarrow> ''Repair the invalid serialized ATM data before retrying.''
      | FilePolicyRejected \<Rightarrow> ''Correct the referenced path or file-policy input before retrying.''
      | FileReferenceRewriteFailed \<Rightarrow> ''Correct the referenced path or file-policy input before retrying.''
      | WaitTimeout \<Rightarrow> ''Retry after the bounded operation becomes available.''
      | _ \<Rightarrow> ''Inspect the logged diagnostic context before retrying.'')
    | PostSendOrMisc c \<Rightarrow> (case c of
        TestFakeTransportInjectionFailed \<Rightarrow> ''Repair the test transport fixture before retrying.''
      | HelpTopicNotFound \<Rightarrow> ''Use `atm help --list` to inspect available topics.''
      | _ \<Rightarrow> ''Inspect the logged diagnostic context before retrying.'')
    | _ \<Rightarrow> ''Inspect the logged diagnostic context before retrying.'')))))))))))))"

section \<open>The error value\<close>

record AtmError =
  err_code :: AtmErrorCode
  err_message :: string
  err_cause :: "string option"

definition recovery_marker :: string where
  "recovery_marker = CHR 0x0A # ''  Recovery: ''"

definition render :: "AtmErrorCode \<Rightarrow> string \<Rightarrow> string" where
  "render c detail =
     (if guidance c = [] then detail else detail @ recovery_marker @ guidance c)"

definition AtmError_new :: "AtmErrorCode \<Rightarrow> string \<Rightarrow> AtmError" where
  "AtmError_new c detail = \<lparr>err_code = c, err_message = render c detail, err_cause = None\<rparr>"

definition with_recovery :: "AtmErrorCode \<Rightarrow> string \<Rightarrow> string \<Rightarrow> AtmError" where
  "with_recovery c detail recovery =
     \<lparr>err_code = c, err_message = detail @ recovery_marker @ recovery, err_cause = None\<rparr>"

definition with_cause :: "AtmError \<Rightarrow> string \<Rightarrow> AtmError" where
  "with_cause e c = e\<lparr>err_cause := Some c\<rparr>"

definition with_context :: "AtmError \<Rightarrow> string \<Rightarrow> AtmError" where
  "with_context e ctx = e\<lparr>err_message := ctx @ '': '' @ err_message e\<rparr>"

definition AtmError_detail :: "AtmError \<Rightarrow> string" where
  "AtmError_detail e =
     (case split_once_str recovery_marker (err_message e) of
        None \<Rightarrow> err_message e
      | Some (detail, _) \<Rightarrow> detail)"

definition AtmError_remediation :: "AtmError \<Rightarrow> string" where
  "AtmError_remediation e =
     (case split_once_str recovery_marker (err_message e) of
        None \<Rightarrow> guidance (err_code e)
      | Some (_, g) \<Rightarrow> g)"

definition is_validation :: "AtmError \<Rightarrow> bool" where
  "is_validation e = (case err_code e of
      MailboxOrValidation c \<Rightarrow> c \<in> {MessageValidationFailed, TaskNotFound, TaskAlreadyActive,
        TaskAlreadyClosed, TaskNotCounterparty, TaskStaleCounterparty, TaskMoveInvalid,
        TaskMaxActiveReached}
    | DaemonOrAddress c \<Rightarrow> c \<in> {PeerWireModeInvalid, PeerWireModeSourceForbidden,
        PeerWirePlaintextAuthenticationRequired}
    | PostSendOrMisc c \<Rightarrow> c \<in> {HookModuleInvalid, CronExprInvalid, HookRefused}
    | _ \<Rightarrow> False)"

definition is_daemon_unavailable :: "AtmError \<Rightarrow> bool" where
  "is_daemon_unavailable e = (err_code e = DaemonOrAddress DaemonUnavailable)"

definition is_config :: "AtmError \<Rightarrow> bool" where
  "is_config e = (case err_code e of
      ConfigOrIdentity c \<Rightarrow> c \<in> {ConfigHomeUnavailable, ConfigParseFailed,
        ConfigRetiredHookMembersKey, ConfigRetiredLegacyHookKeys, ConfigTeamParseFailed,
        ConfigTeamMissing}
    | _ \<Rightarrow> False)"

text \<open>The constructors the modelled components raise.\<close>

definition err_address_parse :: "string \<Rightarrow> AtmError" where
  "err_address_parse m = AtmError_new (DaemonOrAddress AddressParseFailed) (''address parse failed: '' @ m)"

definition err_daemon_unavailable :: "string \<Rightarrow> AtmError" where
  "err_daemon_unavailable m = AtmError_new (DaemonOrAddress DaemonUnavailable) m"

definition err_validation :: "string \<Rightarrow> AtmError" where
  "err_validation m = AtmError_new (MailboxOrValidation MessageValidationFailed) m"

section \<open>Printing and parsing codes\<close>

lemmas code_str_defs = AtmErrorCode_as_str_def config_or_identity_str_def
  daemon_or_address_str_def mailbox_or_validation_str_def observability_or_warning_str_def
  post_send_or_misc_str_def

lemmas parse_code_defs = parse_config_or_identity_code_def parse_daemon_or_address_code_def
  parse_mailbox_or_validation_code_def parse_observability_or_warning_code_def
  parse_post_send_or_misc_code_def

text \<open>The five parsers in sequence read one table: an earlier table wins.\<close>

definition error_code_table :: "(string \<times> AtmErrorCode) list" where
  "error_code_table = config_or_identity_codes @ daemon_or_address_codes @
     mailbox_or_validation_codes @ observability_or_warning_codes @ post_send_or_misc_codes"

lemma case_map_of_append:
  "(case map_of xs k of Some c \<Rightarrow> Some c | None \<Rightarrow> map_of ys k) = map_of (xs @ ys) k"
  by (simp add: map_add_def split: option.splits)

lemma parse_known_table: "parse_known_error_code = map_of error_code_table"
  by (rule ext) (simp only: parse_known_error_code_def parse_code_defs case_map_of_append
    error_code_table_def append_assoc)

lemma table_prints: "list_all (\<lambda>(k, c). AtmErrorCode_as_str c = Some k) error_code_table"
  by code_simp

lemma table_distinct: "distinct (map fst error_code_table)"
  by (rule radix_distinct_sound) code_simp

lemma AtmErrorCode_as_str_total: "\<exists>s. AtmErrorCode_as_str c = Some s"
  by (cases c) (simp_all add: code_str_defs)

text \<open>The codes each table ends in, so that completeness does not look at the strings.\<close>

lemma config_or_identity_snd: "map snd config_or_identity_codes = map ConfigOrIdentity [ConfigHomeUnavailable,
    AtmHomeUnresolved,
    ConfigParseFailed,
    ConfigRetiredHookMembersKey,
    ConfigRetiredLegacyHookKeys,
    ConfigTeamParseFailed,
    ConfigTeamMissing,
    IdentityUnavailable,
    IdentityInvalid,
    IdentityConflict,
    MemberAlreadyExists,
    MemberNotFound]"
  by (simp add: config_or_identity_codes_def)

lemma daemon_or_address_snd: "map snd daemon_or_address_codes = map DaemonOrAddress [DaemonUnavailable,
    RuntimeRootInvalid,
    RuntimeBootstrapRefused,
    SocketOverrideForbidden,
    DaemonMayHaveExecuted,
    DaemonLifecycleWedge,
    DaemonLaunchGateRejected,
    DaemonServingStateRejected,
    DaemonStaleOwnerRecoveryFailed,
    DaemonAutoStartFailed,
    DaemonConnectionSaturated,
    BlockingBridgeDeadlineBeforeStart,
    BlockingBridgeDeadlineAfterStart,
    RemoteDeliveryUnconfirmed,
    PeerWireModeInvalid,
    PeerWireModeSourceForbidden,
    PeerWirePlaintextAuthenticationRequired,
    PeerConfigValidationFailed,
    CertificateOperationFailed,
    PeerAuthenticationFailed,
    TransportTimeout,
    TransportProtocolFailed,
    BindPreflightFailed,
    ClientDaemonVersionIncompatible,
    DaemonAdvisorySessionAlreadyRegistered,
    DaemonAdvisorySessionNotRegistered,
    DaemonAdvisorySessionCleanupFailed,
    AddressParseFailed,
    TeamUnavailable,
    TeamInvalid,
    TeamNotFound,
    AgentNotFound]"
  by (simp add: daemon_or_address_codes_def)

lemma mailbox_or_validation_snd: "map snd mailbox_or_validation_codes = map MailboxOrValidation [MailboxReadFailed,
    MailboxWriteFailed,
    MailboxLockFailed,
    MailboxLockReadOnlyFilesystem,
    MailboxLockTimeout,
    InternalError,
    MessageValidationFailed,
    TaskNotFound,
    TaskAlreadyActive,
    TaskAlreadyClosed,
    TaskNotCounterparty,
    TaskStaleCounterparty,
    TaskMoveInvalid,
    TaskMaxActiveReached,
    SearchLocalOnly,
    LocalHttpCapabilityInvalid,
    LocalHttpEndpointSchemaUnsupported,
    LocalHttpEndpointMissing,
    LocalHttpEndpointNonLoopback,
    LocalHttpRuntimeDirectoryMissing,
    LocalHttpCapabilityRevoked,
    MessageIdConflict,
    SelfAddressedSendInvalid,
    EmptyNudgeTemplateBody,
    CallerContextRequestInvalid,
    TemplateContentNotUtf8,
    DecomposedTemplateIncludeForbidden,
    TemplateLoadFailed,
    TemplateHashApiFailed,
    TemplateInspectionParseFailed,
    TemplateRequiredVariableMissing,
    TemplateVariableResolutionFailed,
    TemplateRenderVerificationFailed,
    TemplateIncludeUnresolved,
    TemplateClassificationInvalid,
    TemplateWorkflowInvalid,
    TemplateWorkflowValueInvalid,
    TemplateTagReserved,
    WorkflowQueryInvalid,
    WorkflowTelemetryConfigInvalid,
    TelemetryExportConfigInvalid,
    WorkflowTelemetryDropped,
    SerializationFailed,
    FilePolicyRejected,
    FileReferenceRewriteFailed,
    WaitTimeout,
    AckInvalidState,
    ClearInvalidState]"
  by (simp add: mailbox_or_validation_codes_def)

lemma observability_or_warning_snd: "map snd observability_or_warning_codes = map ObservabilityOrWarning [ObservabilityEmitFailed,
    ObservabilityQueryFailed,
    ObservabilityFollowFailed,
    ObservabilityHealthFailed,
    ObservabilityBootstrapFailed,
    ObservabilityHealthOk,
    RetainedDiagnosticsHealthOk,
    WarningInvalidTeamMemberSkipped,
    WarningMailboxRecordSkipped,
    WarningMalformedAtmFieldIgnored,
    WarningObservabilityHealthDegraded,
    WarningRetainedDiagnosticsDegraded,
    WarningSqliteHealthDegraded,
    WarningOriginInboxEntrySkipped,
    WarningMissingTeamConfigFallback,
    WarningSendAlertStateDegraded,
    WarningIdentityDrift,
    WarningRosterDrift,
    WarningHerdrUnnamedAgentTarget,
    WarningBaselineMemberMissing,
    WarningRestoreInProgress,
    WarningStaleMailboxLock,
    WarningHookSkipped,
    WarningHookExecutionFailed,
    RosterNoLead,
    RosterMultipleLeads,
    RosterReservedName,
    TaskStalled,
    MemberBlocked,
    RosterMixedLocalBackend,
    HerdrAgentNotVisible]"
  by (simp add: observability_or_warning_codes_def)

lemma post_send_or_misc_snd: "map snd post_send_or_misc_codes = map PostSendOrMisc [PostSendPaneMissing,
    PostSendTmuxSendFailed,
    PostSendHerdrPromptFailed,
    HerdrPromptFailed,
    HerdrUnavailable,
    PostSendGraftUnavailable,
    GraftReceiverAlreadyActive,
    GraftReceiverNotOwner,
    GraftReceiverNotRegistered,
    PostSendAdvisoryDeliveryFailed,
    TestFakeTransportInjectionFailed,
    HelpTopicNotFound,
    HookModuleInvalid,
    CronExprInvalid,
    HookRefused,
    HookExit,
    HookTimeout,
    HookMalformed,
    StoreQueryFailed,
    ToolSenderUnregistered,
    ToolSenderReserved,
    ToolSenderUnauthorized,
    ToolKeyUnknown,
    ToolKeyRevoked,
    ToolNonceReplay,
    ToolHostMismatch,
    ToolGenerationConflict,
    ToolSignatureInvalid,
    ToolRequestExpired,
    ToolCommitUncertain]"
  by (simp add: post_send_or_misc_codes_def)

lemmas codes_snd = config_or_identity_snd daemon_or_address_snd mailbox_or_validation_snd observability_or_warning_snd post_send_or_misc_snd

lemma table_complete: "c \<in> snd ` set error_code_table"
proof -
  have "c \<in> set (map snd error_code_table)"
    unfolding error_code_table_def map_append codes_snd
    by (cases c; rename_tac x; case_tac x) simp_all
  then show ?thesis by simp
qed

lemma parse_known_error_code_iff:
  "parse_known_error_code s = Some c \<longleftrightarrow> AtmErrorCode_as_str c = Some s"
proof
  assume "parse_known_error_code s = Some c"
  then have "(s, c) \<in> set error_code_table" by (simp add: parse_known_table map_of_SomeD)
  with table_prints show "AtmErrorCode_as_str c = Some s" by (auto simp: list_all_iff)
next
  assume printed: "AtmErrorCode_as_str c = Some s"
  obtain k where "(k, c) \<in> set error_code_table" using table_complete[of c] by auto
  moreover from this have "k = s" using table_prints printed by (auto simp: list_all_iff)
  ultimately show "parse_known_error_code s = Some c"
    by (simp add: parse_known_table table_distinct)
qed

section \<open>Detail and remediation\<close>

lemma split_once_marker:
  "split_once_str recovery_marker d = None \<Longrightarrow>
   split_once_str recovery_marker (d @ recovery_marker @ g) = Some (d, g)"
  by (rule split_once_str_append[where p = "CHR 0x0A" and ps = "''  Recovery: ''"])
     (simp_all add: recovery_marker_def)

lemma AtmError_new_sel [simp]:
  "err_code (AtmError_new c d) = c" "err_cause (AtmError_new c d) = None"
  by (simp_all add: AtmError_new_def)

end
