(* ===== verification/Names.thy ===== *)
theory Names
  imports Error_Codes
begin

text \<open>
  Validated names and addresses: \<^verbatim>\<open>atm-storage/src/validation.rs\<close>, the newtypes of
  \<^verbatim>\<open>atm-storage/src/types.rs\<close> and the agent address of
  \<^verbatim>\<open>atm-storage/src/address.rs\<close>.

  A newtype over \<^verbatim>\<open>String\<close> is its string; the parser of the newtype is the only way
  in, so \<open>valid_*\<close> describes the values of the type.  The locale
  \<open>validated_text\<close> is the contract all of these parsers share, interpreted for each
  of them; the address printer and parser are inverse to each other.
\<close>

unbundle bit_operations_syntax

section \<open>Path segments\<close>

type_synonym AgentName = string
type_synonym TeamName = string
type_synonym ChatId = string
type_synonym HostName = string
type_synonym TaskId = string

definition is_ascii_digit :: "char \<Rightarrow> bool" where
  "is_ascii_digit ch \<longleftrightarrow> (of_char ch :: nat) \<in> {48..57}"

definition is_ascii_alphanumeric :: "char \<Rightarrow> bool" where
  "is_ascii_alphanumeric ch \<longleftrightarrow>
     is_ascii_digit ch \<or> (of_char ch :: nat) \<in> {65..90} \<or> (of_char ch :: nat) \<in> {97..122}"

definition segment_char :: "char \<Rightarrow> bool" where
  "segment_char ch \<longleftrightarrow> is_ascii_alphanumeric ch \<or> ch = CHR ''-'' \<or> ch = CHR ''_''"

definition validate_path_segment :: "string \<Rightarrow> string \<Rightarrow> AtmError + unit" where
  "validate_path_segment value kind =
     (if value = [] then Inl (err_address_parse (kind @ '' name must not be empty''))
      else if \<not> list_all segment_char value then
        Inl (err_address_parse
          (kind @ '' name must use only ASCII letters, digits, '' @ [CHR 0x27] @ ''-'' @ [CHR 0x27]
            @ '' or '' @ [CHR 0x27] @ ''_'' @ [CHR 0x27]))
      else Inr ())"

definition validate_agent_at_team :: "string \<Rightarrow> string \<Rightarrow> AtmError + unit" where
  "validate_agent_at_team value kind =
     (case split_once_char CHR ''@'' value of
        Some (agent, team) \<Rightarrow>
          bindE (validate_path_segment agent kind) (\<lambda>_. validate_path_segment team kind)
      | None \<Rightarrow> validate_path_segment value kind)"

section \<open>Newtypes\<close>

definition AgentName_from_str :: "string \<Rightarrow> AtmError + AgentName" where
  "AgentName_from_str value =
     (let trimmed_value = trim value in
      bindE (validate_path_segment trimmed_value ''agent'') (\<lambda>_. Inr trimmed_value))"

definition ChatId_from_str :: "string \<Rightarrow> AtmError + ChatId" where
  "ChatId_from_str value =
     (let trimmed_value = trim value in
      bindE (validate_path_segment trimmed_value ''chat id'') (\<lambda>_. Inr trimmed_value))"

definition TeamName_from_str :: "string \<Rightarrow> AtmError + TeamName" where
  "TeamName_from_str value =
     (let trimmed_value = trim value in
      bindE (validate_path_segment trimmed_value ''team'') (\<lambda>_. Inr trimmed_value))"

text \<open>\<^verbatim>\<open>split('.')\<close>: the pieces between the separators, one piece for a text
  without a separator.\<close>

fun split_char :: "char \<Rightarrow> string \<Rightarrow> string list" where
  "split_char c [] = [[]]"
| "split_char c (x # xs) =
     (if x = c then [] # split_char c xs
      else (case split_char c xs of [] \<Rightarrow> [[x]] | p # ps \<Rightarrow> (x # p) # ps))"

fun validate_labels :: "string list \<Rightarrow> AtmError + unit" where
  "validate_labels [] = Inr ()"
| "validate_labels (label # labels) =
     bindE (validate_path_segment label ''host label'') (\<lambda>_. validate_labels labels)"

definition HostName_from_str :: "string \<Rightarrow> AtmError + HostName" where
  "HostName_from_str value =
     (let trimmed_value = trim value in
      if trimmed_value = [] then Inl (err_address_parse ''host must not be empty'')
      else bindE (validate_labels (split_char CHR ''.'' trimmed_value)) (\<lambda>_. Inr trimmed_value))"

definition is_durable_hostname :: "HostName \<Rightarrow> bool" where
  "is_durable_hostname host =
     (let labels = split_char CHR ''.'' host;
          ipv4_shaped = length labels = 4 \<and>
            list_all (\<lambda>label. label \<noteq> [] \<and> list_all is_ascii_digit label) labels
      in \<not> ipv4_shaped)"

definition AgentId_new :: "string \<Rightarrow> AtmError + string" where
  "AgentId_new value =
     (let trimmed_value = trim value in
      bindE (validate_agent_at_team trimmed_value ''agent id'') (\<lambda>_. Inr trimmed_value))"

definition TaskId_from_str :: "string \<Rightarrow> AtmError + TaskId" where
  "TaskId_from_str value =
     (let trimmed_value = trim value in
      if trimmed_value = [] then Inl (err_validation ''task id must not be blank'')
      else Inr trimmed_value)"

definition SESSION_ID_MAX_BYTES :: nat where
  "SESSION_ID_MAX_BYTES = 256"

datatype SessionIdError = SessionBlank | SessionTooLong (max_bytes: nat) (actual_bytes: nat)

definition SessionId_new :: "string \<Rightarrow> SessionIdError + string" where
  "SessionId_new value =
     (if trim value = [] then Inl SessionBlank
      else if length value > SESSION_ID_MAX_BYTES then
        Inl (SessionTooLong SESSION_ID_MAX_BYTES (length value))
      else Inr value)"

definition SessionId_parse_optional :: "string \<Rightarrow> SessionIdError + string option" where
  "SessionId_parse_optional value =
     (if trim value \<noteq> [] then mapE Some (SessionId_new value) else Inr None)"

definition TemplateSha_new :: "string \<Rightarrow> AtmError + string" where
  "TemplateSha_new value =
     (if \<not> (length value = 64 \<and>
         list_all (\<lambda>b. is_ascii_digit b \<or> (of_char b :: nat) \<in> {97..102}) value)
      then Inl (err_validation ''template SHA must be exactly 64 lowercase hexadecimal characters'')
      else Inr value)"

definition MAX_MODEL_NAME_BYTES :: nat where
  "MAX_MODEL_NAME_BYTES = 256"

definition ModelName_new :: "string \<Rightarrow> AtmError + string" where
  "ModelName_new value =
     (if length value > MAX_MODEL_NAME_BYTES then
        Inl (err_validation ''model must be at most 256 bytes'')
      else Inr value)"

section \<open>Local capability\<close>

text \<open>The base64url decoder is the \<^verbatim>\<open>base64\<close> crate's: a parameter that gives the
  decoded bytes, or nothing.\<close>

definition LOCAL_CAPABILITY_BYTES :: nat where
  "LOCAL_CAPABILITY_BYTES = 32"

definition err_local_http_capability_invalid :: "string \<Rightarrow> AtmError" where
  "err_local_http_capability_invalid m =
     AtmError_new (MailboxOrValidation LocalHttpCapabilityInvalid) m"

definition decode_base64url ::
  "(string \<Rightarrow> string + 8 word list) \<Rightarrow> string \<Rightarrow> AtmError + 8 word list" where
  "decode_base64url decode value =
     bindE (map_err (with_cause (err_local_http_capability_invalid
                ''local HTTP capability is not base64url'')) (decode value))
       (\<lambda>bytes. if length bytes = LOCAL_CAPABILITY_BYTES then Inr bytes
          else Inl (err_local_http_capability_invalid
            ''local HTTP capability must decode to exactly 32 bytes''))"

definition matches_header ::
  "(string \<Rightarrow> string + 8 word list) \<Rightarrow> 8 word list \<Rightarrow> string \<Rightarrow> bool" where
  "matches_header decode self value =
     (case decode_base64url decode value of
        Inr candidate \<Rightarrow>
          foldl (\<lambda>difference (left, right). difference OR (left XOR right)) (0 :: 8 word)
            (zip self candidate) = 0
      | Inl _ \<Rightarrow> False)"

section \<open>Agent identities and addresses\<close>

record AgentIdentity =
  id_agent :: AgentName
  id_chat_id :: "ChatId option"

definition AgentIdentity_from_str :: "string \<Rightarrow> AtmError + AgentIdentity" where
  "AgentIdentity_from_str value =
     (let trimmed_value = trim value in
      if trimmed_value = [] then Inl (err_address_parse ''agent identity must not be empty'')
      else (case split_once_char CHR '':'' trimmed_value of
          Some (agent, chat_id) \<Rightarrow>
            if CHR '':'' \<in> set chat_id then
              Inl (err_address_parse (''agent identity may contain only one '' @ [CHR 0x27] @ '':'' @ [CHR 0x27]))
            else bindE (AgentName_from_str agent) (\<lambda>a.
                 bindE (ChatId_from_str chat_id) (\<lambda>c.
                 Inr \<lparr>id_agent = a, id_chat_id = Some c\<rparr>))
        | None \<Rightarrow>
            bindE (AgentName_from_str trimmed_value) (\<lambda>a. Inr \<lparr>id_agent = a, id_chat_id = None\<rparr>)))"

definition AgentIdentity_display :: "AgentIdentity \<Rightarrow> string" where
  "AgentIdentity_display i =
     id_agent i @ (case id_chat_id i of Some chat_id \<Rightarrow> '':'' @ chat_id | None \<Rightarrow> [])"

record AgentAddress =
  addr_agent :: AgentName
  addr_chat_id :: "ChatId option"
  addr_team :: "TeamName option"
  addr_host :: "HostName option"

definition AgentAddress_new ::
  "AgentName \<Rightarrow> ChatId option \<Rightarrow> TeamName option \<Rightarrow> HostName option \<Rightarrow> AtmError + AgentAddress" where
  "AgentAddress_new agent chat_id team host =
     (if host \<noteq> None \<and> team = None then
        Inl (err_address_parse ''a host-qualified address must also specify a team'')
      else Inr \<lparr>addr_agent = agent, addr_chat_id = chat_id, addr_team = team, addr_host = host\<rparr>)"

definition without_host :: "AgentAddress \<Rightarrow> AgentAddress" where
  "without_host a = a\<lparr>addr_host := None\<rparr>"

definition AgentAddress_from_str :: "string \<Rightarrow> AtmError + AgentAddress" where
  "AgentAddress_from_str value =
     (let trimmed_value = trim value in
      if trimmed_value = [] then Inl (err_address_parse ''agent name must not be empty'')
      else (case split_once_char CHR ''@'' trimmed_value of
          Some (identity, destination) \<Rightarrow>
            if CHR ''@'' \<in> set destination then
              Inl (err_address_parse (''address may contain only one '' @ [CHR 0x27] @ ''@'' @ [CHR 0x27]))
            else bindE (AgentIdentity_from_str identity) (\<lambda>i.
              bindE (case split_once_char CHR ''.'' destination of
                  Some (team, host) \<Rightarrow>
                    bindE (TeamName_from_str team) (\<lambda>t.
                    bindE (HostName_from_str host) (\<lambda>h. Inr (t, Some h)))
                | None \<Rightarrow> bindE (TeamName_from_str destination) (\<lambda>t. Inr (t, None)))
              (\<lambda>(t, h). AgentAddress_new (id_agent i) (id_chat_id i) (Some t) h))
        | None \<Rightarrow>
            bindE (AgentIdentity_from_str trimmed_value) (\<lambda>i.
              AgentAddress_new (id_agent i) (id_chat_id i) None None)))"

definition AgentAddress_display :: "AgentAddress \<Rightarrow> string" where
  "AgentAddress_display a =
     (let identity = AgentIdentity_display
            \<lparr>id_agent = addr_agent a, id_chat_id = addr_chat_id a\<rparr>
      in case (addr_team a, addr_host a) of
        (Some team, Some host) \<Rightarrow> identity @ ''@'' @ team @ ''.'' @ host
      | (Some team, None) \<Rightarrow> identity @ ''@'' @ team
      | (None, None) \<Rightarrow> identity
      | (None, Some host) \<Rightarrow> ''<invalid-agent-address: '' @ identity @ '' has host '' @ host
          @ '' without team>'')"

section \<open>The values of the newtypes\<close>

definition valid_segment :: "string \<Rightarrow> bool" where
  "valid_segment s \<longleftrightarrow> s \<noteq> [] \<and> list_all segment_char s"

definition valid_host :: "string \<Rightarrow> bool" where
  "valid_host s \<longleftrightarrow> s \<noteq> [] \<and> list_all valid_segment (split_char CHR ''.'' s)"

definition valid_task_id :: "string \<Rightarrow> bool" where
  "valid_task_id s \<longleftrightarrow> s \<noteq> [] \<and> trimmed s"

definition valid_agent_id :: "string \<Rightarrow> bool" where
  "valid_agent_id s \<longleftrightarrow>
     valid_segment s \<or> (\<exists>a t. s = a @ CHR ''@'' # t \<and> valid_segment a \<and> valid_segment t)"

definition valid_identity :: "AgentIdentity \<Rightarrow> bool" where
  "valid_identity i \<longleftrightarrow> valid_segment (id_agent i) \<and> pred_option valid_segment (id_chat_id i)"

definition valid_address :: "AgentAddress \<Rightarrow> bool" where
  "valid_address a \<longleftrightarrow> valid_segment (addr_agent a) \<and> pred_option valid_segment (addr_chat_id a)
     \<and> pred_option valid_segment (addr_team a) \<and> pred_option valid_host (addr_host a)
     \<and> (addr_host a \<noteq> None \<longrightarrow> addr_team a \<noteq> None)"

text \<open>The ASCII characters that stand in names and addresses are not white space.\<close>

definition graphic :: "char \<Rightarrow> bool" where
  "graphic ch \<longleftrightarrow> (of_char ch :: nat) \<in> {33..126}"

lemma white_space_heads:
  "\<forall>p\<in>set white_space \<union> set (map rev white_space). p \<noteq> [] \<and> \<not> graphic (hd p)"
  unfolding white_space_def graphic_def by simp

lemma leading_None_if_heads:
  assumes "list_all P s" "\<forall>p\<in>set ps. p \<noteq> [] \<and> \<not> P (hd p)"
  shows "leading ps s = None"
proof -
  have "\<not> prefix p s" if "p \<in> set ps" for p
  proof
    assume "prefix p s"
    moreover from that assms(2) have "p \<noteq> []" "\<not> P (hd p)" by auto
    ultimately show False using assms(1) by (auto simp: prefix_def list_all_iff neq_Nil_conv)
  qed
  then show ?thesis by (auto simp: leading_None_iff)
qed

lemma trimmed_graphic: "list_all graphic s \<Longrightarrow> trimmed s"
proof -
  assume s: "list_all graphic s"
  have "leading white_space s = None"
    by (rule leading_None_if_heads[OF s]) (use white_space_heads in blast)
  moreover have "leading (map rev white_space) (rev s) = None"
    by (rule leading_None_if_heads[where P = graphic])
       (use s white_space_heads in \<open>auto simp: list_all_iff\<close>)
  ultimately show ?thesis by (simp add: trimmed_def)
qed

lemma segment_char_graphic: "segment_char ch \<Longrightarrow> graphic ch"
  by (auto simp: segment_char_def is_ascii_alphanumeric_def is_ascii_digit_def graphic_def)

lemma graphic_sep [simp]: "graphic CHR ''@''" "graphic CHR '':''" "graphic CHR ''.''"
  by (simp_all add: graphic_def)

lemma segment_char_not_sep [simp]:
  "\<not> segment_char CHR ''@''" "\<not> segment_char CHR '':''" "\<not> segment_char CHR ''.''"
  by (simp_all add: segment_char_def is_ascii_alphanumeric_def is_ascii_digit_def)

lemma valid_segment_no_sep:
  assumes "valid_segment s"
  shows "CHR ''@'' \<notin> set s" "CHR '':'' \<notin> set s" "CHR ''.'' \<notin> set s"
  using assms segment_char_not_sep by (auto simp: valid_segment_def list_all_iff)

lemma valid_segment_nonempty [simp]: "\<not> valid_segment []"
  by (simp add: valid_segment_def)

lemma valid_segment_trimmed: "valid_segment s \<Longrightarrow> trimmed s"
  by (rule trimmed_graphic) (auto simp: valid_segment_def list_all_iff segment_char_graphic)

lemma set_split_char: "set s \<subseteq> insert c (\<Union> (set ` set (split_char c s)))"
proof (induction s)
  case (Cons x s)
  then show ?case by (cases "split_char c s") auto
qed simp

lemma valid_host_chars: "valid_host s \<Longrightarrow> ch \<in> set s \<Longrightarrow> segment_char ch \<or> ch = CHR ''.''"
  using set_split_char[of s "CHR ''.''"]
  by (fastforce simp: valid_host_def list_all_iff valid_segment_def)

lemma valid_segment_graphic: "valid_segment s \<Longrightarrow> list_all graphic s"
  by (auto simp: valid_segment_def list_all_iff segment_char_graphic)

lemma valid_host_graphic:
  assumes "valid_host s"
  shows "list_all graphic s"
  unfolding list_all_iff
proof
  fix ch assume "ch \<in> set s"
  from valid_host_chars[OF assms this] show "graphic ch"
    using segment_char_graphic by auto
qed

lemma valid_host_trimmed: "valid_host s \<Longrightarrow> trimmed s"
  by (simp add: trimmed_graphic valid_host_graphic)

lemma valid_host_no_at: "valid_host s \<Longrightarrow> CHR ''@'' \<notin> set s"
  using valid_host_chars segment_char_not_sep by fastforce

section \<open>The contract of a validated text type\<close>

locale validated_text =
  fixes parse :: "string \<Rightarrow> 'e + string" and valid :: "string \<Rightarrow> bool"
  assumes parse_sound: "parse s = Inr v \<Longrightarrow> valid v"
    and parse_trims: "parse s = Inr v \<Longrightarrow> v = trim s"
    and parse_complete: "valid v \<Longrightarrow> parse v = Inr v"
begin

lemma parse_idem: "parse s = Inr v \<Longrightarrow> parse v = Inr v"
  using parse_sound parse_complete by blast

lemma valid_trimmed: "valid v \<Longrightarrow> trimmed v"
  using parse_complete parse_trims by (metis trimmed_trim)

lemma parse_accepts: "(\<exists>v. parse v = Inr v \<and> v = s) \<longleftrightarrow> valid s"
  using parse_sound parse_complete by blast

end

lemma validate_path_segment_iff [simp]:
  "validate_path_segment s kind = Inr u \<longleftrightarrow> valid_segment s"
  by (simp add: validate_path_segment_def valid_segment_def)

lemma validate_labels_iff [simp]: "validate_labels ls = Inr u \<longleftrightarrow> list_all valid_segment ls"
  by (induction ls) (simp_all add: bindE_eq_Inr_iff)

lemma validate_agent_at_team_iff: "validate_agent_at_team s kind = Inr u \<longleftrightarrow> valid_agent_id s"
proof (cases "split_once_char CHR ''@'' s")
  case None
  then show ?thesis
    by (auto simp: validate_agent_at_team_def valid_agent_id_def split_once_char_None_iff)
next
  case (Some p)
  obtain a t where p: "p = (a, t)" by force
  with Some have s: "s = a @ CHR ''@'' # t" "CHR ''@'' \<notin> set a"
    using split_once_char_SomeD by force+
  have "\<not> valid_segment s" using s(1) valid_segment_no_sep(1)[of s] by auto
  moreover have "a' = a \<and> t' = t"
    if "s = a' @ CHR ''@'' # t'" "valid_segment a'" for a' t'
  proof -
    have "split_once_char CHR ''@'' s = Some (a', t')"
      unfolding that(1) using valid_segment_no_sep(1)[OF that(2)] by (rule split_once_char_append)
    with Some p show ?thesis by simp
  qed
  ultimately have "valid_agent_id s \<longleftrightarrow> valid_segment a \<and> valid_segment t"
    unfolding valid_agent_id_def using s(1) by blast
  then show ?thesis
    using Some p by (simp add: validate_agent_at_team_def bindE_eq_Inr_iff)
qed

lemma valid_agent_id_trimmed: "valid_agent_id s \<Longrightarrow> trimmed s"
  by (rule trimmed_graphic)
     (auto simp: valid_agent_id_def valid_segment_def list_all_iff segment_char_graphic)

interpretation agent_name: validated_text AgentName_from_str valid_segment
  by unfold_locales
     (auto simp: AgentName_from_str_def Let_def bindE_eq_Inr_iff trim_id valid_segment_trimmed)

interpretation chat_id: validated_text ChatId_from_str valid_segment
  by unfold_locales
     (auto simp: ChatId_from_str_def Let_def bindE_eq_Inr_iff trim_id valid_segment_trimmed)

interpretation team_name: validated_text TeamName_from_str valid_segment
  by unfold_locales
     (auto simp: TeamName_from_str_def Let_def bindE_eq_Inr_iff trim_id valid_segment_trimmed)

interpretation host_name: validated_text HostName_from_str valid_host
  by unfold_locales
     (auto simp: HostName_from_str_def Let_def bindE_eq_Inr_iff trim_id valid_host_trimmed
       valid_host_def split: if_splits)

interpretation task_id: validated_text TaskId_from_str valid_task_id
  by unfold_locales
     (auto simp: TaskId_from_str_def Let_def trim_id valid_task_id_def split: if_splits)

interpretation agent_id: validated_text AgentId_new valid_agent_id
  by unfold_locales
     (auto simp: AgentId_new_def Let_def bindE_eq_Inr_iff trim_id valid_agent_id_trimmed
       validate_agent_at_team_iff)

section \<open>Printing and parsing addresses\<close>

lemma AgentIdentity_display_chars:
  "valid_identity i \<Longrightarrow> CHR ''@'' \<notin> set (AgentIdentity_display i)"
  by (cases "id_chat_id i")
     (auto simp: valid_identity_def AgentIdentity_display_def dest: valid_segment_no_sep)

lemma AgentIdentity_display_graphic:
  "valid_identity i \<Longrightarrow> list_all graphic (AgentIdentity_display i)"
  by (cases "id_chat_id i") (auto simp: valid_identity_def AgentIdentity_display_def valid_segment_def list_all_iff
    segment_char_graphic split: option.splits)

lemma AgentIdentity_display_nonempty:
  "valid_identity i \<Longrightarrow> AgentIdentity_display i \<noteq> []"
  by (auto simp: valid_identity_def AgentIdentity_display_def)

lemma AgentIdentity_roundtrip:
  assumes "valid_identity i"
  shows "AgentIdentity_from_str (AgentIdentity_display i) = Inr i"
proof -
  have tr: "trim (AgentIdentity_display i) = AgentIdentity_display i"
    using assms by (simp add: trim_id trimmed_graphic AgentIdentity_display_graphic)
  have ag: "valid_segment (id_agent i)" using assms by (simp add: valid_identity_def)
  show ?thesis
  proof (cases "id_chat_id i")
    case None
    then have "AgentIdentity_display i = id_agent i" by (simp add: AgentIdentity_display_def)
    then show ?thesis
      using tr ag None AgentIdentity_display_nonempty[OF assms] valid_segment_no_sep(2)[OF ag]
      by (simp add: AgentIdentity_from_str_def Let_def agent_name.parse_complete)
  next
    case (Some c)
    then have "AgentIdentity_display i = id_agent i @ CHR '':'' # c"
      by (simp add: AgentIdentity_display_def)
    moreover have "valid_segment c" using assms Some by (simp add: valid_identity_def)
    ultimately show ?thesis
      using tr ag Some AgentIdentity_display_nonempty[OF assms] valid_segment_no_sep(2)
      by (simp add: AgentIdentity_from_str_def Let_def agent_name.parse_complete chat_id.parse_complete)
  qed
qed

lemma AgentIdentity_from_str_valid: "AgentIdentity_from_str s = Inr i \<Longrightarrow> valid_identity i"
  by (auto simp: AgentIdentity_from_str_def Let_def bindE_eq_Inr_iff valid_identity_def
      agent_name.parse_sound chat_id.parse_sound split: if_splits option.splits)

lemma AgentAddress_display_trimmed:
  assumes "valid_address a"
  shows "trimmed (AgentAddress_display a)"
proof (rule trimmed_graphic)
  let ?i = "\<lparr>id_agent = addr_agent a, id_chat_id = addr_chat_id a\<rparr>"
  have "valid_identity ?i" using assms by (simp add: valid_address_def valid_identity_def)
  then have "list_all graphic (AgentIdentity_display ?i)" by (rule AgentIdentity_display_graphic)
  then show "list_all graphic (AgentAddress_display a)"
    using assms
    by (cases "addr_team a"; cases "addr_host a")
       (auto simp: AgentAddress_display_def valid_address_def Let_def valid_segment_graphic
          valid_host_graphic)
qed

lemma AgentAddress_from_display:
  assumes "valid_address a"
  shows "AgentAddress_from_str (AgentAddress_display a) = Inr a"
proof -
  let ?i = "\<lparr>id_agent = addr_agent a, id_chat_id = addr_chat_id a\<rparr>"
  have vi: "valid_identity ?i" using assms by (simp add: valid_address_def valid_identity_def)
  note idf = AgentIdentity_display_chars[OF vi] AgentIdentity_display_nonempty[OF vi]
    AgentIdentity_roundtrip[OF vi]
  note tr = trim_id[OF AgentAddress_display_trimmed[OF assms]]
  consider (full) t h where "addr_team a = Some t" "addr_host a = Some h"
    | (team) t where "addr_team a = Some t" "addr_host a = None"
    | (bare) "addr_team a = None" "addr_host a = None"
    using assms by (cases "addr_team a"; cases "addr_host a") (auto simp: valid_address_def)
  then show ?thesis
  proof cases
    case full
    then have seg: "valid_segment t" "valid_host h" using assms by (auto simp: valid_address_def)
    then have disp: "AgentAddress_display a = AgentIdentity_display ?i @ CHR ''@'' # t @ CHR ''.'' # h"
      using full by (simp add: AgentAddress_display_def)
    show ?thesis
      unfolding AgentAddress_from_str_def Let_def tr unfolding disp
      using full seg idf valid_segment_no_sep[of t] valid_host_no_at[of h]
      by (simp add: team_name.parse_complete host_name.parse_complete AgentAddress_new_def)
  next
    case team
    then have seg: "valid_segment t" using assms by (auto simp: valid_address_def)
    then have disp: "AgentAddress_display a = AgentIdentity_display ?i @ CHR ''@'' # t"
      using team by (simp add: AgentAddress_display_def)
    show ?thesis
      unfolding AgentAddress_from_str_def Let_def tr unfolding disp
      using team seg idf valid_segment_no_sep[of t]
      by (simp add: team_name.parse_complete AgentAddress_new_def)
  next
    case bare
    then have disp: "AgentAddress_display a = AgentIdentity_display ?i"
      by (simp add: AgentAddress_display_def)
    show ?thesis
      unfolding AgentAddress_from_str_def Let_def tr unfolding disp
      using bare idf by (simp add: AgentAddress_new_def)
  qed
qed

lemma AgentAddress_new_valid:
  assumes "AgentAddress_new (id_agent i) (id_chat_id i) t h = Inr a" "valid_identity i"
    "pred_option valid_segment t" "pred_option valid_host h"
  shows "valid_address a"
  using assms by (auto simp: AgentAddress_new_def valid_address_def valid_identity_def split: if_splits)

lemma AgentAddress_from_str_valid:
  assumes "AgentAddress_from_str s = Inr a"
  shows "valid_address a"
proof -
  from assms obtain i t h where
    "AgentAddress_new (id_agent i) (id_chat_id i) t h = Inr a"
    "valid_identity i" "pred_option valid_segment t" "pred_option valid_host h"
    by (fastforce simp: AgentAddress_from_str_def Let_def bindE_eq_Inr_iff
        dest: AgentIdentity_from_str_valid team_name.parse_sound host_name.parse_sound
        split: if_splits option.splits)
  then show ?thesis by (rule AgentAddress_new_valid)
qed

section \<open>The capability comparison\<close>

lemma xor_zero_iff: "(x :: 8 word) XOR y = 0 \<longleftrightarrow> x = y"
  by (metis xor.assoc xor.left_neutral xor.right_neutral xor_self_eq)

lemma xor_fold_zero_iff:
  fixes d :: "8 word"
  assumes "length xs = length ys"
  shows "foldl (\<lambda>difference (left, right). difference OR (left XOR right)) d (zip xs ys) = 0
     \<longleftrightarrow> d = 0 \<and> xs = ys"
  using assms
  by (induction xs ys arbitrary: d rule: list_induct2) (auto simp: or_eq_0_iff xor_zero_iff)

end
