(* ===== verification/Task_State.thy ===== *)
theory Task_State
  imports Names
begin

text \<open>
  The task ledger's types and the pure task state machine
  (\<^verbatim>\<open>atm-storage/src/task_state.rs\<close>, \<^verbatim>\<open>task_op.rs\<close>): queue positions, the active-task
  limit, task states and their scalar form, the transition table and the admission
  guard, and the wire forms of task rows and task events.

  Time stamps are nanoseconds since the epoch, message ids are the ULID's 128-bit
  value.  A \<^verbatim>\<open>NonZeroU32\<close> is a \<^typ>\<open>32 word\<close>; the constructors refuse zero.
\<close>

type_synonym IsoTimestamp = int
type_synonym AtmMessageId = nat
type_synonym MessageKey = string
type_synonym QueuePosition = "32 word"
type_synonym MaxTasks = "32 word"

section \<open>Queue positions and the task limit\<close>

text \<open>\<^verbatim>\<open>NonZeroU32::saturating_add\<close>.\<close>

definition saturating_add32 :: "32 word \<Rightarrow> 32 word \<Rightarrow> 32 word" where
  "saturating_add32 a b = (if unat a + unat b < 2 ^ 32 then a + b else - 1)"

definition QueuePosition_HEAD :: QueuePosition where
  "QueuePosition_HEAD = 1"

definition QueuePosition_new :: "32 word \<Rightarrow> QueuePosition option" where
  "QueuePosition_new value = (if value = 0 then None else Some value)"

definition QueuePosition_next :: "QueuePosition \<Rightarrow> QueuePosition" where
  "QueuePosition_next self = saturating_add32 self 1"

definition MaxTasks_DEFAULT :: MaxTasks where
  "MaxTasks_DEFAULT = 1"

definition MaxTasks_new :: "32 word \<Rightarrow> MaxTasks option" where
  "MaxTasks_new value = (if value = 0 then None else Some value)"

definition to_metadata_value :: "MaxTasks \<Rightarrow> json" where
  "to_metadata_value self = JInt (uint self)"

definition from_metadata_value :: "json option \<Rightarrow> MaxTasks option" where
  "from_metadata_value value =
     (case value of
        None \<Rightarrow> Some MaxTasks_DEFAULT
      | Some v \<Rightarrow>
          if json_is_null v then Some MaxTasks_DEFAULT
          else (case json_as_u64 v of
                  None \<Rightarrow> None
                | Some i \<Rightarrow> if i < 2 ^ 32 then MaxTasks_new (word_of_int i) else None))"

section \<open>Task states\<close>

datatype TaskCloseOutcome = Completed | Refused | Cancelled

definition TaskCloseOutcome_as_str :: "TaskCloseOutcome \<Rightarrow> string" where
  "TaskCloseOutcome_as_str self =
     (case self of Completed \<Rightarrow> ''completed'' | Refused \<Rightarrow> ''refused'' | Cancelled \<Rightarrow> ''cancelled'')"

datatype TaskState = Assigned | Active | Complete TaskCloseOutcome

datatype TaskStateTag = TagAssigned | TagActive | TagComplete

definition TaskState_as_str :: "TaskState \<Rightarrow> string" where
  "TaskState_as_str self =
     (case self of Assigned \<Rightarrow> ''assigned'' | Active \<Rightarrow> ''active'' | Complete _ \<Rightarrow> ''complete'')"

definition is_open :: "TaskState \<Rightarrow> bool" where
  "is_open self = (case self of Complete _ \<Rightarrow> False | _ \<Rightarrow> True)"

definition TaskState_tag :: "TaskState \<Rightarrow> TaskStateTag" where
  "TaskState_tag self =
     (case self of Assigned \<Rightarrow> TagAssigned | Active \<Rightarrow> TagActive | Complete _ \<Rightarrow> TagComplete)"

definition close_outcome :: "TaskState \<Rightarrow> TaskCloseOutcome option" where
  "close_outcome self = (case self of Complete outcome \<Rightarrow> Some outcome | _ \<Rightarrow> None)"

definition from_parts :: "TaskStateTag \<Rightarrow> TaskCloseOutcome option \<Rightarrow> AtmError + TaskState" where
  "from_parts tag outcome =
     (case (tag, outcome) of
        (TagAssigned, None) \<Rightarrow> Inr Assigned
      | (TagActive, None) \<Rightarrow> Inr Active
      | (TagComplete, Some o') \<Rightarrow> Inr (Complete o')
      | (TagComplete, None) \<Rightarrow> Inl (err_validation ''complete task without close_outcome'')
      | (_, Some _) \<Rightarrow> Inl (err_validation ''open task with close_outcome''))"

datatype TaskEvent = EvAssigned | EvStarted | EvCompleted TaskCloseOutcome

datatype TaskActor = Member AgentName | Daemon

datatype TaskOp = Start | Close TaskCloseOutcome "string option"

datatype MoveTarget = MoveHead | MoveEnd | MoveBefore TaskId

record TaskRow =
  tr_team :: TeamName
  tr_task_id :: TaskId
  tr_assignee :: AgentName
  tr_assigner :: AgentName
  tr_state :: TaskState
  tr_position :: "QueuePosition option"
  tr_assignment_message_id :: AtmMessageId
  tr_description :: string
  tr_assigned_at :: IsoTimestamp
  tr_updated_at :: IsoTimestamp
  tr_last_reminded_at :: "IsoTimestamp option"
  tr_reminder_count :: "32 word"
  tr_lead_notified_count :: "32 word"

section \<open>The transition table\<close>

record TaskRejected =
  rej_code :: AtmErrorCode
  rej_detail :: string

definition into_atm_error :: "TaskRejected \<Rightarrow> AtmError" where
  "into_atm_error r = AtmError_new (rej_code r) (rej_detail r)"

definition no_open_task :: "TaskId \<Rightarrow> AgentName \<Rightarrow> TaskRejected" where
  "no_open_task task_id actor =
     \<lparr>rej_code = MailboxOrValidation TaskNotFound,
      rej_detail = ''no open task '' @ task_id @ '' for '' @ actor\<rparr>"

text \<open>\<^const>\<open>None\<close> is the arm the source marks \<^verbatim>\<open>unreachable!\<close>.\<close>

definition transition ::
  "TaskState option \<Rightarrow> TaskEvent \<Rightarrow> TaskId \<Rightarrow> AgentName \<Rightarrow> AgentName option \<Rightarrow> AgentName
   \<Rightarrow> (TaskRejected + TaskState) option" where
  "transition st event task_id actor current_assignee requested_assignee =
     (case (st, event) of
        (None, EvAssigned) \<Rightarrow> Some (Inr Assigned)
      | (None, _) \<Rightarrow> Some (Inl (no_open_task task_id actor))
      | (Some Assigned, EvAssigned) \<Rightarrow> Some (Inr Assigned)
      | (Some Active, EvAssigned) \<Rightarrow>
          if current_assignee = Some requested_assignee then Some (Inr Active)
          else Some (Inr Assigned)
      | (Some (Complete _), EvAssigned) \<Rightarrow> Some (Inr Assigned)
      | (Some (Complete _), _) \<Rightarrow> None
      | (Some _, EvStarted) \<Rightarrow> Some (Inr Active)
      | (Some _, EvCompleted outcome) \<Rightarrow> Some (Inr (Complete outcome)))"

definition admit ::
  "TaskRow option \<Rightarrow> TaskEvent \<Rightarrow> TaskId \<Rightarrow> AgentName \<Rightarrow> TaskRejected + unit" where
  "admit row event task_id actor =
     (case (row, event) of
        (None, EvAssigned) \<Rightarrow> Inr ()
      | (None, _) \<Rightarrow> Inl (no_open_task task_id actor)
      | (Some r, EvCompleted _) \<Rightarrow>
          if actor \<noteq> tr_assignee r \<and> actor \<noteq> tr_assigner r then
            Inl \<lparr>rej_code = MailboxOrValidation TaskNotCounterparty,
                 rej_detail = ''task '' @ tr_task_id r @ '' is not assigned to or by '' @ actor\<rparr>
          else Inr ()
      | (Some _, _) \<Rightarrow> Inr ())"

section \<open>Task events\<close>

datatype TaskEventKind =
    KAssigned | KAcked | KStarted | KCompleted | KRefused | KCancelled | KReassigned
  | KReopened | KRejected | KReminded | KLeadNotified | KMoved | KMigrated | KRemindersReset

definition TaskEventKind_as_str :: "TaskEventKind \<Rightarrow> string" where
  "TaskEventKind_as_str self = (case self of
      KAssigned \<Rightarrow> ''assigned''
    | KAcked \<Rightarrow> ''acked''
    | KStarted \<Rightarrow> ''started''
    | KCompleted \<Rightarrow> ''completed''
    | KRefused \<Rightarrow> ''refused''
    | KCancelled \<Rightarrow> ''cancelled''
    | KReassigned \<Rightarrow> ''reassigned''
    | KReopened \<Rightarrow> ''reopened''
    | KRejected \<Rightarrow> ''rejected''
    | KReminded \<Rightarrow> ''reminded''
    | KLeadNotified \<Rightarrow> ''lead_notified''
    | KMoved \<Rightarrow> ''moved''
    | KMigrated \<Rightarrow> ''migrated''
    | KRemindersReset \<Rightarrow> ''reminders_reset'')"

datatype TaskEventMarker = Resend | AssignmentMissing

definition TaskEventMarker_as_str :: "TaskEventMarker \<Rightarrow> string" where
  "TaskEventMarker_as_str self =
     (case self of Resend \<Rightarrow> ''resend'' | AssignmentMissing \<Rightarrow> ''assignment_missing'')"

datatype ReminderOutcome = Emitted | Unrenderable | Blocked

definition ReminderOutcome_as_str :: "ReminderOutcome \<Rightarrow> string" where
  "ReminderOutcome_as_str self =
     (case self of Emitted \<Rightarrow> ''emitted'' | Unrenderable \<Rightarrow> ''unrenderable'' | Blocked \<Rightarrow> ''blocked'')"

record TaskEventRow =
  te_team :: TeamName
  te_task_id :: TaskId
  te_assignee :: AgentName
  te_seq :: nat
  te_at :: IsoTimestamp
  te_event :: TaskEventKind
  te_from_state :: "TaskState option"
  te_to_state :: "TaskState option"
  te_actor :: TaskActor
  te_message_id :: "AtmMessageId option"
  te_outcome :: "ReminderOutcome option"
  te_marker :: "TaskEventMarker option"
  te_detail :: "string option"

section \<open>Wire forms\<close>

text \<open>JSON goes through these records: a scalar state and a separate close outcome.\<close>

record TaskRowWire =
  rw_team :: TeamName
  rw_task_id :: TaskId
  rw_assignee :: AgentName
  rw_assigner :: AgentName
  rw_state :: TaskStateTag
  rw_close_outcome :: "TaskCloseOutcome option"
  rw_position :: "QueuePosition option"
  rw_assignment_message_id :: AtmMessageId
  rw_description :: string
  rw_assigned_at :: IsoTimestamp
  rw_updated_at :: IsoTimestamp
  rw_last_reminded_at :: "IsoTimestamp option"
  rw_reminder_count :: "32 word"
  rw_lead_notified_count :: "32 word"

definition TaskRow_serialize :: "TaskRow \<Rightarrow> TaskRowWire" where
  "TaskRow_serialize self =
     \<lparr>rw_team = tr_team self, rw_task_id = tr_task_id self, rw_assignee = tr_assignee self,
      rw_assigner = tr_assigner self, rw_state = TaskState_tag (tr_state self),
      rw_close_outcome = close_outcome (tr_state self), rw_position = tr_position self,
      rw_assignment_message_id = tr_assignment_message_id self,
      rw_description = tr_description self, rw_assigned_at = tr_assigned_at self,
      rw_updated_at = tr_updated_at self, rw_last_reminded_at = tr_last_reminded_at self,
      rw_reminder_count = tr_reminder_count self,
      rw_lead_notified_count = tr_lead_notified_count self\<rparr>"

definition TaskRow_try_from :: "TaskRowWire \<Rightarrow> AtmError + TaskRow" where
  "TaskRow_try_from wire =
     (let outcome = (if rw_state wire = TagComplete \<and> rw_close_outcome wire = None
                     then Some Completed else rw_close_outcome wire)
      in bindE (from_parts (rw_state wire) outcome) (\<lambda>st.
         if \<not> is_open st \<and> rw_position wire \<noteq> None then
           Inl (err_validation ''complete task with queue position'')
         else Inr
           \<lparr>tr_team = rw_team wire, tr_task_id = rw_task_id wire,
            tr_assignee = rw_assignee wire, tr_assigner = rw_assigner wire, tr_state = st,
            tr_position = rw_position wire,
            tr_assignment_message_id = rw_assignment_message_id wire,
            tr_description = rw_description wire, tr_assigned_at = rw_assigned_at wire,
            tr_updated_at = rw_updated_at wire, tr_last_reminded_at = rw_last_reminded_at wire,
            tr_reminder_count = rw_reminder_count wire,
            tr_lead_notified_count = rw_lead_notified_count wire\<rparr>))"

record TaskEventRowWire =
  ew_team :: TeamName
  ew_task_id :: TaskId
  ew_assignee :: AgentName
  ew_seq :: nat
  ew_at :: IsoTimestamp
  ew_event :: TaskEventKind
  ew_from_state :: "TaskStateTag option"
  ew_to_state :: "TaskStateTag option"
  ew_close_outcome :: "TaskCloseOutcome option"
  ew_actor :: TaskActor
  ew_message_id :: "AtmMessageId option"
  ew_outcome :: "ReminderOutcome option"
  ew_marker :: "TaskEventMarker option"
  ew_detail :: "string option"

text \<open>\<^verbatim>\<open>Option::and_then(TaskState::close_outcome)\<close> and \<^verbatim>\<open>or_else\<close>.\<close>

definition state_outcome :: "TaskState option \<Rightarrow> TaskCloseOutcome option" where
  "state_outcome st = (case st of None \<Rightarrow> None | Some s \<Rightarrow> close_outcome s)"

definition TaskEventRow_serialize :: "TaskEventRow \<Rightarrow> TaskEventRowWire" where
  "TaskEventRow_serialize self =
     \<lparr>ew_team = te_team self, ew_task_id = te_task_id self, ew_assignee = te_assignee self,
      ew_seq = te_seq self, ew_at = te_at self, ew_event = te_event self,
      ew_from_state = map_option TaskState_tag (te_from_state self),
      ew_to_state = map_option TaskState_tag (te_to_state self),
      ew_close_outcome =
        (case state_outcome (te_to_state self) of
           Some o' \<Rightarrow> Some o'
         | None \<Rightarrow> state_outcome (te_from_state self)),
      ew_actor = te_actor self, ew_message_id = te_message_id self,
      ew_outcome = te_outcome self, ew_marker = te_marker self, ew_detail = te_detail self\<rparr>"

definition outcome_for :: "TaskCloseOutcome option \<Rightarrow> TaskStateTag \<Rightarrow> TaskCloseOutcome option" where
  "outcome_for outcome tag =
     (if tag = TagComplete
      then Some (case outcome of Some o' \<Rightarrow> o' | None \<Rightarrow> Completed) else None)"

definition transpose_state ::
  "TaskCloseOutcome option \<Rightarrow> TaskStateTag option \<Rightarrow> AtmError + TaskState option" where
  "transpose_state outcome t =
     (case t of None \<Rightarrow> Inr None
      | Some tag \<Rightarrow> mapE Some (from_parts tag (outcome_for outcome tag)))"

definition TaskEventRow_try_from :: "TaskEventRowWire \<Rightarrow> AtmError + TaskEventRow" where
  "TaskEventRow_try_from wire =
     (if ew_close_outcome wire \<noteq> None \<and> ew_from_state wire \<noteq> Some TagComplete
          \<and> ew_to_state wire \<noteq> Some TagComplete
      then Inl (err_validation ''task event close_outcome without complete state'')
      else if ew_from_state wire = Some TagComplete
          \<and> (case ew_to_state wire of None \<Rightarrow> False | Some st \<Rightarrow> st \<noteq> TagComplete)
          \<and> ew_event wire \<noteq> KReopened
      then Inl (err_validation
        ''only a reopened event may transition a complete task to an open state'')
      else
        bindE (transpose_state (ew_close_outcome wire) (ew_from_state wire)) (\<lambda>from.
        bindE (transpose_state (ew_close_outcome wire) (ew_to_state wire)) (\<lambda>to.
        Inr \<lparr>te_team = ew_team wire, te_task_id = ew_task_id wire,
             te_assignee = ew_assignee wire, te_seq = ew_seq wire, te_at = ew_at wire,
             te_event = ew_event wire, te_from_state = from, te_to_state = to,
             te_actor = ew_actor wire, te_message_id = ew_message_id wire,
             te_outcome = ew_outcome wire, te_marker = ew_marker wire,
             te_detail = ew_detail wire\<rparr>)))"

section \<open>Properties of the types\<close>

lemma is_open_simps [simp]:
  "is_open Assigned" "is_open Active" "\<not> is_open (Complete o')"
  by (simp_all add: is_open_def)

lemma close_outcome_simps [simp]:
  "close_outcome Assigned = None" "close_outcome Active = None"
  "close_outcome (Complete o') = Some o'"
  by (simp_all add: close_outcome_def)

lemma TaskState_tag_simps [simp]:
  "TaskState_tag Assigned = TagAssigned" "TaskState_tag Active = TagActive"
  "TaskState_tag (Complete o') = TagComplete"
  by (simp_all add: TaskState_tag_def)

lemma is_open_iff_outcome: "is_open st \<longleftrightarrow> close_outcome st = None"
  by (cases st) simp_all

lemma from_parts_roundtrip [simp]: "from_parts (TaskState_tag st) (close_outcome st) = Inr st"
  by (cases st) (simp_all add: from_parts_def)

lemma from_parts_Inr_iff:
  "from_parts tag outcome = Inr st \<longleftrightarrow> tag = TaskState_tag st \<and> outcome = close_outcome st"
  by (cases tag; cases outcome; cases st) (auto simp: from_parts_def)

definition event_wire_ok :: "TaskEventRow \<Rightarrow> bool" where
  "event_wire_ok e \<longleftrightarrow>
     (state_outcome (te_from_state e) \<noteq> None \<longrightarrow> state_outcome (te_to_state e) \<noteq> None \<longrightarrow>
        te_from_state e = te_to_state e) \<and>
     (state_outcome (te_from_state e) \<noteq> None \<longrightarrow> te_to_state e \<noteq> None \<longrightarrow>
        state_outcome (te_to_state e) = None \<longrightarrow> te_event e = KReopened)"

lemma TaskRow_wire_roundtrip:
  assumes "is_open (tr_state r) \<or> tr_position r = None"
  shows "TaskRow_try_from (TaskRow_serialize r) = Inr r"
  using assms
  by (cases "tr_state r") (auto simp: TaskRow_try_from_def TaskRow_serialize_def from_parts_def)

lemma state_option_exhaust:
  obtains "st = None" | "st = Some Assigned" | "st = Some Active" | o' where "st = Some (Complete o')"
  by (metis TaskState.exhaust option.exhaust)

lemma TaskEventRow_wire_roundtrip:
  assumes "event_wire_ok e"
  shows "TaskEventRow_try_from (TaskEventRow_serialize e) = Inr e"
  using assms
  by (cases "te_from_state e" rule: state_option_exhaust;
      cases "te_to_state e" rule: state_option_exhaust)
     (auto simp: event_wire_ok_def TaskEventRow_try_from_def TaskEventRow_serialize_def
        transpose_state_def outcome_for_def from_parts_def state_outcome_def)

lemma from_metadata_value_range:
  "from_metadata_value v = Some m \<Longrightarrow> 1 \<le> uint m"
proof -
  assume "from_metadata_value v = Some m"
  then have "m \<noteq> 0"
    by (auto simp: from_metadata_value_def MaxTasks_DEFAULT_def MaxTasks_new_def
        split: option.splits if_splits)
  then have "uint m \<noteq> 0" by (simp add: uint_0_iff)
  then show ?thesis using uint_ge_0[of m] by linarith
qed

lemma from_metadata_value_roundtrip:
  assumes "m \<noteq> 0"
  shows "from_metadata_value (Some (to_metadata_value m)) = Some m"
  using assms uint_bounded[of m]
  by (simp add: from_metadata_value_def to_metadata_value_def json_is_null_def json_as_u64_def
      MaxTasks_new_def)

lemma unat_max_word32: "unat (- 1 :: 32 word) = 2 ^ 32 - 1"
  by (simp add: unsigned_minus_1_eq_mask mask_eq_exp_minus_1)

lemma unat_QueuePosition_next:
  "unat (QueuePosition_next p) = min (unat p + 1) (2 ^ 32 - 1)"
proof (cases "unat p + 1 < 2 ^ 32")
  case True
  then have "unat (p + 1) = unat p + 1"
    by (subst unat_plus_simple[THEN iffD1]) (auto simp: no_olen_add_nat)
  with True show ?thesis by (simp add: QueuePosition_next_def saturating_add32_def)
next
  case False
  then show ?thesis
    by (simp add: QueuePosition_next_def saturating_add32_def unat_max_word32)
qed

end
