(* ===== verification/Messages.thy ===== *)
theory Messages
  imports Task_State
begin

text \<open>
  Messages: the envelope and its wire form (\<^verbatim>\<open>atm-storage/src/schema/inbox_message.rs\<close>),
  the message record and its key (\<^verbatim>\<open>atm-storage/src/contract.rs\<close>), the form the store
  keeps (\<^verbatim>\<open>writer/ops_envelope.rs\<close>) and the comparison of immutable data
  (\<^verbatim>\<open>atm-core/src/send/persistence.rs\<close>).

  The stored column holds the JSON text of a \<open>StorageEnvelope\<close>; it is modelled by that
  record, and reading the column back by \<open>raw_of_storage\<close>, the fields serde finds in
  the text.  The extra fields of an envelope never carry a name the envelope declares,
  which is what serde's \<^verbatim>\<open>flatten\<close> leaves in them.
\<close>

section \<open>Envelopes\<close>

datatype ThreadMode = AddDetails | Supersede

record MessageEnvelope =
  me_from :: AgentName
  me_source_chat_id :: "ChatId option"
  me_text :: string
  me_timestamp :: IsoTimestamp
  me_read :: bool
  me_source_team :: "TeamName option"
  me_destination_chat_id :: "ChatId option"
  me_summary :: "string option"
  me_message_id :: "AtmMessageId option"
  me_requires_ack :: bool
  me_pending_ack_at :: "IsoTimestamp option"
  me_acknowledged_at :: "IsoTimestamp option"
  me_acknowledges_message_id :: "AtmMessageId option"
  me_parent_message_id :: "AtmMessageId option"
  me_thread_mode :: "ThreadMode option"
  me_expires_at :: "IsoTimestamp option"
  me_task_id :: "TaskId option"
  me_placement :: "MoveTarget option"
  me_task_op :: "TaskOp option"
  me_task_complete :: "TaskId option"
  me_extra :: "(string \<times> json) list"

record RawMessageEnvelope =
  raw_from :: AgentName
  raw_source_chat_id :: "ChatId option"
  raw_text :: string
  raw_timestamp :: IsoTimestamp
  raw_read :: bool
  raw_source_team :: "TeamName option"
  raw_destination_chat_id :: "ChatId option"
  raw_summary :: "string option"
  raw_message_id :: "AtmMessageId option"
  raw_requires_ack :: "bool option"
  raw_pending_ack_at :: "IsoTimestamp option"
  raw_acknowledged_at :: "IsoTimestamp option"
  raw_acknowledges_message_id :: "AtmMessageId option"
  raw_parent_message_id :: "AtmMessageId option"
  raw_thread_mode :: "ThreadMode option"
  raw_expires_at :: "IsoTimestamp option"
  raw_task_id :: "TaskId option"
  raw_placement :: "MoveTarget option"
  raw_task_op :: "TaskOp option"
  raw_task_complete :: "TaskId option"
  raw_extra :: "(string \<times> json) list"

definition raw_task_fields ::
  "TaskId option \<Rightarrow> TaskOp option \<Rightarrow> TaskId option \<Rightarrow> TaskId option \<times> TaskOp option" where
  "raw_task_fields task_id task_op task_complete =
     (case (task_op, task_complete) of
        (Some op, _) \<Rightarrow> (task_id, Some op)
      | (None, Some closed) \<Rightarrow> (Some closed, Some (Close Completed None))
      | (None, None) \<Rightarrow> (task_id, None))"

definition MessageEnvelope_from :: "RawMessageEnvelope \<Rightarrow> MessageEnvelope" where
  "MessageEnvelope_from value =
     (let requires_ack = (case raw_requires_ack value of
            Some b \<Rightarrow> b
          | None \<Rightarrow> raw_pending_ack_at value \<noteq> None \<and> raw_acknowledges_message_id value = None);
          (task_id, task_op) =
            raw_task_fields (raw_task_id value) (raw_task_op value) (raw_task_complete value)
      in \<lparr>me_from = raw_from value, me_source_chat_id = raw_source_chat_id value,
          me_text = raw_text value, me_timestamp = raw_timestamp value, me_read = raw_read value,
          me_source_team = raw_source_team value,
          me_destination_chat_id = raw_destination_chat_id value,
          me_summary = raw_summary value, me_message_id = raw_message_id value,
          me_requires_ack = requires_ack, me_pending_ack_at = raw_pending_ack_at value,
          me_acknowledged_at = raw_acknowledged_at value,
          me_acknowledges_message_id = raw_acknowledges_message_id value,
          me_parent_message_id = raw_parent_message_id value,
          me_thread_mode = raw_thread_mode value, me_expires_at = raw_expires_at value,
          me_task_id = task_id, me_placement = raw_placement value, me_task_op = task_op,
          me_task_complete = None, me_extra = raw_extra value\<rparr>)"

text \<open>The wire form of an envelope, read back field by field.\<close>

definition raw_of_envelope :: "MessageEnvelope \<Rightarrow> RawMessageEnvelope" where
  "raw_of_envelope e =
     \<lparr>raw_from = me_from e, raw_source_chat_id = me_source_chat_id e, raw_text = me_text e,
      raw_timestamp = me_timestamp e, raw_read = me_read e, raw_source_team = me_source_team e,
      raw_destination_chat_id = me_destination_chat_id e, raw_summary = me_summary e,
      raw_message_id = me_message_id e, raw_requires_ack = Some (me_requires_ack e),
      raw_pending_ack_at = me_pending_ack_at e, raw_acknowledged_at = me_acknowledged_at e,
      raw_acknowledges_message_id = me_acknowledges_message_id e,
      raw_parent_message_id = me_parent_message_id e, raw_thread_mode = me_thread_mode e,
      raw_expires_at = me_expires_at e, raw_task_id = me_task_id e,
      raw_placement = me_placement e, raw_task_op = me_task_op e,
      raw_task_complete = me_task_complete e, raw_extra = me_extra e\<rparr>"

section \<open>The stored form\<close>

record StorageEnvelope =
  se_from :: AgentName
  se_source_chat_id :: "ChatId option"
  se_text :: string
  se_timestamp :: IsoTimestamp
  se_read :: bool
  se_source_team :: "TeamName option"
  se_destination_chat_id :: "ChatId option"
  se_summary :: "string option"
  se_message_id :: "AtmMessageId option"
  se_pending_ack_at :: "IsoTimestamp option"
  se_acknowledged_at :: "IsoTimestamp option"
  se_acknowledges_message_id :: "AtmMessageId option"
  se_parent_message_id :: "AtmMessageId option"
  se_thread_mode :: "ThreadMode option"
  se_expires_at :: "IsoTimestamp option"
  se_task_id :: "TaskId option"
  se_placement :: "MoveTarget option"
  se_task_op :: "TaskOp option"
  se_extra :: "(string \<times> json) list"

definition StorageEnvelope_new :: "MessageEnvelope \<Rightarrow> StorageEnvelope" where
  "StorageEnvelope_new e =
     \<lparr>se_from = me_from e, se_source_chat_id = me_source_chat_id e, se_text = me_text e,
      se_timestamp = me_timestamp e, se_read = me_read e, se_source_team = me_source_team e,
      se_destination_chat_id = me_destination_chat_id e, se_summary = me_summary e,
      se_message_id = me_message_id e, se_pending_ack_at = me_pending_ack_at e,
      se_acknowledged_at = me_acknowledged_at e,
      se_acknowledges_message_id = me_acknowledges_message_id e,
      se_parent_message_id = me_parent_message_id e, se_thread_mode = me_thread_mode e,
      se_expires_at = me_expires_at e, se_task_id = me_task_id e,
      se_placement = me_placement e, se_task_op = me_task_op e, se_extra = me_extra e\<rparr>"

text \<open>Reading a stored envelope: the text has neither \<^verbatim>\<open>requires_ack\<close> nor
  \<^verbatim>\<open>taskComplete\<close>.\<close>

definition raw_of_storage :: "StorageEnvelope \<Rightarrow> RawMessageEnvelope" where
  "raw_of_storage s =
     \<lparr>raw_from = se_from s, raw_source_chat_id = se_source_chat_id s, raw_text = se_text s,
      raw_timestamp = se_timestamp s, raw_read = se_read s, raw_source_team = se_source_team s,
      raw_destination_chat_id = se_destination_chat_id s, raw_summary = se_summary s,
      raw_message_id = se_message_id s, raw_requires_ack = None,
      raw_pending_ack_at = se_pending_ack_at s, raw_acknowledged_at = se_acknowledged_at s,
      raw_acknowledges_message_id = se_acknowledges_message_id s,
      raw_parent_message_id = se_parent_message_id s, raw_thread_mode = se_thread_mode s,
      raw_expires_at = se_expires_at s, raw_task_id = se_task_id s,
      raw_placement = se_placement s, raw_task_op = se_task_op s,
      raw_task_complete = None, raw_extra = se_extra s\<rparr>"

definition decode_envelope :: "StorageEnvelope \<Rightarrow> MessageEnvelope" where
  "decode_envelope s = MessageEnvelope_from (raw_of_storage s)"

section \<open>Messages and their keys\<close>

record Message =
  msg_team :: TeamName
  msg_agent :: AgentName
  msg_message_key :: MessageKey
  msg_envelope :: MessageEnvelope

definition require_non_blank :: "string \<Rightarrow> string \<Rightarrow> AtmError + string" where
  "require_non_blank value subject =
     (if trim value = [] then Inl (err_validation (subject @ '' must not be blank''))
      else Inr value)"

definition MessageKey_new :: "string \<Rightarrow> AtmError + MessageKey" where
  "MessageKey_new value = require_non_blank value ''message key''"

definition from_atm_message_id :: "(AtmMessageId \<Rightarrow> string) \<Rightarrow> AtmMessageId \<Rightarrow> MessageKey" where
  "from_atm_message_id ulid_str value = ''atm:'' @ ulid_str value"

definition as_atm_message_id ::
  "(string \<Rightarrow> string + AtmMessageId) \<Rightarrow> MessageKey \<Rightarrow> AtmError + AtmMessageId" where
  "as_atm_message_id ulid_parse self =
     (let raw = (case strip_prefix ''atm:'' self of Some r \<Rightarrow> r | None \<Rightarrow> self)
      in map_err (\<lambda>error. err_validation (''message key parse failed: '' @ error))
           (ulid_parse raw))"

datatype AckRequirementState = NotRequired | RequiredPending | RequiredAcknowledged

definition derive_ack_requirement :: "MessageEnvelope \<Rightarrow> AckRequirementState" where
  "derive_ack_requirement message =
     (if \<not> me_requires_ack message then NotRequired
      else if me_acknowledged_at message \<noteq> None then RequiredAcknowledged
      else RequiredPending)"

section \<open>Comparing immutable data\<close>

definition AUTHENTICATED_SOURCE_HOST_KEY :: string where
  "AUTHENTICATED_SOURCE_HOST_KEY = ''sourceHost''"

definition PEER_OUTBOUND_KEY :: string where
  "PEER_OUTBOUND_KEY = ''peerOutbound''"

definition clear_transport_delivery_metadata :: "MessageEnvelope \<Rightarrow> MessageEnvelope" where
  "clear_transport_delivery_metadata m =
     m\<lparr>me_extra := filter (\<lambda>(k, _). k \<noteq> AUTHENTICATED_SOURCE_HOST_KEY \<and> k \<noteq> PEER_OUTBOUND_KEY)
         (me_extra m)\<rparr>"

definition immutable_part :: "MessageEnvelope \<Rightarrow> MessageEnvelope" where
  "immutable_part m = clear_transport_delivery_metadata
     (m\<lparr>me_read := False, me_pending_ack_at := None, me_acknowledged_at := None\<rparr>)"

definition immutable_envelopes_match :: "MessageEnvelope \<Rightarrow> MessageEnvelope \<Rightarrow> bool" where
  "immutable_envelopes_match left right \<longleftrightarrow> immutable_part left = immutable_part right"

section \<open>Round trips\<close>

lemma decode_StorageEnvelope_new:
  "decode_envelope (StorageEnvelope_new e) =
     e\<lparr>me_requires_ack := me_pending_ack_at e \<noteq> None \<and> me_acknowledges_message_id e = None,
       me_task_complete := None\<rparr>"
  by (cases "me_task_op e")
     (simp_all add: decode_envelope_def MessageEnvelope_from_def raw_of_storage_def
        StorageEnvelope_new_def raw_task_fields_def)

lemma wire_envelope_roundtrip:
  "me_task_complete e = None \<Longrightarrow> MessageEnvelope_from (raw_of_envelope e) = e"
  by (cases "me_task_op e")
     (simp_all add: MessageEnvelope_from_def raw_of_envelope_def raw_task_fields_def)

lemma message_key_roundtrip:
  "ulid_parse (ulid_str i) = Inr i \<Longrightarrow>
   as_atm_message_id ulid_parse (from_atm_message_id ulid_str i) = Inr i"
  by (simp add: as_atm_message_id_def from_atm_message_id_def strip_prefix_def)

end
