(* ===== verification/Value_Layer.thy ===== *)
theory Value_Layer
  imports Messages
begin

text \<open>
  The properties of the value layer: error codes and rendered errors, validated names and
  addresses, the local HTTP capability, task limits and queue positions, and the wire
  and storage forms of task rows, task events and message envelopes.
\<close>

section \<open>Errors\<close>

text \<open>
  Property C38: every error code has a name, and parsing a string gives a code exactly when
  the string is that code's name.
\<close>

theorem error_code_names:
  "(\<exists>s. AtmErrorCode_as_str c = Some s)
   \<and> (parse_known_error_code s = Some c \<longleftrightarrow> AtmErrorCode_as_str c = Some s)"
  by (simp add: AtmErrorCode_as_str_total parse_known_error_code_iff)

text \<open>
  Property C39: when the detail does not itself contain the recovery marker, the accessors
  give back the detail an error was built from and its guidance or explicit recovery.
\<close>

theorem error_detail_recovered:
  assumes "split_once_str recovery_marker d = None"
  shows "AtmError_detail (AtmError_new c d) = d
    \<and> AtmError_remediation (AtmError_new c d) = guidance c
    \<and> AtmError_detail (with_recovery c d r) = d
    \<and> AtmError_remediation (with_recovery c d r) = r"
  using assms split_once_marker[OF assms]
  by (simp_all add: AtmError_detail_def AtmError_remediation_def AtmError_new_def with_recovery_def
      render_def)

theorem error_detail_recovered_witness:
  "AtmError_detail (AtmError_new (MailboxOrValidation TaskNotFound) ''no open task T1 for bob'')
     = ''no open task T1 for bob''"
proof -
  have "split_once_str recovery_marker ''no open task T1 for bob'' = None" by code_simp
  then show ?thesis using error_detail_recovered by blast
qed

section \<open>Names and addresses\<close>

text \<open>
  Property C40: an address that parses is well formed, and printing it gives text that parses
  to the same address.
\<close>

theorem address_print_parse:
  assumes "AgentAddress_from_str s = Inr a"
  shows "valid_address a \<and> AgentAddress_from_str (AgentAddress_display a) = Inr a"
  using AgentAddress_from_str_valid[OF assms] AgentAddress_from_display by blast

theorem address_print_parse_witness:
  "AgentAddress_from_str (AgentAddress_display
     \<lparr>addr_agent = ''arch'', addr_chat_id = None, addr_team = Some ''dev'', addr_host = None\<rparr>)
   = Inr \<lparr>addr_agent = ''arch'', addr_chat_id = None, addr_team = Some ''dev'', addr_host = None\<rparr>"
proof -
  have "AgentAddress_from_str '' arch@dev ''
      = Inr \<lparr>addr_agent = ''arch'', addr_chat_id = None, addr_team = Some ''dev'', addr_host = None\<rparr>"
    by code_simp
  then show ?thesis using address_print_parse by blast
qed

text \<open>
  The comparison of a presented capability that folds the differences of all
  bytes accepts exactly the headers that decode to the stored bytes.
\<close>

lemma capability_comparison:
  assumes "length self = LOCAL_CAPABILITY_BYTES"
  shows "matches_header decode self v \<longleftrightarrow> decode v = Inr self"
proof (cases "decode v")
  case (Inr bytes)
  then show ?thesis
    using assms xor_fold_zero_iff[of self bytes 0]
    by (auto simp: matches_header_def decode_base64url_def)
qed (simp add: matches_header_def decode_base64url_def)

lemma capability_comparison_example:
  "matches_header (\<lambda>v. if v = ''k'' then Inr (replicate 32 7) else Inl ''bad'') (replicate 32 7) ''k''
   \<and> \<not> matches_header (\<lambda>v. if v = ''k'' then Inr (replicate 32 7) else Inl ''bad'') (replicate 32 7) ''x''"
  by (simp add: capability_comparison LOCAL_CAPABILITY_BYTES_def)

section \<open>Limits and positions\<close>

text \<open>
  A task limit read from roster metadata is positive, and a positive limit
  written to metadata reads back as itself.
\<close>

lemma max_tasks_metadata:
  "(from_metadata_value v = Some m \<longrightarrow> m \<noteq> 0) \<and> (m \<noteq> 0 \<longrightarrow> from_metadata_value (Some (to_metadata_value m)) = Some m)"
  using from_metadata_value_range[of v m] from_metadata_value_roundtrip[of m] by auto

lemma max_tasks_metadata_example:
  "from_metadata_value (Some (to_metadata_value 3)) = Some 3"
  using max_tasks_metadata[of None 3] by simp

text \<open>
  The successor of a queue position is one more, except at the largest 32-bit
  value, where it stays; it never wraps to the invalid position zero.
\<close>

lemma queue_position_next_saturates:
  "unat (QueuePosition_next p) = min (unat p + 1) (2 ^ 32 - 1) \<and> QueuePosition_next p \<noteq> 0"
proof -
  have u: "unat (QueuePosition_next p) = min (unat p + 1) (2 ^ 32 - 1)" by (rule unat_QueuePosition_next)
  then have "unat (QueuePosition_next p) > 0" by simp
  with u show ?thesis by (metis unat_0 less_irrefl)
qed

section \<open>Wire and storage forms\<close>

text \<open>
  A task row whose closed state carries no position survives its wire form.
\<close>

lemma task_row_wire:
  assumes "is_open (tr_state r) \<or> tr_position r = None"
  shows "TaskRow_try_from (TaskRow_serialize r) = Inr r"
  using assms by (rule TaskRow_wire_roundtrip)

lemma task_row_wire_example:
  "TaskRow_try_from (TaskRow_serialize
     \<lparr>tr_team = ''dev'', tr_task_id = ''T1'', tr_assignee = ''bob'', tr_assigner = ''ann'',
      tr_state = Complete Refused, tr_position = None, tr_assignment_message_id = 5,
      tr_description = ''x'', tr_assigned_at = 1, tr_updated_at = 2, tr_last_reminded_at = None,
      tr_reminder_count = 0, tr_lead_notified_count = 0\<rparr>)
   = Inr \<lparr>tr_team = ''dev'', tr_task_id = ''T1'', tr_assignee = ''bob'', tr_assigner = ''ann'',
      tr_state = Complete Refused, tr_position = None, tr_assignment_message_id = 5,
      tr_description = ''x'', tr_assigned_at = 1, tr_updated_at = 2, tr_last_reminded_at = None,
      tr_reminder_count = 0, tr_lead_notified_count = 0\<rparr>"
  by (rule task_row_wire) simp

text \<open>
  An envelope written to storage is read back with every immutable field, its
  task link and its display state intact; only the acknowledgement requirement is
  recomputed and the legacy completion carrier is dropped.
\<close>

lemma stored_envelope_read_back:
  "decode_envelope (StorageEnvelope_new e) =
     e\<lparr>me_requires_ack := me_pending_ack_at e \<noteq> None \<and> me_acknowledges_message_id e = None,
       me_task_complete := None\<rparr>"
  by (rule decode_StorageEnvelope_new)

end
