(* ===== verification/Store.thy ===== *)
theory Store
  imports Messages "HOL-Library.List_Lexorder" "HOL-Library.Char_ord" "HOL-Library.Product_Lexorder" "HOL-Library.Option_ord"
begin

text \<open>
  The SQLite store as the writer sees it: the tables of the data definition in
  \<^verbatim>\<open>atm-storage-rusqlite/src/task_store.rs\<close>, \<^verbatim>\<open>mail_messages_schema.rs\<close>,
  \<^verbatim>\<open>search_schema.rs\<close> and \<^verbatim>\<open>shared_db.rs\<close>, one record per row, a table being the list of its
  rows in rowid order.  Statements run row by row and check the constraints of the
  data definition on every row they write, so a transient violation inside one
  statement is an error, as it is in SQLite.

  State, outcome and event columns keep the text the source binds; time stamps and
  message ids are kept as values.  What the store takes from outside it (the clock,
  fresh ULIDs and their text and time, JSON text, the wording of an SQLite error) is
  the record \<open>env\<close>.
\<close>

section \<open>The environment of an operation\<close>

datatype sql_error =
    ConstraintViolation
  | ConversionFailure string
  | IntegralValueOutOfRange int
  | InvalidColumnType string
  | DatabaseFull

record env =
  env_now :: IsoTimestamp
  env_new_id :: AtmMessageId
  env_id_time :: "AtmMessageId \<Rightarrow> IsoTimestamp"
  env_ulid_str :: "AtmMessageId \<Rightarrow> string"
  env_json_len :: "StorageEnvelope \<Rightarrow> nat"
  env_parse_json :: "string \<Rightarrow> json option"
  env_sql_display :: "sql_error \<Rightarrow> string"

text \<open>The display form of a code is its name.\<close>

definition code_str :: "AtmErrorCode \<Rightarrow> string" where
  "code_str c = (case AtmErrorCode_as_str c of Some s \<Rightarrow> s | None \<Rightarrow> [])"

definition err_mailbox_write :: "string \<Rightarrow> AtmError" where
  "err_mailbox_write m = AtmError_new (MailboxOrValidation MailboxWriteFailed) m"

definition err_mailbox_read :: "string \<Rightarrow> AtmError" where
  "err_mailbox_read m = AtmError_new (MailboxOrValidation MailboxReadFailed) m"

definition err_validation_with_recovery :: "string \<Rightarrow> string \<Rightarrow> AtmError" where
  "err_validation_with_recovery m r =
     with_recovery (MailboxOrValidation MessageValidationFailed) m r"

definition sqlite_error :: "env \<Rightarrow> string \<Rightarrow> sql_error \<Rightarrow> AtmError" where
  "sqlite_error env m source =
     with_cause
       (case source of
          ConstraintViolation \<Rightarrow> err_validation m
        | _ \<Rightarrow> err_mailbox_write m)
       (env_sql_display env source)"

section \<open>Rows\<close>

record TaskCols =
  tc_team :: string
  tc_task_id :: string
  tc_assignee :: string
  tc_assigner :: string
  tc_state :: string
  tc_close_outcome :: "string option"
  tc_position :: "int option"
  tc_assignment_message_id :: AtmMessageId
  tc_description :: string
  tc_assigned_at :: IsoTimestamp
  tc_updated_at :: IsoTimestamp
  tc_last_reminded_at :: "IsoTimestamp option"
  tc_reminder_count :: int
  tc_lead_notified_count :: int

record EventCols =
  ec_team :: string
  ec_task_id :: string
  ec_assignee :: string
  ec_seq :: nat
  ec_at :: IsoTimestamp
  ec_event :: string
  ec_from_state :: "string option"
  ec_to_state :: "string option"
  ec_close_outcome :: "string option"
  ec_actor :: string
  ec_message_id :: "AtmMessageId option"
  ec_outcome :: "string option"
  ec_marker :: "string option"
  ec_detail :: "string option"

record MailCols =
  mc_team :: string
  mc_agent :: string
  mc_message_key :: string
  mc_envelope_json :: StorageEnvelope
  mc_from_agent :: string
  mc_source_chat_id :: "string option"
  mc_destination_chat_id :: "string option"
  mc_message_text :: "string option"
  mc_category :: "string option"
  mc_content_format :: "string option"
  mc_tags :: "string list"
  mc_summary :: "string option"
  mc_message_at :: IsoTimestamp
  mc_message_id :: "AtmMessageId option"
  mc_parent_message_id :: "AtmMessageId option"
  mc_thread_mode :: "string option"
  mc_recorded_at :: "IsoTimestamp option"

record StateCols =
  sc_team :: string
  sc_agent :: string
  sc_message_key :: string
  sc_read :: bool
  sc_pending_ack_at :: "IsoTimestamp option"
  sc_acknowledged_at :: "IsoTimestamp option"
  sc_expires_at :: "IsoTimestamp option"
  sc_deleted_at :: "IsoTimestamp option"
  sc_updated_at :: "IsoTimestamp option"
  sc_nudge_pending_at :: "IsoTimestamp option"
  sc_nudge_attempts :: int

record SearchCols =
  sd_team :: string
  sd_agent :: string
  sd_message_key :: string
  sd_message_id :: "AtmMessageId option"
  sd_message_at :: IsoTimestamp
  sd_body_text :: string
  sd_summary :: string
  sd_tags :: string
  sd_var_values :: string
  sd_from_agent :: string

text \<open>The roster keeps its metadata column as text; a cron schedule row is read for its
  generation and its active flag only.\<close>

record db =
  db_tasks :: "TaskCols list"
  db_task_events :: "EventCols list"
  db_mail_messages :: "MailCols list"
  db_mail_states :: "StateCols list"
  db_search :: "SearchCols list"
  db_watermarks :: "((string \<times> string) \<times> IsoTimestamp) list"
  db_roster :: "((string \<times> string) \<times> string) list"
  db_cron_schedule :: "(int \<times> (int \<times> int)) list"

section \<open>Row-by-row statements\<close>

text \<open>
  \<^verbatim>\<open>UPDATE t SET ... WHERE P\<close>: \<open>bad r others\<close> says that writing the row \<open>r\<close> beside
  \<open>others\<close> violates a constraint.  Rows already rewritten stand before the row under
  the statement, rows still to come behind it.
\<close>

fun update_go :: "('r \<Rightarrow> 'r list \<Rightarrow> bool) \<Rightarrow> ('r \<Rightarrow> bool) \<Rightarrow> ('r \<Rightarrow> 'r) \<Rightarrow> 'r list \<Rightarrow> 'r list
    \<Rightarrow> sql_error + 'r list" where
  "update_go bad P f seen [] = Inr seen"
| "update_go bad P f seen (r # rs) =
     (if P r then
        (if bad (f r) (seen @ rs) then Inl ConstraintViolation
         else update_go bad P f (seen @ [f r]) rs)
      else update_go bad P f (seen @ [r]) rs)"

definition update_rows :: "('r \<Rightarrow> 'r list \<Rightarrow> bool) \<Rightarrow> ('r \<Rightarrow> bool) \<Rightarrow> ('r \<Rightarrow> 'r) \<Rightarrow> 'r list
    \<Rightarrow> sql_error + 'r list" where
  "update_rows bad P f rows = update_go bad P f [] rows"

definition insert_row :: "('r \<Rightarrow> 'r list \<Rightarrow> bool) \<Rightarrow> 'r \<Rightarrow> 'r list \<Rightarrow> sql_error + 'r list" where
  "insert_row bad r rows = (if bad r rows then Inl ConstraintViolation else Inr (rows @ [r]))"

subsection \<open>When an update cannot fail\<close>

text \<open>An update succeeds and rewrites every selected row when no rewritten row clashes
  with any other row, before or after that row's own rewriting.\<close>

lemma update_go_map:
  assumes "\<And>r seen rest. P r \<Longrightarrow> r \<in> set rows \<Longrightarrow>
      (\<exists>us vs. rows = us @ r # vs \<and> seen = done @ map (\<lambda>x. if P x then f x else x) us \<and> rest = vs) \<Longrightarrow>
      \<not> bad (f r) (seen @ rest)"
  shows "update_go bad P f done rows = Inr (done @ map (\<lambda>x. if P x then f x else x) rows)"
  using assms
proof (induction rows arbitrary: "done")
  case Nil
  then show ?case by simp
next
  case (Cons r rs)
  let ?g = "\<lambda>x. if P x then f x else x"
  have head: "\<not> bad (f r) (done @ rs)" if "P r"
    using Cons.prems[of r "done" rs] that by force
  have "update_go bad P f (done @ [?g r]) rs = Inr ((done @ [?g r]) @ map ?g rs)"
  proof (rule Cons.IH)
    fix x seen rest
    assume "P x" "x \<in> set rs"
      "\<exists>us vs. rs = us @ x # vs \<and> seen = (done @ [?g r]) @ map ?g us \<and> rest = vs"
    then show "\<not> bad (f x) (seen @ rest)"
      by (intro Cons.prems[of x seen rest]) (auto intro: exI[of _ "r # _"])
  qed
  with head show ?case by auto
qed

lemma update_rows_map:
  assumes "\<And>r us vs. P r \<Longrightarrow> rows = us @ r # vs \<Longrightarrow>
      \<not> bad (f r) (map (\<lambda>x. if P x then f x else x) us @ vs)"
  shows "update_rows bad P f rows = Inr (map (\<lambda>x. if P x then f x else x) rows)"
proof -
  have "update_go bad P f [] rows = Inr ([] @ map (\<lambda>x. if P x then f x else x) rows)"
    by (rule update_go_map) (use assms in auto)
  then show ?thesis by (simp add: update_rows_def)
qed

text \<open>Whatever happens, a successful update is the pointwise one.\<close>

lemma update_go_Inr:
  "update_go bad P f seen rows = Inr out \<Longrightarrow>
   out = seen @ map (\<lambda>x. if P x then f x else x) rows"
  by (induction bad P f seen rows rule: update_go.induct) (auto split: if_splits)

lemma update_rows_Inr:
  "update_rows bad P f rows = Inr out \<Longrightarrow> out = map (\<lambda>x. if P x then f x else x) rows"
  using update_go_Inr by (fastforce simp: update_rows_def)

lemma insert_row_Inr: "insert_row bad r rows = Inr out \<Longrightarrow> out = rows @ [r]"
  by (simp add: insert_row_def split: if_splits)

subsection \<open>Constrained tables\<close>

text \<open>
  A table whose constraints are a check on each row and a symmetric clash between two rows: a
  statement that succeeds leaves a table that meets them.
\<close>

definition table_ok :: "('r \<Rightarrow> bool) \<Rightarrow> ('r \<Rightarrow> 'r \<Rightarrow> bool) \<Rightarrow> 'r list \<Rightarrow> bool" where
  "table_ok check clash rows \<longleftrightarrow> list_all check rows \<and> sorted_wrt (\<lambda>r s. \<not> clash s r) rows"

locale constrained_table =
  fixes check :: "'r \<Rightarrow> bool" and clash :: "'r \<Rightarrow> 'r \<Rightarrow> bool" and bad :: "'r \<Rightarrow> 'r list \<Rightarrow> bool"
  assumes bad_iff: "bad r others \<longleftrightarrow> \<not> check r \<or> list_ex (clash r) others"
    and clash_commute: "clash r s = clash s r"
begin

lemma update_go_table:
  assumes "update_go bad P f seen rows = Inr out" "table_ok check clash (seen @ rows)"
  shows "table_ok check clash out"
  using assms
proof (induction rows arbitrary: seen)
  case (Cons r rs)
  let ?r = "if P r then f r else r"
  have step: "update_go bad P f (seen @ [?r]) rs = Inr out"
    using Cons.prems(1) by (auto split: if_splits)
  have "check ?r \<and> (\<forall>x\<in>set seen \<union> set rs. \<not> clash ?r x)"
  proof (cases "P r")
    case True
    then have "\<not> bad (f r) (seen @ rs)" using Cons.prems(1) by (auto split: if_splits)
    with True show ?thesis by (auto simp: bad_iff list_ex_iff)
  next
    case False
    then show ?thesis
      using Cons.prems(2) clash_commute by (auto simp: table_ok_def sorted_wrt_append)
  qed
  then have "table_ok check clash ((seen @ [?r]) @ rs)"
    using Cons.prems(2) clash_commute by (auto simp: table_ok_def sorted_wrt_append)
  then show ?case by (rule Cons.IH[OF step])
qed simp

lemma update_table:
  assumes "update_rows bad P f rows = Inr out" "table_ok check clash rows"
  shows "table_ok check clash out"
  using update_go_table[of P f "[]" rows out] assms by (simp add: update_rows_def)

lemma insert_table:
  assumes "insert_row bad r rows = Inr out" "table_ok check clash rows"
  shows "table_ok check clash out"
  using assms by (auto simp: insert_row_def table_ok_def sorted_wrt_append bad_iff list_ex_iff
      split: if_splits)

lemma no_clash:
  assumes "table_ok check clash rows" "i < length rows" "j < length rows" "i \<noteq> j"
  shows "\<not> clash (rows ! i) (rows ! j)"
  using assms clash_commute unfolding table_ok_def sorted_wrt_iff_nth_less
  by (metis linorder_neqE_nat)

lemma clash_unique:
  assumes "table_ok check clash rows" "r \<in> set rows" "s \<in> set rows" "clash r s"
  shows "r = s"
  using assms no_clash[OF assms(1)] by (metis in_set_conv_nth)

lemma table_append:
  "table_ok check clash (rows @ [r]) \<longleftrightarrow> table_ok check clash rows \<and> check r \<and> (\<forall>s\<in>set rows. \<not> clash r s)"
  by (auto simp: table_ok_def sorted_wrt_append)

lemma table_filter: "table_ok check clash rows \<Longrightarrow> table_ok check clash (filter P rows)"
  by (auto simp: table_ok_def list_all_iff intro: sorted_wrt_filter)

lemma table_map:
  assumes "\<And>r. check (f r) = check r" "\<And>r s. clash (f r) (f s) = clash r s"
  shows "table_ok check clash (map f rows) = table_ok check clash rows"
  using assms by (simp add: table_ok_def list.pred_map comp_def sorted_wrt_map)

text \<open>A rewriting that keeps every row within the checks and makes no rows clash succeeds.\<close>

lemma update_succeeds:
  assumes ok: "table_ok check clash rows"
    and row: "\<And>r. r \<in> set rows \<Longrightarrow> P r \<Longrightarrow> check (f r)"
    and pair: "\<And>r s. r \<in> set rows \<Longrightarrow> s \<in> set rows \<Longrightarrow> P r \<Longrightarrow> \<not> clash r s \<Longrightarrow>
        \<not> clash (f r) s \<and> (P s \<longrightarrow> \<not> clash (f r) (f s))"
  shows "update_rows bad P f rows = Inr (map (\<lambda>x. if P x then f x else x) rows)"
proof (rule update_rows_map)
  fix r us vs assume r: "P r" "rows = us @ r # vs"
  have "\<not> clash r s" if "s \<in> set us \<union> set vs" for s
    using ok that clash_commute by (auto simp: r(2) table_ok_def sorted_wrt_append)
  then show "\<not> bad (f r) (map (\<lambda>x. if P x then f x else x) us @ vs)"
    using row[of r] pair[of r] r by (auto simp: bad_iff list_ex_iff)
qed

end

end
