(* ===== verification/Task_Table.thy ===== *)
theory Task_Table
  imports Store
begin

text \<open>
  The task ledger's tables: the constraints of the data definition and the row decoders
  of \<^verbatim>\<open>atm-storage-rusqlite/src/task_store.rs\<close>, the read projections of \<^verbatim>\<open>task_sql.rs\<close>,
  and the queue primitives of \<^verbatim>\<open>writer/task_ops.rs\<close>: reading a member's queue,
  inserting at a placement, renumbering, and appending a task event.
\<close>

section \<open>Constraints of the tasks table\<close>

definition row_open :: "TaskCols \<Rightarrow> bool" where
  "row_open r \<longleftrightarrow> tc_state r \<noteq> ''complete''"

definition tasks_check :: "TaskCols \<Rightarrow> bool" where
  "tasks_check r \<longleftrightarrow>
     tc_state r \<in> {''assigned'', ''active'', ''complete''} \<and>
     (case tc_close_outcome r of None \<Rightarrow> True
      | Some o' \<Rightarrow> o' \<in> {''completed'', ''refused'', ''cancelled''}) \<and>
     (case tc_position r of None \<Rightarrow> True | Some p \<Rightarrow> p \<ge> 1) \<and>
     (tc_state r = ''complete'') = (tc_close_outcome r \<noteq> None) \<and>
     (tc_state r = ''complete'') = (tc_position r = None)"

text \<open>The primary key and the partial unique index \<^verbatim>\<open>tasks_position_per_member\<close>.\<close>

definition tasks_clash :: "TaskCols \<Rightarrow> TaskCols \<Rightarrow> bool" where
  "tasks_clash r s \<longleftrightarrow>
     tc_team r = tc_team s \<and>
     (tc_task_id r = tc_task_id s \<or>
      row_open r \<and> row_open s \<and> tc_assignee r = tc_assignee s \<and>
      tc_position r = tc_position s \<and> tc_position r \<noteq> None)"

definition tasks_bad :: "TaskCols \<Rightarrow> TaskCols list \<Rightarrow> bool" where
  "tasks_bad r others \<longleftrightarrow> \<not> tasks_check r \<or> list_ex (tasks_clash r) others"

definition task_events_bad :: "EventCols \<Rightarrow> EventCols list \<Rightarrow> bool" where
  "task_events_bad e others \<longleftrightarrow>
     \<not> (case ec_close_outcome e of None \<Rightarrow> True
        | Some o' \<Rightarrow> o' \<in> {''completed'', ''refused'', ''cancelled''}) \<or>
     \<not> (case ec_outcome e of None \<Rightarrow> True
        | Some o' \<Rightarrow> o' \<in> {''emitted'', ''unrenderable'', ''blocked''}) \<or>
     \<not> (case ec_marker e of None \<Rightarrow> True
        | Some m \<Rightarrow> m \<in> {''resend'', ''assignment_missing''}) \<or>
     list_ex (\<lambda>x. ec_team x = ec_team e \<and> ec_task_id x = ec_task_id e \<and> ec_seq x = ec_seq e) others"

section \<open>Decoding rows\<close>

definition sql_invalid :: "string \<Rightarrow> string \<Rightarrow> sql_error" where
  "sql_invalid value subject = ConversionFailure (''invalid '' @ subject @ '': '' @ value)"

definition sql_parse :: "(string \<Rightarrow> AtmError + 'a) \<Rightarrow> string \<Rightarrow> string \<Rightarrow> sql_error + 'a" where
  "sql_parse from_str value subject =
     map_err (\<lambda>error. ConversionFailure (''invalid '' @ subject @ '': '' @ err_message error))
       (from_str value)"

definition get_u32 :: "int \<Rightarrow> sql_error + 32 word" where
  "get_u32 i = (if 0 \<le> i \<and> i < 2 ^ 32 then Inr (word_of_int i) else Inl (IntegralValueOutOfRange i))"

definition parse_close_outcome :: "string \<Rightarrow> sql_error + TaskCloseOutcome" where
  "parse_close_outcome value =
     (if value = ''completed'' then Inr Completed
      else if value = ''refused'' then Inr Refused
      else if value = ''cancelled'' then Inr Cancelled
      else Inl (sql_invalid value ''task close outcome''))"

text \<open>\<^verbatim>\<open>Option::map(f).transpose()\<close>.\<close>

definition transposeE :: "('a \<Rightarrow> 'e + 'b) \<Rightarrow> 'a option \<Rightarrow> 'e + 'b option" where
  "transposeE f x = (case x of None \<Rightarrow> Inr None | Some v \<Rightarrow> mapE Some (f v))"

definition parse_state :: "string \<Rightarrow> string option \<Rightarrow> sql_error + TaskState" where
  "parse_state value outcome =
     bindE (if value = ''assigned'' then Inr TagAssigned
            else if value = ''active'' then Inr TagActive
            else if value = ''complete'' then Inr TagComplete
            else Inl (sql_invalid value ''task state'')) (\<lambda>tag.
     bindE (transposeE parse_close_outcome outcome) (\<lambda>o'.
     map_err (\<lambda>error. sql_invalid (err_message error) ''task state'') (from_parts tag o')))"

definition parse_event :: "string \<Rightarrow> sql_error + TaskEventKind" where
  "parse_event value =
     (if value = ''assigned'' then Inr KAssigned
      else if value = ''acked'' then Inr KAcked
      else if value = ''started'' then Inr KStarted
      else if value = ''completed'' then Inr KCompleted
      else if value = ''refused'' then Inr KRefused
      else if value = ''cancelled'' then Inr KCancelled
      else if value = ''reassigned'' then Inr KReassigned
      else if value = ''reopened'' then Inr KReopened
      else if value = ''rejected'' then Inr KRejected
      else if value = ''reminded'' then Inr KReminded
      else if value = ''lead_notified'' then Inr KLeadNotified
      else if value = ''moved'' then Inr KMoved
      else if value = ''migrated'' then Inr KMigrated
      else if value = ''reminders_reset'' then Inr KRemindersReset
      else Inl (sql_invalid value ''task event''))"

definition parse_outcome :: "string \<Rightarrow> sql_error + ReminderOutcome" where
  "parse_outcome value =
     (if value = ''emitted'' then Inr Emitted
      else if value = ''unrenderable'' then Inr Unrenderable
      else if value = ''blocked'' then Inr Blocked
      else Inl (sql_invalid value ''reminder outcome''))"

definition parse_marker :: "string \<Rightarrow> sql_error + TaskEventMarker" where
  "parse_marker value =
     (if value = ''resend'' then Inr Resend
      else if value = ''assignment_missing'' then Inr AssignmentMissing
      else Inl (sql_invalid value ''task marker''))"

definition decode_row :: "TaskCols \<Rightarrow> sql_error + TaskRow" where
  "decode_row row =
     bindE (transposeE get_u32 (tc_position row)) (\<lambda>position.
     bindE (get_u32 (tc_reminder_count row)) (\<lambda>reminder_count.
     bindE (get_u32 (tc_lead_notified_count row)) (\<lambda>lead_notified_count.
     bindE (sql_parse TeamName_from_str (tc_team row) ''task team'') (\<lambda>team.
     bindE (sql_parse TaskId_from_str (tc_task_id row) ''task id'') (\<lambda>task_id.
     bindE (sql_parse AgentName_from_str (tc_assignee row) ''task assignee'') (\<lambda>assignee.
     bindE (sql_parse AgentName_from_str (tc_assigner row) ''task assigner'') (\<lambda>assigner.
     bindE (parse_state (tc_state row) (tc_close_outcome row)) (\<lambda>st.
     Inr \<lparr>tr_team = team, tr_task_id = task_id, tr_assignee = assignee, tr_assigner = assigner,
          tr_state = st, tr_position = Option.bind position QueuePosition_new,
          tr_assignment_message_id = tc_assignment_message_id row,
          tr_description = tc_description row, tr_assigned_at = tc_assigned_at row,
          tr_updated_at = tc_updated_at row, tr_last_reminded_at = tc_last_reminded_at row,
          tr_reminder_count = reminder_count,
          tr_lead_notified_count = lead_notified_count\<rparr>))))))))"

definition DAEMON_ACTOR_NAME :: string where
  "DAEMON_ACTOR_NAME = ''atm-daemon''"

definition event_column_state :: "string option \<Rightarrow> string \<Rightarrow> sql_error + TaskState" where
  "event_column_state outcome st =
     parse_state st (if st = ''complete'' then outcome else None)"

definition decode_event_row :: "EventCols \<Rightarrow> sql_error + TaskEventRow" where
  "decode_event_row row =
     bindE (sql_parse TeamName_from_str (ec_team row) ''event team'') (\<lambda>team.
     bindE (sql_parse TaskId_from_str (ec_task_id row) ''event task id'') (\<lambda>task_id.
     bindE (sql_parse AgentName_from_str (ec_assignee row) ''event assignee'') (\<lambda>assignee.
     bindE (parse_event (ec_event row)) (\<lambda>event.
     bindE (transposeE (event_column_state (ec_close_outcome row)) (ec_from_state row)) (\<lambda>from_state.
     bindE (transposeE (event_column_state (ec_close_outcome row)) (ec_to_state row)) (\<lambda>to_state.
     bindE (if ec_actor row = DAEMON_ACTOR_NAME then Inr Daemon
            else mapE Member (sql_parse AgentName_from_str (ec_actor row) ''event actor'')) (\<lambda>actor.
     bindE (transposeE parse_outcome (ec_outcome row)) (\<lambda>outcome.
     bindE (transposeE parse_marker (ec_marker row)) (\<lambda>marker.
     Inr \<lparr>te_team = team, te_task_id = task_id, te_assignee = assignee, te_seq = ec_seq row,
          te_at = ec_at row, te_event = event, te_from_state = from_state,
          te_to_state = to_state, te_actor = actor, te_message_id = ec_message_id row,
          te_outcome = outcome, te_marker = marker, te_detail = ec_detail row\<rparr>)))))))))"

section \<open>Read projections\<close>

definition is_task :: "string \<Rightarrow> string \<Rightarrow> TaskCols \<Rightarrow> bool" where
  "is_task team task_id r \<longleftrightarrow> tc_team r = team \<and> tc_task_id r = task_id"

definition member_open :: "string \<Rightarrow> string \<Rightarrow> TaskCols \<Rightarrow> bool" where
  "member_open team assignee r \<longleftrightarrow> tc_team r = team \<and> tc_assignee r = assignee \<and> row_open r"

definition select_task_row :: "TeamName \<Rightarrow> TaskId \<Rightarrow> db \<Rightarrow> sql_error + TaskRow option" where
  "select_task_row team task_id d = transposeE decode_row (find (is_task team task_id) (db_tasks d))"

definition select_open_tasks_for_member ::
  "TeamName \<Rightarrow> AgentName \<Rightarrow> db \<Rightarrow> sql_error + TaskRow list" where
  "select_open_tasks_for_member team assignee d =
     collectE decode_row
       (sort_key (\<lambda>r. (tc_position r, tc_assigned_at r, tc_task_id r))
         (filter (member_open team assignee) (db_tasks d)))"

definition select_open_tasks_for_team :: "TeamName \<Rightarrow> db \<Rightarrow> sql_error + TaskRow list" where
  "select_open_tasks_for_team team d =
     collectE decode_row
       (sort_key (\<lambda>r. (tc_assignee r, tc_position r, tc_assigned_at r, tc_task_id r))
         (filter (\<lambda>r. tc_team r = team \<and> row_open r) (db_tasks d)))"

definition team_recency_rows :: "TeamName \<Rightarrow> AgentName option \<Rightarrow> db \<Rightarrow> TaskCols list" where
  "team_recency_rows team member d =
     rev (sort_key (\<lambda>r. (tc_assigned_at r, tc_task_id r))
       (filter (\<lambda>r. tc_team r = team \<and> (member = None \<or> member = Some (tc_assignee r))) (db_tasks d)))"

definition select_tasks_for_team :: "TeamName \<Rightarrow> AgentName option \<Rightarrow> db \<Rightarrow> sql_error + TaskRow list" where
  "select_tasks_for_team team member d = collectE decode_row (team_recency_rows team member d)"

definition clamp_limit_to_i64 :: "nat \<Rightarrow> int" where
  "clamp_limit_to_i64 limit = min (int limit) (2 ^ 63 - 1)"

definition select_task_history ::
  "TeamName \<Rightarrow> AgentName option \<Rightarrow> nat \<Rightarrow> db \<Rightarrow> sql_error + TaskRow list" where
  "select_task_history team member limit d =
     collectE decode_row (take (nat (clamp_limit_to_i64 limit)) (team_recency_rows team member d))"

definition task_event_rows :: "TeamName \<Rightarrow> TaskId \<Rightarrow> db \<Rightarrow> EventCols list" where
  "task_event_rows team task_id d =
     filter (\<lambda>e. ec_team e = team \<and> ec_task_id e = task_id) (db_task_events d)"

definition select_task_events ::
  "TeamName \<Rightarrow> TaskId \<Rightarrow> AgentName option \<Rightarrow> db \<Rightarrow> sql_error + TaskEventRow list" where
  "select_task_events team task_id member d =
     collectE decode_event_row
       (sort_key ec_seq
         (filter (\<lambda>e. member = None \<or> member = Some (ec_assignee e)) (task_event_rows team task_id d)))"

record RefusalRun =
  rr_count :: "32 word"
  rr_started_at :: "IsoTimestamp option"

definition refusal_relevant :: "string \<Rightarrow> bool" where
  "refusal_relevant event \<longleftrightarrow>
     event \<in> {''assigned'', ''reassigned'', ''reopened'', ''completed'', ''refused'', ''cancelled''}"

definition trailing_refusal_run :: "TeamName \<Rightarrow> AgentName \<Rightarrow> db \<Rightarrow> RefusalRun" where
  "trailing_refusal_run team assignee d =
     (let rows = rev (filter (\<lambda>e. ec_team e = team \<and> ec_assignee e = assignee
                        \<and> refusal_relevant (ec_event e)) (db_task_events d));
          refused = takeWhile (\<lambda>e. ec_event e = ''refused'') rows
      in \<lparr>rr_count = (if length refused < 2 ^ 32 then of_nat (length refused) else - 1),
          rr_started_at = (if refused = [] then None else Some (ec_at (last refused)))\<rparr>)"

definition load_task_row :: "env \<Rightarrow> TeamName \<Rightarrow> TaskId \<Rightarrow> db \<Rightarrow> AtmError + TaskRow option" where
  "load_task_row env team task_id d =
     map_err (sqlite_error env ''failed to load task row'') (select_task_row team task_id d)"

section \<open>Rejections\<close>

definition task_not_found :: "string \<Rightarrow> AtmError" where
  "task_not_found detail = AtmError_new (MailboxOrValidation TaskNotFound) detail"

definition task_already_closed :: "string \<Rightarrow> AtmError" where
  "task_already_closed detail = AtmError_new (MailboxOrValidation TaskAlreadyClosed) detail"

definition task_already_active :: "string \<Rightarrow> AtmError" where
  "task_already_active detail = AtmError_new (MailboxOrValidation TaskAlreadyActive) detail"

definition task_not_counterparty :: "string \<Rightarrow> AtmError" where
  "task_not_counterparty detail = AtmError_new (MailboxOrValidation TaskNotCounterparty) detail"

definition task_stale_counterparty :: "string \<Rightarrow> AtmError" where
  "task_stale_counterparty detail = AtmError_new (MailboxOrValidation TaskStaleCounterparty) detail"

definition task_move_invalid :: "string \<Rightarrow> AtmError" where
  "task_move_invalid detail = AtmError_new (MailboxOrValidation TaskMoveInvalid) detail"

definition task_max_active_reached :: "string \<Rightarrow> string \<Rightarrow> AtmError" where
  "task_max_active_reached detail recovery =
     with_recovery (MailboxOrValidation TaskMaxActiveReached) detail recovery"

definition is_task_rejection :: "AtmErrorCode \<Rightarrow> bool" where
  "is_task_rejection c \<longleftrightarrow>
     c \<in> {MailboxOrValidation TaskNotFound, MailboxOrValidation TaskAlreadyActive,
          MailboxOrValidation TaskAlreadyClosed, MailboxOrValidation TaskNotCounterparty,
          MailboxOrValidation TaskStaleCounterparty, MailboxOrValidation TaskMoveInvalid,
          MailboxOrValidation TaskMaxActiveReached}"

section \<open>Queues\<close>

text \<open>The rows of \<^verbatim>\<open>ORDER BY position, task_id\<close>.\<close>

definition queue_rows :: "TeamName \<Rightarrow> AgentName \<Rightarrow> db \<Rightarrow> TaskCols list" where
  "queue_rows team assignee d =
     sort_key (\<lambda>r. (tc_position r, tc_task_id r)) (filter (member_open team assignee) (db_tasks d))"

definition queue_order :: "TeamName \<Rightarrow> AgentName \<Rightarrow> db \<Rightarrow> AtmError + TaskId list" where
  "queue_order team assignee d =
     collectE (\<lambda>r. map_err (\<lambda>error. task_move_invalid (''invalid queued task id: '' @ err_message error))
                 (TaskId_from_str (tc_task_id r)))
       (queue_rows team assignee d)"

text \<open>\<^verbatim>\<open>Vec::insert\<close> and \<^verbatim>\<open>iter().position(..)\<close>.\<close>

definition insert_at :: "nat \<Rightarrow> 'a \<Rightarrow> 'a list \<Rightarrow> 'a list" where
  "insert_at i x xs = take i xs @ x # drop i xs"

fun position_of :: "'a \<Rightarrow> 'a list \<Rightarrow> nat option" where
  "position_of x [] = None"
| "position_of x (y # ys) = (if y = x then Some 0 else map_option Suc (position_of x ys))"

definition placement_invalid :: "TaskId \<Rightarrow> TaskId \<Rightarrow> AgentName \<Rightarrow> AtmError" where
  "placement_invalid task_id other assignee = task_move_invalid
     (''task '' @ task_id @ '': placement target '' @ other @ '' is not an open queued task of '' @ assignee)"

definition placement_index ::
  "env \<Rightarrow> TaskId list \<Rightarrow> TaskId \<Rightarrow> MoveTarget \<Rightarrow> TeamName \<Rightarrow> AgentName \<Rightarrow> db \<Rightarrow> AtmError + nat" where
  "placement_index env order task_id placement team assignee d =
     (case placement of
        MoveEnd \<Rightarrow> Inr (length order)
      | MoveHead \<Rightarrow>
          Inr (length (takeWhile (\<lambda>st. st = TaskState_as_str Active)
            (map tc_state (filter (\<lambda>r. tc_task_id r \<noteq> task_id) (queue_rows team assignee d)))))
      | MoveBefore other \<Rightarrow>
          bindE (load_task_row env team other d) (\<lambda>row.
            if \<not> (case row of None \<Rightarrow> False
                   | Some r \<Rightarrow> tr_assignee r = assignee \<and> tr_state r = Assigned)
            then Inl (placement_invalid task_id other assignee)
            else (case position_of other order of
                    None \<Rightarrow> Inl (placement_invalid task_id other assignee)
                  | Some i \<Rightarrow> Inr i)))"

definition insert_at_placement ::
  "env \<Rightarrow> TaskId list \<Rightarrow> TaskId \<Rightarrow> MoveTarget \<Rightarrow> TeamName \<Rightarrow> AgentName \<Rightarrow> db
   \<Rightarrow> AtmError + TaskId list" where
  "insert_at_placement env order task_id placement team assignee d =
     bindE (placement_index env order task_id placement team assignee d) (\<lambda>index.
       Inr (insert_at index task_id order))"

definition i64_max :: int where
  "i64_max = 2 ^ 63 - 1"

definition run_update ::
  "env \<Rightarrow> string \<Rightarrow> (TaskCols \<Rightarrow> bool) \<Rightarrow> (TaskCols \<Rightarrow> TaskCols) \<Rightarrow> db \<Rightarrow> AtmError + db" where
  "run_update env what P f d =
     bindE (map_err (sqlite_error env what) (update_rows tasks_bad P f (db_tasks d)))
       (\<lambda>rows. Inr (d\<lparr>db_tasks := rows\<rparr>))"

text \<open>\<^verbatim>\<open>COALESCE(MAX(position), 0)\<close>.\<close>

definition max_position :: "TaskCols list \<Rightarrow> int" where
  "max_position rows =
     (case List.map_filter tc_position rows of [] \<Rightarrow> 0 | p # ps \<Rightarrow> foldl max p ps)"

fun write_queue_go :: "env \<Rightarrow> TeamName \<Rightarrow> nat \<Rightarrow> TaskId list \<Rightarrow> db \<Rightarrow> AtmError + db" where
  "write_queue_go env team index [] d = Inr d"
| "write_queue_go env team index (task_id # order) d =
     (if int (index + 1) > i64_max then Inl (task_move_invalid ''task queue too large'')
      else bindE (run_update env ''failed to renumber task queue'' (is_task team task_id)
                   (\<lambda>r. r\<lparr>tc_position := Some (int (index + 1))\<rparr>) d)
             (write_queue_go env team (index + 1) order))"

definition write_queue_positions :: "env \<Rightarrow> TeamName \<Rightarrow> TaskId list \<Rightarrow> db \<Rightarrow> AtmError + db" where
  "write_queue_positions env team order d = write_queue_go env team 0 order d"

definition offset_positions :: "int \<Rightarrow> TaskCols \<Rightarrow> TaskCols" where
  "offset_positions k r = r\<lparr>tc_position := map_option (\<lambda>p. p + k) (tc_position r)\<rparr>"

definition renumber_queue ::
  "env \<Rightarrow> TeamName \<Rightarrow> AgentName \<Rightarrow> TaskId list \<Rightarrow> db \<Rightarrow> AtmError + db" where
  "renumber_queue env team assignee order d =
     (let maximum = max_position (filter (member_open team assignee) (db_tasks d));
          offset = maximum + int (length order)
      in if int (length order) > i64_max then Inl (task_move_invalid ''task queue too large'')
         else if offset > i64_max then Inl (task_move_invalid ''task queue too large'')
         else
           bindE (run_update env ''failed to offset task queue'' (member_open team assignee)
                   (offset_positions offset) d) (\<lambda>d1.
           bindE (write_queue_positions env team order d1) (\<lambda>d2.
             let rows = filter (member_open team assignee) (db_tasks d2)
             in if int (length rows) \<noteq> max_position rows then
                  Inl (task_move_invalid (''task queue for '' @ assignee @ '' is not contiguous''))
                else Inr d2)))"

section \<open>Task events\<close>

record TaskEventDraft =
  dr_team :: TeamName
  dr_task_id :: TaskId
  dr_assignee :: AgentName
  dr_at :: IsoTimestamp
  dr_event :: TaskEventKind
  dr_from_state :: "TaskStateTag option"
  dr_to_state :: "TaskStateTag option"
  dr_close_outcome :: "TaskCloseOutcome option"
  dr_actor :: AgentName
  dr_message_id :: "AtmMessageId option"
  dr_outcome :: "ReminderOutcome option"
  dr_marker :: "TaskEventMarker option"
  dr_detail :: "string option"

definition task_state_tag_name :: "TaskStateTag \<Rightarrow> string" where
  "task_state_tag_name st =
     (case st of TagAssigned \<Rightarrow> ''assigned'' | TagActive \<Rightarrow> ''active'' | TagComplete \<Rightarrow> ''complete'')"

definition task_event_state ::
  "TaskStateTag option \<Rightarrow> TaskCloseOutcome option \<Rightarrow> AtmError + TaskState option" where
  "task_event_state tag outcome =
     transposeE (\<lambda>t. from_parts t (if t = TagComplete then outcome else None)) tag"

definition next_event_seq :: "TeamName \<Rightarrow> TaskId \<Rightarrow> db \<Rightarrow> nat" where
  "next_event_seq team task_id d =
     (case map ec_seq (task_event_rows team task_id d) of [] \<Rightarrow> 0 | n # ns \<Rightarrow> foldl max n ns) + 1"

definition task_actor_of :: "string \<Rightarrow> TaskActor" where
  "task_actor_of actor = (if actor = DAEMON_ACTOR_NAME then Daemon else Member actor)"

definition append_task_event ::
  "env \<Rightarrow> TaskEventDraft \<Rightarrow> db \<Rightarrow> AtmError + (db \<times> TaskEventRow)" where
  "append_task_event env draft d =
     bindE (task_event_state (dr_from_state draft) (dr_close_outcome draft)) (\<lambda>from_state.
     bindE (task_event_state (dr_to_state draft) (dr_close_outcome draft)) (\<lambda>to_state.
     let seq = next_event_seq (dr_team draft) (dr_task_id draft) d;
         cols = \<lparr>ec_team = dr_team draft, ec_task_id = dr_task_id draft,
           ec_assignee = dr_assignee draft, ec_seq = seq, ec_at = dr_at draft,
           ec_event = TaskEventKind_as_str (dr_event draft),
           ec_from_state = map_option task_state_tag_name (dr_from_state draft),
           ec_to_state = map_option task_state_tag_name (dr_to_state draft),
           ec_close_outcome = map_option TaskCloseOutcome_as_str (dr_close_outcome draft),
           ec_actor = dr_actor draft, ec_message_id = dr_message_id draft,
           ec_outcome = map_option ReminderOutcome_as_str (dr_outcome draft),
           ec_marker = map_option TaskEventMarker_as_str (dr_marker draft),
           ec_detail = dr_detail draft\<rparr>
     in bindE (map_err (sqlite_error env ''failed to append task event'')
                (insert_row task_events_bad cols (db_task_events d))) (\<lambda>events.
        Inr (d\<lparr>db_task_events := events\<rparr>,
          \<lparr>te_team = dr_team draft, te_task_id = dr_task_id draft,
           te_assignee = dr_assignee draft, te_seq = seq, te_at = dr_at draft,
           te_event = dr_event draft, te_from_state = from_state, te_to_state = to_state,
           te_actor = task_actor_of (dr_actor draft), te_message_id = dr_message_id draft,
           te_outcome = dr_outcome draft, te_marker = dr_marker draft,
           te_detail = dr_detail draft\<rparr>))))"

end
