(* ===== verification/Task_Queue.thy ===== *)
theory Task_Queue
  imports Task_Table
begin

text \<open>
  Renumbering a queue never trips the unique position index.  The two statements of
  \<^verbatim>\<open>renumber_queue\<close> are run row by row on a table that satisfies its constraints; the
  offset moves every position of the member above the range written next, so each
  single write lands on a free position, and the member ends with positions
  \<open>1, 2, ..., n\<close> in the requested order while no other row changes.
\<close>

section \<open>Tables that satisfy their constraints\<close>

lemma not_distinct_map_filter:
  "\<not> distinct (map f (filter P xs)) \<Longrightarrow>
   \<exists>us x vs y. xs = us @ x # vs \<and> y \<in> set vs \<and> P x \<and> P y \<and> f x = f y"
proof (induction xs)
  case (Cons x xs)
  show ?case
  proof (cases "distinct (map f (filter P xs))")
    case True
    with Cons.prems obtain y where "P x" "y \<in> set xs" "P y" "f x = f y"
      by (auto split: if_splits simp: image_iff)
    then show ?thesis by (intro exI[of _ "[]"] exI[of _ x] exI[of _ xs] exI[of _ y]) simp
  next
    case False
    with Cons.IH obtain us z vs y where "xs = us @ z # vs" "y \<in> set vs" "P z" "P y" "f z = f y"
      by blast
    then show ?thesis by (intro exI[of _ "x # us"] exI[of _ z] exI[of _ vs] exI[of _ y]) simp
  qed
qed simp

definition task_key :: "TaskCols \<Rightarrow> string \<times> string" where
  "task_key r = (tc_team r, tc_task_id r)"

definition tasks_ok :: "TaskCols list \<Rightarrow> bool" where
  "tasks_ok ts \<longleftrightarrow>
     list_all tasks_check ts \<and> distinct (map task_key ts) \<and>
     (\<forall>team assignee. distinct (map tc_position (filter (member_open team assignee) ts)))"

lemma position_of_None_iff: "position_of x xs = None \<longleftrightarrow> x \<notin> set xs"
  by (induction xs) auto

lemma position_of_None [simp]: "x \<notin> set xs \<Longrightarrow> position_of x xs = None"
  by (simp add: position_of_None_iff)

lemma position_of_SomeD: "position_of x xs = Some i \<Longrightarrow> i < length xs \<and> xs ! i = x"
  by (induction xs arbitrary: i) (auto split: if_splits)

lemma position_of_nth: "distinct xs \<Longrightarrow> i < length xs \<Longrightarrow> position_of (xs ! i) xs = Some i"
proof (induction xs arbitrary: i)
  case (Cons x xs)
  then show ?case by (cases i) auto
qed simp

lemma position_of_mem: "x \<in> set xs \<Longrightarrow> \<exists>i. position_of x xs = Some i"
  using position_of_None_iff by (metis option.exhaust)

lemma position_of_inj:
  "position_of x xs = Some i \<Longrightarrow> position_of y xs = Some i \<Longrightarrow> x = y"
  using position_of_SomeD by metis

lemma tasks_check_open:
  "tasks_check r \<Longrightarrow> row_open r \<Longrightarrow> \<exists>p. tc_position r = Some p \<and> p \<ge> 1"
  by (auto simp: tasks_check_def row_open_def split: option.splits)

lemma member_open_position [simp]:
  "member_open team a (r\<lparr>tc_position := p\<rparr>) = member_open team a r"
  "row_open (r\<lparr>tc_position := p\<rparr>) = row_open r"
  "is_task team i (r\<lparr>tc_position := p\<rparr>) = is_task team i r"
  "task_key (r\<lparr>tc_position := p\<rparr>) = task_key r"
  by (simp_all add: member_open_def row_open_def is_task_def task_key_def)

lemma tasks_check_position:
  "tasks_check r \<Longrightarrow> row_open r \<Longrightarrow> p \<ge> 1 \<Longrightarrow> tasks_check (r\<lparr>tc_position := Some p\<rparr>)"
  by (auto simp: tasks_check_def row_open_def)

lemma offset_positions_sel [simp]:
  "member_open team a (offset_positions k r) = member_open team a r"
  "row_open (offset_positions k r) = row_open r"
  "task_key (offset_positions k r) = task_key r"
  "tc_team (offset_positions k r) = tc_team r"
  "tc_task_id (offset_positions k r) = tc_task_id r"
  "tc_assignee (offset_positions k r) = tc_assignee r"
  "tc_state (offset_positions k r) = tc_state r"
  "tc_position (offset_positions k r) = map_option (\<lambda>p. p + k) (tc_position r)"
  by (simp_all add: offset_positions_def)

text \<open>Two rows of a table with distinct keys that stand at different places have
  different keys.\<close>

lemma distinct_keys_split:
  assumes "distinct (map task_key ts)" "ts = us @ r # vs" "s \<in> set us \<union> set vs"
  shows "task_key s \<noteq> task_key r" "s \<noteq> r"
  using assms by (auto simp: image_iff)

lemma tasks_ok_positions:
  assumes "tasks_ok ts" "ts = us @ r # vs" "s \<in> set us \<union> set vs"
    "member_open team a r" "member_open team a s"
  shows "tc_position s \<noteq> tc_position r"
proof -
  have "distinct (map tc_position (filter (member_open team a) ts))"
    using assms(1) by (simp add: tasks_ok_def)
  then show ?thesis using assms(2-) by (auto simp: image_iff)
qed

section \<open>Writing positions\<close>

definition reposition :: "TeamName \<Rightarrow> AgentName \<Rightarrow> TaskId list \<Rightarrow> TaskCols \<Rightarrow> TaskCols" where
  "reposition team assignee order r =
     (if member_open team assignee r then
        (case position_of (tc_task_id r) order of
           None \<Rightarrow> r
         | Some i \<Rightarrow> r\<lparr>tc_position := Some (int (i + 1))\<rparr>)
      else r)"

lemma reposition_Nil [simp]: "reposition team a [] = id"
  by (rule ext) (simp add: reposition_def)

lemma reposition_sel [simp]:
  "tc_team (reposition team a order r) = tc_team r"
  "tc_task_id (reposition team a order r) = tc_task_id r"
  "tc_assignee (reposition team a order r) = tc_assignee r"
  "tc_assigner (reposition team a order r) = tc_assigner r"
  "tc_state (reposition team a order r) = tc_state r"
  "tc_close_outcome (reposition team a order r) = tc_close_outcome r"
  "tc_reminder_count (reposition team a order r) = tc_reminder_count r"
  "tc_lead_notified_count (reposition team a order r) = tc_lead_notified_count r"
  "member_open t b (reposition team a order r) = member_open t b r"
  "row_open (reposition team a order r) = row_open r"
  "is_task t i (reposition team a order r) = is_task t i r"
  "task_key (reposition team a order r) = task_key r"
  by (auto simp: reposition_def split: option.splits)

lemma reposition_id: "\<not> member_open team a r \<Longrightarrow> reposition team a order r = r"
  by (simp add: reposition_def)

text \<open>One step: the row that holds the next identifier of the order moves to its place.\<close>

lemma reposition_snoc:
  assumes "distinct (order @ [i])" "member_open team a r \<or> tc_task_id r \<noteq> i \<or> tc_team r \<noteq> team"
  shows "reposition team a (order @ [i]) r =
    (if is_task team i (reposition team a order r)
     then (reposition team a order r)\<lparr>tc_position := Some (int (length order + 1))\<rparr>
     else reposition team a order r)"
proof -
  have app: "position_of x (order @ [i]) =
     (if x \<in> set order then position_of x order else if x = i then Some (length order) else None)" for x
    by (induction order) auto
  show ?thesis
    using assms by (auto simp: reposition_def app is_task_def member_open_def split: option.splits)
qed

section \<open>Facts of a consistent table\<close>

lemma tasks_ok_check: "tasks_ok ts \<Longrightarrow> r \<in> set ts \<Longrightarrow> tasks_check r"
  by (simp add: tasks_ok_def list_all_iff)

lemma tasks_ok_key_inj:
  "tasks_ok ts \<Longrightarrow> r \<in> set ts \<Longrightarrow> s \<in> set ts \<Longrightarrow> task_key r = task_key s \<Longrightarrow> r = s"
  by (simp add: tasks_ok_def distinct_map inj_on_def)

lemma tasks_ok_pos_inj:
  assumes "tasks_ok ts" "r \<in> set ts" "s \<in> set ts" "member_open team a r" "member_open team a s"
    "tc_position r = tc_position s"
  shows "r = s"
proof -
  have "distinct (map tc_position (filter (member_open team a) ts))"
    using assms(1) by (simp add: tasks_ok_def)
  then show ?thesis using assms(2-) by (auto simp: distinct_map inj_on_def)
qed

text \<open>A table is consistent when every row passes the checks and no two rows at
  different places clash.\<close>

lemma tasks_ok_iff_no_clash:
  "tasks_ok ts \<longleftrightarrow> list_all tasks_check ts \<and>
     (\<forall>us r vs. ts = us @ r # vs \<longrightarrow> (\<forall>s\<in>set us \<union> set vs. \<not> tasks_clash r s))"
  (is "_ \<longleftrightarrow> ?checks \<and> ?free")
proof
  assume ok: "tasks_ok ts"
  have ?free
  proof (intro allI impI ballI)
    fix us r vs s
    assume split: "ts = us @ r # vs" and s: "s \<in> set us \<union> set vs"
    have "distinct (map task_key ts)" using ok by (simp add: tasks_ok_def)
    then have "task_key s \<noteq> task_key r" using split s by (rule distinct_keys_split)
    moreover have "tc_position s \<noteq> tc_position r"
      if "member_open team a r" "member_open team a s" for team a
      using tasks_ok_positions[OF ok split s that] .
    ultimately show "\<not> tasks_clash r s"
      by (auto simp: tasks_clash_def task_key_def member_open_def)
  qed
  with ok show "?checks \<and> ?free" by (simp add: tasks_ok_def)
next
  assume "?checks \<and> ?free"
  then have checks: ?checks and free: ?free by auto
  have "distinct (map task_key (filter (\<lambda>_. True) ts))"
  proof (rule ccontr)
    assume "\<not> distinct (map task_key (filter (\<lambda>_. True) ts))"
    from not_distinct_map_filter[OF this] obtain us r vs s where
      "ts = us @ r # vs" "s \<in> set vs" "task_key r = task_key s" by blast
    with free show False by (auto simp: tasks_clash_def task_key_def)
  qed
  moreover have "distinct (map tc_position (filter (member_open team a) ts))" for team a
  proof (rule ccontr)
    assume "\<not> distinct (map tc_position (filter (member_open team a) ts))"
    from not_distinct_map_filter[OF this] obtain us r vs s where
      ts: "ts = us @ r # vs" "s \<in> set vs" and m: "member_open team a r" "member_open team a s"
      and p: "tc_position r = tc_position s" by blast
    from ts free have "\<not> tasks_clash r s" by auto
    moreover have "tasks_check r" using checks ts by (auto simp: list_all_iff)
    then have "tc_position r \<noteq> None"
      using m(1) tasks_check_open[of r] by (auto simp: member_open_def)
    ultimately show False using m p by (auto simp: tasks_clash_def member_open_def)
  qed
  ultimately show "tasks_ok ts" using checks by (simp add: tasks_ok_def)
qed

section \<open>Updates that keep a table consistent\<close>

definition pos_clash :: "TaskCols \<Rightarrow> TaskCols \<Rightarrow> bool" where
  "pos_clash r s \<longleftrightarrow> row_open r \<and> row_open s \<and> tc_team r = tc_team s \<and>
     tc_assignee r = tc_assignee s \<and> (\<exists>p. tc_position r = Some p \<and> tc_position s = Some p)"

lemma tasks_clash_alt: "tasks_clash r s \<longleftrightarrow> task_key r = task_key s \<or> pos_clash r s"
  by (auto simp: tasks_clash_def task_key_def pos_clash_def)

lemma pos_clash_sym: "pos_clash r s \<Longrightarrow> pos_clash s r"
  by (auto simp: pos_clash_def)

lemma tasks_ok_no_pos_clash:
  assumes "tasks_ok ts" "r \<in> set ts" "s \<in> set ts" "r \<noteq> s"
  shows "\<not> pos_clash r s"
proof
  assume "pos_clash r s"
  then have "member_open (tc_team r) (tc_assignee r) r" "member_open (tc_team r) (tc_assignee r) s"
    "tc_position r = tc_position s"
    by (auto simp: pos_clash_def member_open_def)
  with tasks_ok_pos_inj[OF assms(1-3)] assms(4) show False by blast
qed

lemma tasks_ok_map:
  assumes ok: "tasks_ok ts"
    and chk: "\<And>r. r \<in> set ts \<Longrightarrow> tasks_check (g r) \<and> task_key (g r) = task_key r"
    and free: "\<And>r s. r \<in> set ts \<Longrightarrow> s \<in> set ts \<Longrightarrow> r \<noteq> s \<Longrightarrow> \<not> pos_clash (g r) (g s)"
  shows "tasks_ok (map g ts)"
  unfolding tasks_ok_iff_no_clash
proof (intro conjI allI impI ballI)
  show "list_all tasks_check (map g ts)" using chk by (auto simp: list_all_iff)
  fix us r vs s
  assume "map g ts = us @ r # vs" and s: "s \<in> set us \<union> set vs"
  then obtain us' r' vs' where ts: "ts = us' @ r' # vs'"
    and im: "us = map g us'" "r = g r'" "vs = map g vs'"
    by (auto simp: map_eq_append_conv map_eq_Cons_conv)
  from s im obtain s' where s': "s' \<in> set us' \<union> set vs'" "s = g s'" by auto
  have "distinct (map task_key ts)" using ok by (simp add: tasks_ok_def)
  then have ne: "s' \<noteq> r'" "task_key s' \<noteq> task_key r'"
    using distinct_keys_split[OF _ ts s'(1)] by auto
  have mem: "r' \<in> set ts" "s' \<in> set ts" using ts s'(1) by auto
  have "task_key r \<noteq> task_key s" using ne chk mem im(2) s'(2) by auto
  moreover have "\<not> pos_clash r s" using free[of r' s'] mem ne im(2) s'(2) by auto
  ultimately show "\<not> tasks_clash r s" by (simp add: tasks_clash_alt)
qed

lemma update_tasks_ok:
  assumes ok: "tasks_ok ts"
    and chk: "\<And>r. r \<in> set ts \<Longrightarrow> P r \<Longrightarrow> tasks_check (f r) \<and> task_key (f r) = task_key r"
    and old: "\<And>r s. r \<in> set ts \<Longrightarrow> s \<in> set ts \<Longrightarrow> r \<noteq> s \<Longrightarrow> P r \<Longrightarrow> \<not> pos_clash (f r) s"
    and new: "\<And>r s. r \<in> set ts \<Longrightarrow> s \<in> set ts \<Longrightarrow> r \<noteq> s \<Longrightarrow> P r \<Longrightarrow> P s \<Longrightarrow>
        \<not> pos_clash (f r) (f s)"
  shows "update_rows tasks_bad P f ts = Inr (map (\<lambda>r. if P r then f r else r) ts)"
    and "tasks_ok (map (\<lambda>r. if P r then f r else r) ts)"
proof -
  let ?g = "\<lambda>r. if P r then f r else r"
  have keys: "distinct (map task_key ts)" using ok by (simp add: tasks_ok_def)
  have key_g: "task_key (?g r) = task_key r" if "r \<in> set ts" for r using chk that by auto
  show "update_rows tasks_bad P f ts = Inr (map ?g ts)"
  proof (rule update_rows_map)
    fix r us vs
    assume P: "P r" and split: "ts = us @ r # vs"
    have r: "r \<in> set ts" using split by simp
    have other: "s \<in> set ts \<and> s \<noteq> r \<and> task_key s \<noteq> task_key r" if "s \<in> set us \<union> set vs" for s
      using distinct_keys_split[OF keys split that] that split by auto
    have us: "\<not> tasks_clash (f r) (?g s)" if "s \<in> set us" for s
      using other[of s] that old[of r s] new[of r s] r P key_g[of s] chk[OF r P]
      by (auto simp: tasks_clash_alt)
    have vs: "\<not> tasks_clash (f r) s" if "s \<in> set vs" for s
      using other[of s] that old[of r s] r P chk[OF r P] by (auto simp: tasks_clash_alt)
    have "\<forall>x\<in>set (map ?g us @ vs). \<not> tasks_clash (f r) x"
      unfolding set_append set_map ball_Un ball_simps using us vs by blast
    then show "\<not> tasks_bad (f r) (map ?g us @ vs)"
      using chk[OF r P] by (simp add: tasks_bad_def list_ex_iff)
  qed
  have free: "\<not> pos_clash (?g r) (?g s)" if "r \<in> set ts" "s \<in> set ts" "r \<noteq> s" for r s
  proof (cases "P r")
    case True
    then show ?thesis using old[OF that] new[OF that] by auto
  next
    case False
    have "\<not> pos_clash (f s) r" if "P s"
      using old[of s r] that \<open>r \<in> set ts\<close> \<open>s \<in> set ts\<close> \<open>r \<noteq> s\<close> by blast
    then show ?thesis
      using False tasks_ok_no_pos_clash[OF ok that] pos_clash_sym by auto
  qed
  show "tasks_ok (map ?g ts)"
    by (rule tasks_ok_map[OF ok]) (use ok chk free in \<open>auto simp: tasks_ok_check\<close>)
qed

section \<open>The offset statement\<close>

lemma map_filter_Some_all:
  "(\<And>r. r \<in> set rs \<Longrightarrow> f r = Some (g r)) \<Longrightarrow> List.map_filter f rs = map g rs"
  by (induction rs) (auto simp: List.map_filter_simps)

lemma foldl_max_ge: "foldl max (p :: int) ps \<ge> p \<and> (\<forall>q\<in>set ps. foldl max p ps \<ge> q)"
proof (induction ps arbitrary: p)
  case (Cons q ps)
  from Cons[of "max p q"] show ?case by auto
qed simp

lemma foldl_max_in: "foldl max (p :: int) ps \<in> insert p (set ps)"
proof (induction ps arbitrary: p)
  case (Cons q ps)
  from Cons[of "max p q"] show ?case by (auto simp: max_def split: if_splits)
qed simp

lemma set_map_filter_Some: "set (List.map_filter f xs) = {p. Some p \<in> set (map f xs)}"
  by (induction xs) (auto simp: List.map_filter_simps split: option.splits)

lemma max_position_ge:
  assumes "r \<in> set rows" "tc_position r = Some p"
  shows "p \<le> max_position rows"
proof -
  have "p \<in> set (List.map_filter tc_position rows)"
    using assms by (force simp: set_map_filter_Some)
  then show ?thesis
    using foldl_max_ge by (auto simp: max_position_def split: list.splits)
qed

lemma max_position_nonneg:
  assumes "\<And>r p. r \<in> set rows \<Longrightarrow> tc_position r = Some p \<Longrightarrow> p \<ge> 0"
  shows "max_position rows \<ge> 0"
proof (cases "List.map_filter tc_position rows")
  case Nil
  then show ?thesis by (simp add: max_position_def)
next
  case (Cons p ps)
  then have "p \<in> set (List.map_filter tc_position rows)" by simp
  then obtain r where "r \<in> set rows" "tc_position r = Some p"
    by (auto simp: List.map_filter_def)
  then show ?thesis using assms max_position_ge by fastforce
qed

lemma max_position_upto:
  assumes "set (map tc_position rows) = (\<lambda>i. Some (int i)) ` {1..n}"
  shows "max_position rows = int n"
proof (cases "n = 0")
  case True
  with assms have "rows = []" by simp
  then show ?thesis using True by (simp add: max_position_def List.map_filter_simps)
next
  case False
  have all: "set (List.map_filter tc_position rows) = int ` {1..n}"
    unfolding set_map_filter_Some assms by auto
  with False have ne: "List.map_filter tc_position rows \<noteq> []" by auto
  then obtain p ps where mf: "List.map_filter tc_position rows = p # ps" by (meson list.exhaust)
  have "foldl max p ps \<in> int ` {1..n}" using foldl_max_in[of p ps] all mf by auto
  moreover have "int n \<in> insert p (set ps)" using all mf False by auto
  then have "foldl max p ps \<ge> int n" using foldl_max_ge[of p ps] by auto
  ultimately have "foldl max p ps = int n" by auto
  then show ?thesis by (simp add: max_position_def mf)
qed

lemma offset_update:
  assumes ok: "tasks_ok ts" and k: "k \<ge> max_position (filter (member_open team a) ts)"
  shows "update_rows tasks_bad (member_open team a) (offset_positions k) ts =
      Inr (map (\<lambda>r. if member_open team a r then offset_positions k r else r) ts)"
    and "tasks_ok (map (\<lambda>r. if member_open team a r then offset_positions k r else r) ts)"
proof -
  let ?m = "member_open team a"
  have pos: "\<exists>p. tc_position r = Some p \<and> 1 \<le> p \<and> p \<le> k" if r: "r \<in> set ts" "?m r" for r
  proof -
    have "row_open r" using r(2) by (simp add: member_open_def)
    then obtain p where p: "tc_position r = Some p" "p \<ge> 1"
      using tasks_check_open[OF tasks_ok_check[OF ok r(1)]] by blast
    moreover have "p \<le> max_position (filter ?m ts)"
      by (rule max_position_ge[OF _ p(1)]) (simp add: r)
    ultimately show ?thesis using k by auto
  qed
  have chk: "tasks_check (offset_positions k r) \<and> task_key (offset_positions k r) = task_key r"
    if "r \<in> set ts" "?m r" for r
    using pos[OF that] tasks_check_position[OF tasks_ok_check[OF ok that(1)]] that(2)
    by (auto simp: offset_positions_def member_open_def)
  have old: "\<not> pos_clash (offset_positions k r) s"
    if "r \<in> set ts" "s \<in> set ts" "r \<noteq> s" "?m r" for r s
  proof
    assume c: "pos_clash (offset_positions k r) s"
    then have "?m s" using that(4) by (auto simp: pos_clash_def member_open_def)
    with c pos[OF that(1,4)] pos[OF that(2)] show False by (auto simp: pos_clash_def)
  qed
  have new: "\<not> pos_clash (offset_positions k r) (offset_positions k s)"
    if "r \<in> set ts" "s \<in> set ts" "r \<noteq> s" "?m r" "?m s" for r s
    using tasks_ok_pos_inj[OF ok that(1,2,4,5)] that(3) pos[OF that(1,4)] pos[OF that(2,5)]
    by (auto simp: pos_clash_def)
  show "update_rows tasks_bad ?m (offset_positions k) ts =
      Inr (map (\<lambda>r. if ?m r then offset_positions k r else r) ts)"
    and "tasks_ok (map (\<lambda>r. if ?m r then offset_positions k r else r) ts)"
    using update_tasks_ok[OF ok chk old new] by blast+
qed

section \<open>The writes of the final positions\<close>

definition owned_by :: "TaskCols list \<Rightarrow> TeamName \<Rightarrow> AgentName \<Rightarrow> TaskId list \<Rightarrow> bool" where
  "owned_by ts team a ids \<longleftrightarrow>
     (\<forall>i\<in>set ids. \<exists>r\<in>set ts. member_open team a r \<and> tc_task_id r = i)"

lemma owned_by_row:
  assumes "tasks_ok ts" "owned_by ts team a ids" "i \<in> set ids" "r \<in> set ts" "is_task team i r"
  shows "member_open team a r"
proof -
  obtain s where s: "s \<in> set ts" "member_open team a s" "tc_task_id s = i"
    using assms(2,3) by (auto simp: owned_by_def)
  then have "task_key s = task_key r"
    using assms(5) by (simp add: task_key_def is_task_def member_open_def)
  with tasks_ok_key_inj[OF assms(1) s(1) assms(4)] s(2) show ?thesis by simp
qed

definition above :: "TaskCols list \<Rightarrow> TeamName \<Rightarrow> AgentName \<Rightarrow> nat \<Rightarrow> bool" where
  "above ts team a n \<longleftrightarrow>
     (\<forall>r\<in>set ts. member_open team a r \<longrightarrow> (\<exists>p. tc_position r = Some p \<and> p > int n))"

lemma reposition_position:
  assumes "above ts team a n" "length pre \<le> n" "s \<in> set ts" "member_open team a s"
  shows "\<exists>p. tc_position (reposition team a pre s) = Some p \<and> p \<noteq> int (length pre + 1)
           \<or> tc_position (reposition team a pre s) = tc_position s \<and> tc_task_id s \<notin> set pre"
proof (cases "position_of (tc_task_id s) pre")
  case None
  then show ?thesis using assms(4) by (auto simp: reposition_def position_of_None_iff)
next
  case (Some i)
  then have "i < length pre" using position_of_SomeD by metis
  then show ?thesis using Some assms(4) by (auto simp: reposition_def)
qed

lemma write_step:
  assumes ok: "tasks_ok ts" and ok': "tasks_ok (map (reposition team a pre) ts)"
    and own: "owned_by ts team a (pre @ i # suf)" and dist: "distinct (pre @ i # suf)"
    and above: "above ts team a (length (pre @ i # suf))"
  shows "update_rows tasks_bad (is_task team i)
            (\<lambda>r. r\<lparr>tc_position := Some (int (length pre + 1))\<rparr>) (map (reposition team a pre) ts)
          = Inr (map (reposition team a (pre @ [i])) ts)" (is "?upd = _")
    and "tasks_ok (map (reposition team a (pre @ [i])) ts)"
proof -
  let ?f = "\<lambda>r :: TaskCols. r\<lparr>tc_position := Some (int (length pre + 1))\<rparr>"
  let ?ts = "map (reposition team a pre) ts"
  have mem: "member_open team a r" if "r \<in> set ts" "is_task team i r" for r
    using owned_by_row[OF ok own _ that] by simp
  have mem': "member_open team a r" if "r \<in> set ?ts" "is_task team i r" for r
    using mem that by auto
  have chk: "tasks_check (?f r) \<and> task_key (?f r) = task_key r"
    if "r \<in> set ?ts" "is_task team i r" for r
    using tasks_check_position[OF tasks_ok_check[OF ok' that(1)]] mem'[OF that]
    by (simp add: member_open_def)
  have old: "\<not> pos_clash (?f r) s"
    if rs: "r \<in> set ?ts" "s \<in> set ?ts" "r \<noteq> s" "is_task team i r" for r s
  proof
    assume c: "pos_clash (?f r) s"
    then have ms: "member_open team a s"
      using mem'[OF rs(1,4)] by (auto simp: pos_clash_def member_open_def)
    from c have ps: "tc_position s = Some (int (length pre + 1))" by (simp add: pos_clash_def)
    from rs(2) obtain s0 where s0: "s0 \<in> set ts" "s = reposition team a pre s0" by auto
    have ms0: "member_open team a s0" using ms s0(2) by simp
    obtain p0 where "tc_position s0 = Some p0" "p0 > int (length (pre @ i # suf))"
      using above s0(1) ms0 by (auto simp: above_def)
    with reposition_position[OF above _ s0(1) ms0, of pre] ps s0(2) show False by auto
  qed
  have new: "\<not> pos_clash (?f r) (?f s)"
    if "r \<in> set ?ts" "s \<in> set ?ts" "r \<noteq> s" "is_task team i r" "is_task team i s" for r s
    using tasks_ok_key_inj[OF ok' that(1,2)] that(3-) by (auto simp: is_task_def task_key_def)
  have upd: "?upd = Inr (map (\<lambda>r. if is_task team i r then ?f r else r) ?ts)"
    "tasks_ok (map (\<lambda>r. if is_task team i r then ?f r else r) ?ts)"
    by (rule update_tasks_ok[OF ok' chk old new]; assumption)+
  have eq: "map (\<lambda>r. if is_task team i r then ?f r else r) ?ts = map (reposition team a (pre @ [i])) ts"
  proof -
    have snoc: "reposition team a (pre @ [i]) r =
        (if is_task team i (reposition team a pre r) then ?f (reposition team a pre r)
         else reposition team a pre r)" if r: "r \<in> set ts" for r
    proof (rule reposition_snoc)
      show "distinct (pre @ [i])" using dist by simp
      show "member_open team a r \<or> tc_task_id r \<noteq> i \<or> tc_team r \<noteq> team"
        using mem[OF r] by (auto simp: is_task_def)
    qed
    show ?thesis
      unfolding map_map comp_def by (rule map_cong[OF refl], rule snoc[symmetric])
  qed
  show "?upd = Inr (map (reposition team a (pre @ [i])) ts)"
    unfolding upd(1) by (rule arg_cong[OF eq])
  show "tasks_ok (map (reposition team a (pre @ [i])) ts)"
    using upd(2) unfolding eq .
qed

lemma write_queue_go_ok:
  assumes "tasks_ok ts" "tasks_ok (map (reposition team a pre) ts)"
    "owned_by ts team a (pre @ suf)" "distinct (pre @ suf)" "above ts team a (length (pre @ suf))"
    "int (length (pre @ suf)) \<le> i64_max" "db_tasks d = map (reposition team a pre) ts"
  shows "write_queue_go env team (length pre) suf d
           = Inr (d\<lparr>db_tasks := map (reposition team a (pre @ suf)) ts\<rparr>)
         \<and> tasks_ok (map (reposition team a (pre @ suf)) ts)"
  using assms
proof (induction suf arbitrary: pre d)
  case Nil
  then show ?case by simp
next
  case (Cons i suf)
  note step = write_step[OF Cons.prems(1-5)]
  let ?d = "d\<lparr>db_tasks := map (reposition team a (pre @ [i])) ts\<rparr>"
  have "write_queue_go env team (length (pre @ [i])) suf ?d
          = Inr (?d\<lparr>db_tasks := map (reposition team a ((pre @ [i]) @ suf)) ts\<rparr>)
        \<and> tasks_ok (map (reposition team a ((pre @ [i]) @ suf)) ts)"
    by (rule Cons.IH) (use Cons.prems step(2) in simp_all)
  moreover have "run_update env ''failed to renumber task queue'' (is_task team i)
      (\<lambda>r. r\<lparr>tc_position := Some (int (length pre + 1))\<rparr>) d = Inr ?d"
    unfolding run_update_def Cons.prems(7) step(1) by simp
  ultimately show ?case using Cons.prems(6) by simp
qed

lemma write_queue_positions_ok:
  assumes "tasks_ok (db_tasks d)" "owned_by (db_tasks d) team a order" "distinct order"
    "above (db_tasks d) team a (length order)" "int (length order) \<le> i64_max"
  shows "write_queue_positions env team order d
           = Inr (d\<lparr>db_tasks := map (reposition team a order) (db_tasks d)\<rparr>)"
    and "tasks_ok (map (reposition team a order) (db_tasks d))"
  using write_queue_go_ok[of "db_tasks d" team a "[]" order d env] assms
  by (simp_all add: write_queue_positions_def)

section \<open>Renumbering a queue\<close>

definition member_ids :: "TaskCols list \<Rightarrow> TeamName \<Rightarrow> AgentName \<Rightarrow> TaskId set" where
  "member_ids ts team a = tc_task_id ` set (filter (member_open team a) ts)"

lemma member_ids_map:
  "(\<And>r. r \<in> set ts \<Longrightarrow> member_open team a (g r) = member_open team a r \<and> tc_task_id (g r) = tc_task_id r)
   \<Longrightarrow> member_ids (map g ts) team a = member_ids ts team a"
  by (induction ts) (auto simp: member_ids_def)

lemma owned_by_member_ids: "set ids \<subseteq> member_ids ts team a \<Longrightarrow> owned_by ts team a ids"
  by (fastforce simp: owned_by_def member_ids_def)

lemma distinct_member_ids:
  assumes "tasks_ok ts"
  shows "distinct (map tc_task_id (filter (member_open team a) ts))"
proof -
  have "inj_on tc_task_id (set (filter (member_open team a) ts))"
    using tasks_ok_key_inj[OF assms] by (auto simp: inj_on_def member_open_def task_key_def)
  moreover have "distinct (filter (member_open team a) ts)"
    using assms by (auto simp: tasks_ok_def distinct_map)
  ultimately show ?thesis by (simp add: distinct_map)
qed

lemma length_member_rows:
  assumes "tasks_ok ts" "distinct order" "set order = member_ids ts team a"
  shows "length (filter (member_open team a) ts) = length order"
proof -
  have "length (filter (member_open team a) ts) = card (member_ids ts team a)"
    using distinct_card[OF distinct_member_ids[OF assms(1)]] by (simp add: member_ids_def)
  then show ?thesis using distinct_card[OF assms(2)] assms(3) by simp
qed

lemma reposition_member:
  assumes "set order = member_ids ts team a" "r \<in> set ts" "member_open team a r"
  shows "\<exists>i. i < length order \<and> order ! i = tc_task_id r
      \<and> reposition team a order r = r\<lparr>tc_position := Some (int (i + 1))\<rparr>"
proof -
  have "tc_task_id r \<in> set order" using assms by (auto simp: member_ids_def)
  then obtain i where i: "position_of (tc_task_id r) order = Some i" using position_of_mem by metis
  moreover have "i < length order" "order ! i = tc_task_id r" using position_of_SomeD[OF i] by auto
  ultimately show ?thesis using assms(3) by (auto simp: reposition_def)
qed

lemma reposition_positions:
  assumes "distinct order" "set order = member_ids ts team a"
  shows "tc_position ` reposition team a order ` {r \<in> set ts. member_open team a r}
           = (\<lambda>i. Some (int i)) ` {1..length order}" (is "?L = ?R")
proof (intro equalityI subsetI)
  fix x assume "x \<in> ?L"
  then obtain r where r: "r \<in> set ts" "member_open team a r"
    "x = tc_position (reposition team a order r)" by auto
  with reposition_member[OF assms(2) r(1,2)] obtain i where
    "i < length order" "x = Some (int (i + 1))" by auto
  then show "x \<in> ?R" by (intro image_eqI[of _ _ "i + 1"]) auto
next
  fix x assume "x \<in> ?R"
  then obtain k where "x = Some (int k)" "1 \<le> k" "k \<le> length order" by auto
  then obtain i where i: "i < length order" "x = Some (int (i + 1))"
    by (metis Suc_eq_plus1 Suc_le_D Suc_le_lessD One_nat_def)
  then have "order ! i \<in> member_ids ts team a" using assms(2) nth_mem by metis
  then obtain r where r: "r \<in> set ts" "member_open team a r" "tc_task_id r = order ! i"
    by (auto simp: member_ids_def)
  obtain j where j: "j < length order" "order ! j = order ! i"
    "reposition team a order r = r\<lparr>tc_position := Some (int (j + 1))\<rparr>"
    using reposition_member[OF assms(2) r(1,2)] r(3) by auto
  then have "j = i" using nth_eq_iff_index_eq[OF assms(1)] i(1) by simp
  with j(3) i(2) have "x = tc_position (reposition team a order r)" by simp
  then show "x \<in> ?L" using r by blast
qed

lemma filter_reposition:
  "filter (member_open t b) (map (reposition team a order) ts)
     = map (reposition team a order) (filter (member_open t b) ts)"
  by (induction ts) auto

lemma above_offset:
  assumes ok: "tasks_ok ts" and k: "k \<ge> int n"
  shows "above (map (\<lambda>r. if member_open team a r then offset_positions k r else r) ts) team a n"
  unfolding above_def
proof (intro ballI impI)
  fix r assume "r \<in> set (map (\<lambda>r. if member_open team a r then offset_positions k r else r) ts)"
    and m: "member_open team a r"
  then obtain s where s: "s \<in> set ts" "r = (if member_open team a s then offset_positions k s else s)"
    by auto
  with m have ms: "member_open team a s" by (auto split: if_splits)
  then have "row_open s" by (simp add: member_open_def)
  then obtain p where "tc_position s = Some p" "p \<ge> 1"
    using tasks_check_open[OF tasks_ok_check[OF ok s(1)]] by blast
  then show "\<exists>p. tc_position r = Some p \<and> p > int n" using s(2) ms k by auto
qed

lemma reposition_offset:
  assumes "tc_task_id r \<in> set order" "member_open team a r"
  shows "reposition team a order (offset_positions k r) = reposition team a order r"
  using assms position_of_mem[OF assms(1)] by (auto simp: reposition_def offset_positions_def)

lemma renumber_queue_ok:
  assumes ok: "tasks_ok (db_tasks d)" and dist: "distinct order"
    and ids: "set order = member_ids (db_tasks d) team a"
    and bound: "max_position (filter (member_open team a) (db_tasks d)) + int (length order) \<le> i64_max"
  shows "renumber_queue env team a order d
           = Inr (d\<lparr>db_tasks := map (reposition team a order) (db_tasks d)\<rparr>)"
    and "tasks_ok (map (reposition team a order) (db_tasks d))"
proof -
  let ?m = "member_open team a" and ?ts = "db_tasks d"
  let ?k = "max_position (filter ?m ?ts) + int (length order)"
  let ?off = "\<lambda>r. if ?m r then offset_positions ?k r else r"
  let ?d1 = "d\<lparr>db_tasks := map ?off ?ts\<rparr>"
  have nonneg: "0 \<le> max_position (filter ?m ?ts)"
  proof (rule max_position_nonneg)
    fix r p assume "r \<in> set (filter ?m ?ts)" "tc_position r = Some p"
    then show "0 \<le> p"
      using tasks_check_open[OF tasks_ok_check[OF ok, of r]] by (auto simp: member_open_def)
  qed
  note off = offset_update[OF ok, where team = team and a = a and k = ?k]
  have ok1: "tasks_ok (map ?off ?ts)" by (rule off(2)) simp
  have upd: "run_update env ''failed to offset task queue'' ?m (offset_positions ?k) d = Inr ?d1"
    unfolding run_update_def by (subst off(1)) simp_all
  have ids1: "member_ids (map ?off ?ts) team a = member_ids ?ts team a"
    by (rule member_ids_map) simp
  have w: "write_queue_positions env team order ?d1
      = Inr (?d1\<lparr>db_tasks := map (reposition team a order) (map ?off ?ts)\<rparr>)"
    and ok2: "tasks_ok (map (reposition team a order) (map ?off ?ts))"
    using write_queue_positions_ok(1)[of ?d1 team a order env]
      write_queue_positions_ok(2)[of ?d1 team a order] ok1 dist bound nonneg
      owned_by_member_ids[of order "map ?off ?ts" team a] ids ids1
      above_offset[OF ok, where k = ?k and n = "length order"]
    by auto
  have eq: "map (reposition team a order) (map ?off ?ts) = map (reposition team a order) ?ts"
  proof -
    have "reposition team a order (?off r) = reposition team a order r" if "r \<in> set ?ts" for r
      using that ids reposition_offset[of r order team a ?k] by (auto simp: member_ids_def)
    then show ?thesis by simp
  qed
  show ok3: "tasks_ok (map (reposition team a order) ?ts)" using ok2 unfolding eq .
  have len: "length (filter ?m (map (reposition team a order) ?ts)) = length order"
    using length_member_rows[OF ok dist ids] by (simp add: filter_reposition)
  have mx: "max_position (filter ?m (map (reposition team a order) ?ts)) = int (length order)"
  proof (rule max_position_upto)
    have "set (map tc_position (filter ?m (map (reposition team a order) ?ts)))
        = tc_position ` reposition team a order ` {r \<in> set ?ts. ?m r}"
      by (auto simp: filter_reposition)
    then show "set (map tc_position (filter ?m (map (reposition team a order) ?ts)))
        = (\<lambda>i. Some (int i)) ` {1..length order}"
      using reposition_positions[OF dist ids] by simp
  qed
  show "renumber_queue env team a order d
           = Inr (d\<lparr>db_tasks := map (reposition team a order) (db_tasks d)\<rparr>)"
    unfolding renumber_queue_def Let_def
    using bound nonneg upd w[unfolded eq] len mx by simp
qed

end
