(* ===== verification/Ledger.thy ===== *)
theory Ledger
  imports Task_Queue
begin

text \<open>
  The invariant of the task ledger.  Every open task of a member stands in that member's
  queue at one of the positions \<open>1, 2, ..., n\<close>, started tasks stand before queued ones,
  the columns of a row agree with each other, and the events of a task are numbered
  \<open>1, 2, ...\<close> and decode.
\<close>

section \<open>The queue of a member\<close>

definition qrows :: "TeamName \<Rightarrow> AgentName \<Rightarrow> TaskCols list \<Rightarrow> TaskCols list" where
  "qrows team a ts = sort_key (\<lambda>r. (tc_position r, tc_task_id r)) (filter (member_open team a) ts)"

definition queue_ids :: "TeamName \<Rightarrow> AgentName \<Rightarrow> TaskCols list \<Rightarrow> TaskId list" where
  "queue_ids team a ts = map tc_task_id (qrows team a ts)"

definition positions_upto :: "nat \<Rightarrow> int option list" where
  "positions_upto n = map (\<lambda>i. Some (int i)) [1..<Suc n]"

definition contiguous :: "TeamName \<Rightarrow> AgentName \<Rightarrow> TaskCols list \<Rightarrow> bool" where
  "contiguous team a ts \<longleftrightarrow> map tc_position (qrows team a ts) = positions_upto (length (qrows team a ts))"

text \<open>A task that is not started never stands before a started one.\<close>

definition lead_order :: "string \<Rightarrow> string \<Rightarrow> bool" where
  "lead_order x y \<longleftrightarrow> (y = ''active'' \<longrightarrow> x = ''active'')"

definition started_lead :: "TeamName \<Rightarrow> AgentName \<Rightarrow> TaskCols list \<Rightarrow> bool" where
  "started_lead team a ts \<longleftrightarrow> sorted_wrt lead_order (map tc_state (qrows team a ts))"

definition names_ok :: "TaskCols \<Rightarrow> bool" where
  "names_ok r \<longleftrightarrow> valid_segment (tc_team r) \<and> valid_task_id (tc_task_id r) \<and>
     valid_segment (tc_assignee r) \<and> valid_segment (tc_assigner r)"

definition ledger_ok :: "TaskCols list \<Rightarrow> bool" where
  "ledger_ok ts \<longleftrightarrow> tasks_ok ts \<and> list_all names_ok ts \<and>
     (\<forall>team a. contiguous team a ts) \<and> (\<forall>team a. started_lead team a ts)"

lemma queue_rows_qrows: "queue_rows team a d = qrows team a (db_tasks d)"
  by (simp add: queue_rows_def qrows_def)

lemma set_qrows [simp]: "set (qrows team a ts) = {r \<in> set ts. member_open team a r}"
  by (simp add: qrows_def)

lemma length_qrows [simp]: "length (qrows team a ts) = length (filter (member_open team a) ts)"
  by (simp add: qrows_def)

lemma set_queue_ids: "set (queue_ids team a ts) = member_ids ts team a"
  by (auto simp: queue_ids_def member_ids_def)

lemma distinct_qrows: "tasks_ok ts \<Longrightarrow> distinct (qrows team a ts)"
  by (auto simp: qrows_def tasks_ok_def distinct_map)

lemma distinct_queue_ids: "tasks_ok ts \<Longrightarrow> distinct (queue_ids team a ts)"
proof -
  assume ok: "tasks_ok ts"
  have "inj_on tc_task_id (set (qrows team a ts))"
    using tasks_ok_key_inj[OF ok] by (auto simp: inj_on_def member_open_def task_key_def)
  then show ?thesis using distinct_qrows[OF ok] by (simp add: queue_ids_def distinct_map)
qed

text \<open>Reading the queue gives the identifiers in order: every stored id parses to itself.\<close>

lemma queue_order_ok:
  assumes "list_all names_ok (db_tasks d)"
  shows "queue_order team a d = Inr (queue_ids team a (db_tasks d))"
proof -
  have "TaskId_from_str (tc_task_id r) = Inr (tc_task_id r)" if "r \<in> set (qrows team a (db_tasks d))" for r
    using assms that by (auto simp: list_all_iff names_ok_def intro!: task_id.parse_complete)
  then show ?thesis
    unfolding queue_order_def queue_rows_qrows queue_ids_def
    by (intro collectE_Inr_map) simp
qed

section \<open>Queues under an unchanged membership\<close>

lemma qrows_unchanged:
  assumes "\<And>r. r \<in> set ts \<Longrightarrow> member_open team a (g r) = member_open team a r"
    and "\<And>r. r \<in> set ts \<Longrightarrow> member_open team a r \<Longrightarrow> g r = r"
  shows "qrows team a (map g ts) = qrows team a ts"
proof -
  have "filter (member_open team a) (map g ts) = filter (member_open team a) ts"
    using assms by (induction ts) auto
  then show ?thesis by (simp add: qrows_def)
qed

section \<open>Positions determine the queue\<close>

lemma sorted_positions: "sorted (map tc_position (qrows team a ts))"
proof -
  have "sorted (map (\<lambda>r. (tc_position r, tc_task_id r)) (qrows team a ts))"
    unfolding qrows_def by (rule sorted_sort_key)
  then show ?thesis
    unfolding sorted_map
    by (rule sorted_wrt_mono_rel[rotated]) (auto simp: less_eq_prod_def less_imp_le)
qed

lemma set_positions_upto: "set (positions_upto n) = (\<lambda>i. Some (int i)) ` {1..n}"
  by (auto simp: positions_upto_def)

lemma sorted_positions_upto: "sorted (positions_upto n)" "distinct (positions_upto n)"
  by (induction n) (auto simp: positions_upto_def sorted_append)

lemma length_positions_upto [simp]: "length (positions_upto n) = n"
  by (simp add: positions_upto_def)

lemma nth_positions_upto [simp]: "i < n \<Longrightarrow> positions_upto n ! i = Some (int (i + 1))"
  by (simp add: positions_upto_def del: upt_Suc)

lemma contiguousI:
  assumes ok: "tasks_ok ts"
    and "tc_position ` {r \<in> set ts. member_open team a r} = (\<lambda>i. Some (int i)) ` {1..n}"
    and "length (qrows team a ts) = n"
  shows "contiguous team a ts"
proof -
  have "distinct (map tc_position (qrows team a ts))"
    using distinct_qrows[OF ok] tasks_ok_pos_inj[OF ok] by (auto simp: distinct_map inj_on_def)
  moreover have "set (map tc_position (qrows team a ts)) = set (positions_upto n)"
    using assms(2) by (simp add: set_positions_upto)
  ultimately have "map tc_position (qrows team a ts) = positions_upto n"
    using sorted_positions sorted_positions_upto by (intro sorted_distinct_set_unique) auto
  then show ?thesis using assms(3) by (simp add: contiguous_def)
qed

lemma contiguous_nth:
  assumes "contiguous team a ts" "i < length (qrows team a ts)"
  shows "tc_position (qrows team a ts ! i) = Some (int (i + 1))"
proof -
  have "map tc_position (qrows team a ts) ! i = positions_upto (length (qrows team a ts)) ! i"
    using assms(1) by (simp add: contiguous_def)
  then show ?thesis using assms(2) by (simp del: length_qrows)
qed

text \<open>In a contiguous queue no position is above the number of its tasks.\<close>

lemma contiguous_max_position:
  assumes "contiguous team a ts"
  shows "max_position (filter (member_open team a) ts) = int (length (filter (member_open team a) ts))"
proof (rule max_position_upto)
  let ?n = "length (qrows team a ts)"
  have "set (map tc_position (qrows team a ts)) = (\<lambda>i. Some (int i)) ` {1..?n}"
    using assms by (simp add: contiguous_def set_positions_upto del: set_qrows length_qrows set_map)
  then show "set (map tc_position (filter (member_open team a) ts))
      = (\<lambda>i. Some (int i)) ` {1..length (filter (member_open team a) ts)}"
    by simp
qed

section \<open>The queue after a renumbering\<close>

lemma member_open_unique: "member_open team a r \<Longrightarrow> member_open t b r \<Longrightarrow> t = team \<and> b = a"
  by (auto simp: member_open_def)

lemma reposition_other:
  assumes "(t, b) \<noteq> (team, a)"
  shows "qrows t b (map (reposition team a order) ts) = qrows t b ts"
proof (rule qrows_unchanged)
  fix r assume "member_open t b r"
  with assms have "\<not> member_open team a r" using member_open_unique by blast
  then show "reposition team a order r = r" by (rule reposition_id)
qed simp

lemma reposition_contiguous:
  assumes ok: "tasks_ok ts" and dist: "distinct order" and ids: "set order = member_ids ts team a"
    and ok': "tasks_ok (map (reposition team a order) ts)"
  shows "contiguous team a (map (reposition team a order) ts)"
proof (rule contiguousI[OF ok'])
  have "{r \<in> set (map (reposition team a order) ts). member_open team a r}
      = reposition team a order ` {r \<in> set ts. member_open team a r}" by auto
  then show "tc_position ` {r \<in> set (map (reposition team a order) ts). member_open team a r}
      = (\<lambda>i. Some (int i)) ` {1..length order}"
    using reposition_positions[OF dist ids] by simp
  show "length (qrows team a (map (reposition team a order) ts)) = length order"
    using length_member_rows[OF ok dist ids] by (simp add: filter_reposition)
qed

lemma reposition_queue_ids:
  assumes ok: "tasks_ok ts" and dist: "distinct order" and ids: "set order = member_ids ts team a"
    and ok': "tasks_ok (map (reposition team a order) ts)"
  shows "queue_ids team a (map (reposition team a order) ts) = order"
proof (rule nth_equalityI)
  let ?ts = "map (reposition team a order) ts"
  have len: "length (qrows team a ?ts) = length order"
    using length_member_rows[OF ok dist ids] by (simp add: filter_reposition)
  then show "length (queue_ids team a ?ts) = length order" by (simp add: queue_ids_def)
  fix i assume "i < length (queue_ids team a ?ts)"
  then have i: "i < length (qrows team a ?ts)" by (simp add: queue_ids_def)
  let ?r = "qrows team a ?ts ! i"
  have "?r \<in> set (qrows team a ?ts)" using i by (rule nth_mem)
  then obtain r where r: "r \<in> set ts" "member_open team a r" "?r = reposition team a order r"
    by auto
  obtain j where j: "j < length order" "order ! j = tc_task_id r"
    "reposition team a order r = r\<lparr>tc_position := Some (int (j + 1))\<rparr>"
    using reposition_member[OF ids r(1,2)] by blast
  have "tc_position ?r = Some (int (i + 1))"
    by (rule contiguous_nth[OF reposition_contiguous[OF ok dist ids ok'] i])
  then have "j = i" using r(3) j(3) by simp
  then show "queue_ids team a ?ts ! i = order ! i"
    using i j r(3) by (simp add: queue_ids_def)
qed

section \<open>States along the queue\<close>

definition state_of :: "TaskCols list \<Rightarrow> TeamName \<Rightarrow> TaskId \<Rightarrow> string" where
  "state_of ts team i = (case find (is_task team i) ts of Some r \<Rightarrow> tc_state r | None \<Rightarrow> [])"

lemma find_task:
  assumes "tasks_ok ts" "r \<in> set ts"
  shows "find (is_task (tc_team r) (tc_task_id r)) ts = Some r"
proof -
  obtain s where s: "find (is_task (tc_team r) (tc_task_id r)) ts = Some s"
    using assms(2) find_None_iff[of "is_task (tc_team r) (tc_task_id r)" ts]
    by (cases "find (is_task (tc_team r) (tc_task_id r)) ts") (auto simp: is_task_def)
  then have "s \<in> set ts" "task_key s = task_key r"
    by (auto simp: find_Some_iff is_task_def task_key_def)
  with tasks_ok_key_inj[OF assms(1) _ assms(2)] s show ?thesis by simp
qed

lemma find_taskD: "find (is_task team i) ts = Some r \<Longrightarrow> r \<in> set ts \<and> tc_team r = team \<and> tc_task_id r = i"
  by (auto simp: find_Some_iff is_task_def)

lemma state_of_row: "tasks_ok ts \<Longrightarrow> r \<in> set ts \<Longrightarrow> state_of ts (tc_team r) (tc_task_id r) = tc_state r"
  by (simp add: state_of_def find_task)

lemma queue_states:
  assumes "tasks_ok ts"
  shows "map tc_state (qrows team a ts) = map (state_of ts team) (queue_ids team a ts)"
  using state_of_row[OF assms] by (auto simp: queue_ids_def member_open_def)

lemma started_lead_iff:
  "tasks_ok ts \<Longrightarrow>
   started_lead team a ts \<longleftrightarrow> sorted_wrt lead_order (map (state_of ts team) (queue_ids team a ts))"
  by (simp add: started_lead_def queue_states)

lemma find_map_same:
  "(\<And>r. r \<in> set ts \<Longrightarrow> P (g r) = P r) \<Longrightarrow> find P (map g ts) = map_option g (find P ts)"
  by (induction ts) auto

lemma state_of_reposition [simp]:
  "state_of (map (reposition t b order) ts) team i = state_of ts team i"
  unfolding state_of_def by (subst find_map_same) (auto split: option.splits)

end
