(* ===== verification/Queue_Order.thy ===== *)
theory Queue_Order
  imports Ledger
begin

text \<open>
  How a statement that succeeded changes the queues: the constraints still hold, a row
  that leaves a queue leaves a gap, a renumbering closes the gap and installs the
  requested order, and inserting a task at an admissible place keeps started tasks in
  front.
\<close>

section \<open>A successful statement keeps the constraints\<close>

lemma tasks_clash_sym: "tasks_clash x y = tasks_clash y x"
  unfolding tasks_clash_def by metis

interpretation tasks: constrained_table tasks_check tasks_clash tasks_bad
  by unfold_locales (simp_all add: tasks_bad_def tasks_clash_sym)

lemma tasks_ok_sorted:
  "tasks_ok ts \<longleftrightarrow> table_ok tasks_check tasks_clash ts"
proof -
  let ?sorted = "sorted_wrt (\<lambda>r s. \<not> tasks_clash s r)"
  have "(\<forall>us r vs. ts = us @ r # vs \<longrightarrow> (\<forall>s\<in>set us \<union> set vs. \<not> tasks_clash r s)) \<longleftrightarrow> ?sorted ts"
    (is "?free ts \<longleftrightarrow> _")
  proof
    assume free: "?free ts"
    show "?sorted ts"
      unfolding sorted_wrt_iff_nth_less
    proof (intro allI impI)
      fix i j assume ij: "i < j" "j < length ts"
      have "ts = take j ts @ ts ! j # drop (Suc j) ts" using ij by (simp add: id_take_nth_drop)
      moreover have "ts ! i \<in> set (take j ts)" using ij by (auto simp: in_set_conv_nth)
      ultimately show "\<not> tasks_clash (ts ! j) (ts ! i)" using free by blast
    qed
  next
    assume "?sorted ts"
    then show "?free ts" by (auto simp: sorted_wrt_append tasks_clash_sym)
  qed
  then show ?thesis by (simp add: tasks_ok_iff_no_clash table_ok_def)
qed

lemmas update_rows_tasks_ok = tasks.update_table[folded tasks_ok_sorted]
lemmas insert_row_tasks_ok = tasks.insert_table[folded tasks_ok_sorted]

lemma run_update_Inr:
  assumes "run_update env what P f d = Inr d'"
  shows "d' = d\<lparr>db_tasks := map (\<lambda>r. if P r then f r else r) (db_tasks d)\<rparr>"
    and "tasks_ok (db_tasks d) \<Longrightarrow> tasks_ok (map (\<lambda>r. if P r then f r else r) (db_tasks d))"
proof -
  obtain out where out: "update_rows tasks_bad P f (db_tasks d) = Inr out" "d' = d\<lparr>db_tasks := out\<rparr>"
    using assms by (cases "update_rows tasks_bad P f (db_tasks d)") (auto simp: run_update_def)
  have eq: "out = map (\<lambda>r. if P r then f r else r) (db_tasks d)" by (rule update_rows_Inr[OF out(1)])
  show "d' = d\<lparr>db_tasks := map (\<lambda>r. if P r then f r else r) (db_tasks d)\<rparr>" using out(2) eq by simp
  show "tasks_ok (db_tasks d) \<Longrightarrow> tasks_ok (map (\<lambda>r. if P r then f r else r) (db_tasks d))"
    using update_rows_tasks_ok[OF out(1)] eq by simp
qed

section \<open>Queues under a row-wise change\<close>

text \<open>Rows that stop satisfying \<open>Q\<close> leave the queue, the others keep their order.\<close>

lemma qrows_drop:
  assumes "\<And>r. r \<in> set ts \<Longrightarrow> member_open team a (g r) = (member_open team a r \<and> Q r)"
    and "\<And>r. r \<in> set ts \<Longrightarrow> member_open team a r \<Longrightarrow> Q r \<Longrightarrow> g r = r"
  shows "qrows team a (map g ts) = filter Q (qrows team a ts)"
proof -
  have "filter (member_open team a) (map g ts) = map g (filter (\<lambda>r. member_open team a r \<and> Q r) ts)"
    unfolding filter_map comp_def using assms(1) by (intro arg_cong[of _ _ "map g"] filter_cong) auto
  also have "\<dots> = filter (\<lambda>r. member_open team a r \<and> Q r) ts"
    by (rule map_idI) (use assms(2) in auto)
  also have "\<dots> = filter Q (filter (member_open team a) ts)" by (simp add: conj_commute)
  finally show ?thesis unfolding qrows_def filter_sort by (rule arg_cong)
qed

lemma sort_key_map:
  "(\<And>x. x \<in> set xs \<Longrightarrow> f (g x) = f x) \<Longrightarrow> sort_key f (map g xs) = map g (sort_key f xs)"
proof (induction xs)
  case (Cons x xs)
  have ins: "insort_key f (g x) (map g ys) = map g (insort_key f x ys)" if "set ys \<subseteq> set xs" for ys
    using that Cons.prems by (induction ys) auto
  show ?case using Cons ins[of "sort_key f xs"] by simp
qed simp

text \<open>A change of columns that do not order the queue.\<close>

lemma qrows_map:
  assumes "\<And>r. r \<in> set ts \<Longrightarrow> member_open team a (g r) = member_open team a r
      \<and> tc_position (g r) = tc_position r \<and> tc_task_id (g r) = tc_task_id r"
  shows "qrows team a (map g ts) = map g (qrows team a ts)"
proof -
  have "filter (member_open team a) (map g ts) = map g (filter (member_open team a) ts)"
    using assms by (induction ts) auto
  moreover have "sort_key (\<lambda>r. (tc_position r, tc_task_id r)) (map g (filter (member_open team a) ts))
      = map g (sort_key (\<lambda>r. (tc_position r, tc_task_id r)) (filter (member_open team a) ts))"
    by (rule sort_key_map) (use assms in auto)
  ultimately show ?thesis by (simp add: qrows_def)
qed

section \<open>Started tasks lead\<close>

lemma lead_split:
  assumes "sorted_wrt lead_order xs"
  shows "takeWhile (\<lambda>x. x = ''active'') xs = filter (\<lambda>x. x = ''active'') xs"
  using assms
proof (induction xs)
  case (Cons x xs)
  show ?case
  proof (cases "x = ''active''")
    case False
    then have "\<forall>y\<in>set xs. y \<noteq> ''active''" using Cons.prems by (auto simp: lead_order_def)
    then show ?thesis using False by (simp add: filter_empty_conv)
  qed (use Cons in auto)
qed simp

lemma lead_after:
  assumes "sorted_wrt lead_order xs" "k \<le> i" "i < length xs" "xs ! k \<noteq> ''active''"
  shows "xs ! i \<noteq> ''active''"
  using assms sorted_wrt_nth_less[OF assms(1), of k i] by (cases "k = i") (auto simp: lead_order_def)

lemma lead_insert:
  assumes "sorted_wrt lead_order (map f xs)"
    and "f x = ''active'' \<Longrightarrow> \<forall>y\<in>set (take k xs). f y = ''active''"
    and "f x \<noteq> ''active'' \<Longrightarrow> \<forall>y\<in>set (drop k xs). f y \<noteq> ''active''"
  shows "sorted_wrt lead_order (map f (insert_at k x xs))"
proof -
  have "sorted_wrt lead_order (map f (take k xs) @ map f (drop k xs))"
    unfolding map_append[symmetric] append_take_drop_id by (rule assms(1))
  then have parts: "sorted_wrt lead_order (map f (take k xs))" "sorted_wrt lead_order (map f (drop k xs))"
    "\<forall>u\<in>set (map f (take k xs)). \<forall>v\<in>set (map f (drop k xs)). lead_order u v"
    unfolding sorted_wrt_append by blast+
  have left: "lead_order u (f x)" if "u \<in> set (map f (take k xs))" for u
    using that assms(2) unfolding lead_order_def set_map by blast
  have right: "lead_order (f x) v" if "v \<in> set (map f (drop k xs))" for v
    using that assms(3) unfolding lead_order_def set_map by (metis imageE)
  show ?thesis
    unfolding insert_at_def map_append list.map sorted_wrt_append sorted_wrt.simps list.set
    using parts left right by blast
qed

lemma set_insert_at [simp]: "set (insert_at k x xs) = insert x (set xs)"
proof -
  have "set (insert_at k x xs) = insert x (set (take k xs @ drop k xs))"
    unfolding insert_at_def by (simp only: set_append list.set) auto
  then show ?thesis by simp
qed

lemma distinct_insert_at: "distinct xs \<Longrightarrow> x \<notin> set xs \<Longrightarrow> distinct (insert_at k x xs)"
  unfolding insert_at_def
  by (auto simp: set_take_disj_set_drop_if_distinct dest: in_set_takeD in_set_dropD)

lemma length_insert_at [simp]: "length (insert_at k x xs) = Suc (length xs)"
  by (simp add: insert_at_def)

section \<open>Renumbering a queue of the ledger\<close>

lemma renumber_queue_Inr:
  assumes "tasks_ok (db_tasks d)" "distinct order" "set order = member_ids (db_tasks d) team a"
    "renumber_queue env team a order d = Inr d'"
  shows "d' = d\<lparr>db_tasks := map (reposition team a order) (db_tasks d)\<rparr>"
    and "tasks_ok (map (reposition team a order) (db_tasks d))"
proof -
  have "max_position (filter (member_open team a) (db_tasks d)) + int (length order) \<le> i64_max"
    using assms(4) by (auto simp: renumber_queue_def Let_def split: if_splits)
  note ok = renumber_queue_ok[OF assms(1-3) this]
  show "d' = d\<lparr>db_tasks := map (reposition team a order) (db_tasks d)\<rparr>" using ok(1)[of env] assms(4) by simp
  show "tasks_ok (map (reposition team a order) (db_tasks d))" by (rule ok(2))
qed

lemma names_ok_reposition: "names_ok (reposition team a order r) = names_ok r"
  by (simp add: names_ok_def)

lemma names_reposition:
  "list_all names_ok (map (reposition team a order) ts) = list_all names_ok ts"
  by (simp add: list.pred_map comp_def names_ok_reposition)

definition queue_ok :: "TeamName \<Rightarrow> AgentName \<Rightarrow> TaskCols list \<Rightarrow> bool" where
  "queue_ok team a ts \<longleftrightarrow> contiguous team a ts \<and> started_lead team a ts"

lemma ledger_ok_alt:
  "ledger_ok ts \<longleftrightarrow> tasks_ok ts \<and> list_all names_ok ts \<and> (\<forall>team a. queue_ok team a ts)"
  by (auto simp: ledger_ok_def queue_ok_def)

lemma queue_ok_cong: "qrows team a ts = qrows team a ts' \<Longrightarrow> queue_ok team a ts = queue_ok team a ts'"
  by (simp add: queue_ok_def contiguous_def started_lead_def del: length_qrows)

text \<open>The member whose queue is renumbered ends in the requested order; every other queue is
  as it was.\<close>

lemma renumber_member:
  assumes ok: "tasks_ok (db_tasks d)" and dist: "distinct order"
    and ids: "set order = member_ids (db_tasks d) team a"
    and lead: "sorted_wrt lead_order (map (state_of (db_tasks d) team) order)"
    and run: "renumber_queue env team a order d = Inr d'"
  shows "tasks_ok (db_tasks d')" "queue_ok team a (db_tasks d')"
    "queue_ids team a (db_tasks d') = order"
    "(t, b) \<noteq> (team, a) \<Longrightarrow> qrows t b (db_tasks d') = qrows t b (db_tasks d)"
    "list_all names_ok (db_tasks d') = list_all names_ok (db_tasks d)"
    "state_of (db_tasks d') t i = state_of (db_tasks d) t i"
    "d' = d\<lparr>db_tasks := map (reposition team a order) (db_tasks d)\<rparr>"
proof -
  note r = renumber_queue_Inr[OF ok dist ids run]
  have ts: "db_tasks d' = map (reposition team a order) (db_tasks d)" using r(1) by simp
  show "tasks_ok (db_tasks d')" unfolding ts by (rule r(2))
  show q: "queue_ids team a (db_tasks d') = order"
    unfolding ts by (rule reposition_queue_ids[OF ok dist ids r(2)])
  have "started_lead team a (db_tasks d')"
    unfolding ts started_lead_iff[OF r(2)] using q[unfolded ts] lead by (simp cong: map_cong)
  then show "queue_ok team a (db_tasks d')"
    using reposition_contiguous[OF ok dist ids r(2)] ts by (simp add: queue_ok_def)
  show "(t, b) \<noteq> (team, a) \<Longrightarrow> qrows t b (db_tasks d') = qrows t b (db_tasks d)"
    unfolding ts by (rule reposition_other)
  show "list_all names_ok (db_tasks d') = list_all names_ok (db_tasks d)"
    unfolding ts by (rule names_reposition)
  show "state_of (db_tasks d') t i = state_of (db_tasks d) t i" unfolding ts by simp
qed (rule renumber_queue_Inr(1)[OF ok dist ids run])

lemma renumber_ledger:
  assumes ok: "tasks_ok (db_tasks d)" and names: "list_all names_ok (db_tasks d)"
    and others: "\<And>t b. (t, b) \<noteq> (team, a) \<Longrightarrow> queue_ok t b (db_tasks d)"
    and dist: "distinct order" and ids: "set order = member_ids (db_tasks d) team a"
    and lead: "sorted_wrt lead_order (map (state_of (db_tasks d) team) order)"
    and run: "renumber_queue env team a order d = Inr d'"
  shows "ledger_ok (db_tasks d')"
proof -
  note m = renumber_member[OF ok dist ids lead run]
  have "queue_ok t b (db_tasks d')" for t b
    using m(2) others[of t b] queue_ok_cong[OF m(4)[of t b]] by (cases "(t, b) = (team, a)") auto
  then show ?thesis using m(1,5) names by (simp add: ledger_ok_alt)
qed

section \<open>Decoded rows\<close>

lemma parse_stateD: "parse_state v o' = Inr st \<Longrightarrow> TaskState_as_str st = v"
  by (auto simp: parse_state_def bindE_eq_Inr_iff from_parts_def TaskState_as_str_def map_err_def
      split: if_splits sum.splits option.splits TaskStateTag.splits prod.splits)

lemma sql_parse_Inr: "sql_parse f v s = Inr x \<longleftrightarrow> f v = Inr x"
  by (cases "f v") (simp_all add: sql_parse_def)

lemma decode_rowD:
  assumes "decode_row r = Inr row" "names_ok r"
  shows "tr_team row = tc_team r" "tr_task_id row = tc_task_id r" "tr_assignee row = tc_assignee r"
    "tr_assigner row = tc_assigner r" "TaskState_as_str (tr_state row) = tc_state r"
    "tr_assignment_message_id row = tc_assignment_message_id r"
  using assms parse_stateD
  by (auto simp: decode_row_def bindE_eq_Inr_iff sql_parse_Inr names_ok_def
      team_name.parse_complete agent_name.parse_complete task_id.parse_complete)

lemma as_str_open: "is_open st \<longleftrightarrow> TaskState_as_str st \<noteq> ''complete''"
  by (cases st) (simp_all add: is_open_def TaskState_as_str_def)

lemma as_str_active: "TaskState_as_str st = ''active'' \<longleftrightarrow> st = Active"
  by (cases st) (simp_all add: TaskState_as_str_def)

text \<open>A loaded row is the row of the table under its key.\<close>

lemma load_task_row_Some:
  assumes "load_task_row env team i d = Inr (Some row)" "list_all names_ok (db_tasks d)"
  obtains r where "find (is_task team i) (db_tasks d) = Some r" "r \<in> set (db_tasks d)"
    "tc_team r = team" "tc_task_id r = i" "names_ok r" "decode_row r = Inr row"
    "tr_assignee row = tc_assignee r" "tr_assigner row = tc_assigner r"
    "TaskState_as_str (tr_state row) = tc_state r"
    "tr_assignment_message_id row = tc_assignment_message_id r"
proof -
  obtain r where r: "find (is_task team i) (db_tasks d) = Some r" "decode_row r = Inr row"
    using assms(1) unfolding load_task_row_def select_task_row_def transposeE_def
    by (cases "find (is_task team i) (db_tasks d)") (auto simp: map_err_def mapE_def split: sum.splits)
  note f = find_taskD[OF r(1)]
  have "names_ok r" using f assms(2) by (auto simp: list_all_iff)
  then show thesis using that r f decode_rowD[OF r(2)] by blast
qed

lemma load_task_row_None:
  assumes "load_task_row env team i d = Inr None"
  shows "r \<in> set (db_tasks d) \<Longrightarrow> \<not> is_task team i r"
  using assms unfolding load_task_row_def select_task_row_def transposeE_def
  by (cases "find (is_task team i) (db_tasks d)")
     (auto simp: map_err_def mapE_def find_None_iff split: sum.splits)

section \<open>Placements\<close>

lemma queue_ids_filter:
  "map tc_task_id (filter (\<lambda>r. tc_task_id r \<noteq> i) (qrows team a ts))
     = filter (\<lambda>j. j \<noteq> i) (queue_ids team a ts)"
  by (simp add: queue_ids_def filter_map comp_def)

lemma queue_states_filter:
  assumes "tasks_ok ts"
  shows "map tc_state (filter (\<lambda>r. tc_task_id r \<noteq> i) (qrows team a ts))
           = map (state_of ts team) (filter (\<lambda>j. j \<noteq> i) (queue_ids team a ts))"
proof -
  have "map tc_state (filter (\<lambda>r. tc_task_id r \<noteq> i) (qrows team a ts))
      = map (state_of ts team \<circ> tc_task_id) (filter (\<lambda>r. tc_task_id r \<noteq> i) (qrows team a ts))"
    using state_of_row[OF assms] by (intro map_cong) (auto simp: member_open_def)
  then show ?thesis by (simp flip: queue_ids_filter)
qed

text \<open>The states of a queue without one of its tasks are still in lead order.\<close>

lemma lead_without:
  assumes "tasks_ok ts" "queue_ok team a ts"
  shows "sorted_wrt lead_order (map (state_of ts team) (filter (\<lambda>j. j \<noteq> i) (queue_ids team a ts)))"
proof -
  have "sorted_wrt (\<lambda>r s. lead_order (tc_state r) (tc_state s)) (qrows team a ts)"
    using assms(2) by (simp add: queue_ok_def started_lead_def sorted_wrt_map)
  then have "sorted_wrt (\<lambda>r s. lead_order (tc_state r) (tc_state s))
      (filter (\<lambda>r. tc_task_id r \<noteq> i) (qrows team a ts))" by (rule sorted_wrt_filter)
  then show ?thesis by (simp add: sorted_wrt_map flip: queue_states_filter[OF assms(1)])
qed

lemma in_set_drop_nth:
  assumes "y \<in> set (drop k xs)"
  shows "\<exists>n. k + n < length xs \<and> y = xs ! (k + n)"
proof -
  obtain n where n: "n < length (drop k xs)" "drop k xs ! n = y"
    using assms unfolding in_set_conv_nth by blast
  then have "k \<le> length xs" "k + n < length xs" by simp_all
  then show ?thesis using n(2) by (intro exI[of _ n]) simp
qed

lemma drop_takeWhile_lead:
  assumes "sorted_wrt lead_order (map f xs)"
  shows "\<forall>y\<in>set (drop (length (takeWhile (\<lambda>s. s = ''active'') (map f xs))) xs). f y \<noteq> ''active''"
proof
  fix y
  let ?k = "length (takeWhile (\<lambda>s. s = ''active'') (map f xs))"
  assume "y \<in> set (drop ?k xs)"
  then obtain n where n: "?k + n < length xs" "y = xs ! (?k + n)"
    using in_set_drop_nth[of y ?k xs] by blast
  then have "?k < length (map f xs)" by simp
  from nth_length_takeWhile[OF this] have "map f xs ! ?k \<noteq> ''active''" .
  then have "map f xs ! (?k + n) \<noteq> ''active''"
    using lead_after[OF assms, of ?k "?k + n"] n(1) by simp
  then show "f y \<noteq> ''active''" using n by simp
qed

text \<open>Every placement the writer accepts is inside the queue and behind its started tasks.\<close>

lemma placement_index_ok:
  assumes ok: "tasks_ok (db_tasks d)" and names: "list_all names_ok (db_tasks d)"
    and q: "queue_ok team a (db_tasks d)"
    and order: "order = filter (\<lambda>j. j \<noteq> i) (queue_ids team a (db_tasks d))"
    and run: "placement_index env order i placement team a d = Inr k"
  shows "k \<le> length order" "\<forall>j\<in>set (drop k order). state_of (db_tasks d) team j \<noteq> ''active''"
proof -
  let ?f = "state_of (db_tasks d) team"
  have lead: "sorted_wrt lead_order (map ?f order)" unfolding order by (rule lead_without[OF ok q])
  have "k \<le> length order \<and> (\<forall>j\<in>set (drop k order). ?f j \<noteq> ''active'')"
  proof (cases placement)
    case MoveEnd
    then show ?thesis using run by (simp add: placement_index_def)
  next
    case MoveHead
    then have k: "k = length (takeWhile (\<lambda>st. st = ''active'') (map ?f order))"
      using run queue_states_filter[OF ok, of i team a]
      by (simp add: placement_index_def queue_rows_qrows order TaskState_as_str_def)
    then show ?thesis
      using drop_takeWhile_lead[OF lead] length_takeWhile_le[of _ "map ?f order"] by simp
  next
    case (MoveBefore other)
    then obtain row where row: "load_task_row env team other d = Inr (Some row)" "tr_state row = Assigned"
      and k: "position_of other order = Some k"
      using run by (auto simp: placement_index_def bindE_eq_Inr_iff split: option.splits if_splits)
    obtain r where "find (is_task team other) (db_tasks d) = Some r" "TaskState_as_str (tr_state row) = tc_state r"
      using load_task_row_Some[OF row(1) names] by metis
    then have other: "?f other \<noteq> ''active''" using row(2) by (auto simp: state_of_def TaskState_as_str_def)
    have kn: "k < length order" "order ! k = other" using position_of_SomeD[OF k] by auto
    have "?f j \<noteq> ''active''" if j: "j \<in> set (drop k order)" for j
    proof -
      obtain n where n: "k + n < length order" "j = order ! (k + n)"
        using in_set_drop_nth[OF j] by blast
      then have "map ?f order ! (k + n) \<noteq> ''active''"
        using lead_after[OF lead, of k "k + n"] kn other by simp
      then show ?thesis using n by simp
    qed
    then show ?thesis using kn by simp
  qed
  then show "k \<le> length order" "\<forall>j\<in>set (drop k order). ?f j \<noteq> ''active''" by auto
qed

end
