(* ===== verification/Mail_Table.thy ===== *)
theory Mail_Table
  imports Store
begin

text \<open>
  Mailbox storage: canonical insertion, the display-state row, duplicate loading,
  acknowledgement sources, read marking and deletion, as in
  \<^verbatim>\<open>atm-storage-rusqlite/src/writer/ops.rs\<close>, \<^verbatim>\<open>stmt_cache.rs\<close>, \<^verbatim>\<open>read_display_state.rs\<close>,
  \<^verbatim>\<open>task_report.rs\<close>, the cron fence of \<^verbatim>\<open>message_admission.rs\<close> and the search projection
  of \<^verbatim>\<open>search_schema.rs\<close>.  The full-text index that SQLite triggers maintain from the
  projection table is not represented.
\<close>

section \<open>Write origins and the cron fence\<close>

datatype MessageWriteOrigin =
    Local
  | Peer
  | CronRun (schedule_id: nat) (generation: "32 word")

definition is_local :: "MessageWriteOrigin \<Rightarrow> bool" where
  "is_local origin = (case origin of Local \<Rightarrow> True | CronRun _ _ \<Rightarrow> True | Peer \<Rightarrow> False)"

definition validate_cron_generation_fence :: "MessageWriteOrigin \<Rightarrow> db \<Rightarrow> AtmError + unit" where
  "validate_cron_generation_fence provenance d =
     (case provenance of
        CronRun sid gen \<Rightarrow>
          if int sid > 2 ^ 63 - 1 then
            Inl (err_validation ''cron schedule id exceeds the sqlite integer range'')
          else if map_of (db_cron_schedule d) (int sid) = Some (uint gen, 1) then Inr ()
          else Inl (err_validation_with_recovery
            ''cron action permit is stale or its schedule is no longer active''
            ''allow the current cron run to stop and let the scheduler start a fresh generation'')
      | _ \<Rightarrow> Inr ())"

section \<open>The search projection\<close>

text \<open>\<^verbatim>\<open>values.join(" ")\<close> on the flattened tag strings.\<close>

fun join_space :: "string list \<Rightarrow> string" where
  "join_space [] = []"
| "join_space [x] = x"
| "join_space (x # y # ys) = x @ '' '' @ join_space (y # ys)"

definition same_doc :: "string \<Rightarrow> string \<Rightarrow> string \<Rightarrow> SearchCols \<Rightarrow> bool" where
  "same_doc team agent key r \<longleftrightarrow> sd_team r = team \<and> sd_agent r = agent \<and> sd_message_key r = key"

definition sync_inserted_message_projection :: "MailCols \<Rightarrow> db \<Rightarrow> db" where
  "sync_inserted_message_projection m d =
     (let doc = \<lparr>sd_team = mc_team m, sd_agent = mc_agent m, sd_message_key = mc_message_key m,
            sd_message_id = mc_message_id m, sd_message_at = mc_message_at m,
            sd_body_text = (case mc_message_text m of Some t \<Rightarrow> t | None \<Rightarrow> []),
            sd_summary = (case mc_summary m of Some t \<Rightarrow> t | None \<Rightarrow> []),
            sd_tags = join_space (mc_tags m), sd_var_values = [],
            sd_from_agent = mc_from_agent m\<rparr>;
          same = same_doc (mc_team m) (mc_agent m) (mc_message_key m)
      in d\<lparr>db_search := (if list_ex same (db_search d)
             then map (\<lambda>r. if same r then doc else r) (db_search d)
             else db_search d @ [doc])\<rparr>)"

definition delete_message_projection :: "MessageKey \<Rightarrow> db \<Rightarrow> db" where
  "delete_message_projection key d =
     d\<lparr>db_search := filter (\<lambda>r. sd_message_key r \<noteq> key) (db_search d)\<rparr>"

section \<open>Preparing a row\<close>

definition MAX_ENVELOPE_JSON_BYTES :: nat where
  "MAX_ENVELOPE_JSON_BYTES = 1048576"

definition validate_message_record :: "Message \<Rightarrow> nat \<Rightarrow> AtmError + unit" where
  "validate_message_record record envelope_json_len =
     (if envelope_json_len > MAX_ENVELOPE_JSON_BYTES then
        Inl (err_validation
          ''mail-store envelope JSON exceeded the writer lane limit of 1048576 bytes'')
      else if \<not> prefix ''atm:'' (msg_message_key record) \<and> \<not> prefix ''ext:'' (msg_message_key record) then
        Inl (err_validation
          (''mail-store message_key must start with `atm:` or `ext:`; got `'' @ msg_message_key record @ ''`''))
      else Inr ())"

definition validate_upsert_message_request :: "env \<Rightarrow> Message \<Rightarrow> AtmError + unit" where
  "validate_upsert_message_request env record =
     (if env_json_len env (StorageEnvelope_new (msg_envelope record)) > MAX_ENVELOPE_JSON_BYTES then
        Inl (err_validation
          ''mail-store envelope JSON exceeded the writer lane limit of 1048576 bytes'')
      else Inr ())"

definition classification_string ::
  "(string \<times> json) list \<Rightarrow> string \<Rightarrow> AtmError + string option" where
  "classification_string extra key =
     (case map_of extra key of
        None \<Rightarrow> Inr None
      | Some JNull \<Rightarrow> Inr None
      | Some (JString v) \<Rightarrow> Inr (Some v)
      | Some _ \<Rightarrow> Inl (err_mailbox_write
          (''message classification metadata '' @ [CHR 0x27] @ key @ [CHR 0x27]
            @ '' must be a string or null'')))"

definition tags_error :: AtmError where
  "tags_error = err_mailbox_write
     (''message classification metadata '' @ [CHR 0x27] @ ''tags'' @ [CHR 0x27]
       @ '' must be an array of strings'')"

definition classification_tags :: "(string \<times> json) list \<Rightarrow> AtmError + string list" where
  "classification_tags extra =
     (case map_of extra ''tags'' of
        None \<Rightarrow> Inr []
      | Some (JArray values) \<Rightarrow>
          collectE (\<lambda>v. case v of JString t \<Rightarrow> Inr t | _ \<Rightarrow> Inl tags_error) values
      | Some _ \<Rightarrow> Inl tags_error)"

definition message_classification ::
  "(string \<times> json) list \<Rightarrow> AtmError + (string option \<times> string option \<times> string list)" where
  "message_classification extra =
     bindE (classification_tags extra) (\<lambda>tags.
     bindE (classification_string extra ''category'') (\<lambda>category.
     bindE (classification_string extra ''content_format'') (\<lambda>content_format.
     Inr (category, content_format, tags))))"

definition sqlite_thread_mode :: "ThreadMode option \<Rightarrow> string option" where
  "sqlite_thread_mode mode =
     (case mode of Some AddDetails \<Rightarrow> Some ''add-details'' | Some Supersede \<Rightarrow> Some ''supersede''
      | None \<Rightarrow> None)"

definition prepare_message_insert_values :: "env \<Rightarrow> Message \<Rightarrow> AtmError + MailCols" where
  "prepare_message_insert_values env record =
     (let e = msg_envelope record; stored = StorageEnvelope_new e in
      bindE (validate_message_record record (env_json_len env stored)) (\<lambda>_.
      bindE (message_classification (me_extra e)) (\<lambda>(category, content_format, tags).
      Inr \<lparr>mc_team = msg_team record, mc_agent = msg_agent record,
           mc_message_key = msg_message_key record, mc_envelope_json = stored,
           mc_from_agent = me_from e, mc_source_chat_id = me_source_chat_id e,
           mc_destination_chat_id = me_destination_chat_id e, mc_message_text = Some (me_text e),
           mc_category = category, mc_content_format = content_format, mc_tags = tags,
           mc_summary = me_summary e, mc_message_at = me_timestamp e,
           mc_message_id = me_message_id e, mc_parent_message_id = me_parent_message_id e,
           mc_thread_mode = sqlite_thread_mode (me_thread_mode e),
           mc_recorded_at = Some (env_now env)\<rparr>)))"

section \<open>Canonical insertion\<close>

definition same_mail :: "string \<Rightarrow> string \<Rightarrow> string \<Rightarrow> MailCols \<Rightarrow> bool" where
  "same_mail team agent key m \<longleftrightarrow> mc_team m = team \<and> mc_agent m = agent \<and> mc_message_key m = key"

definition same_state :: "string \<Rightarrow> string \<Rightarrow> string \<Rightarrow> StateCols \<Rightarrow> bool" where
  "same_state team agent key s \<longleftrightarrow> sc_team s = team \<and> sc_agent s = agent \<and> sc_message_key s = key"

text \<open>The checks and the two partial unique indexes: one message id and one successor of a
  parent per mailbox.\<close>

definition mail_check :: "MailCols \<Rightarrow> bool" where
  "mail_check m \<longleftrightarrow>
     (case mc_thread_mode m of None \<Rightarrow> True | Some t \<Rightarrow> t \<in> {''add-details'', ''supersede''})
     \<and> (prefix ''atm:'' (mc_message_key m) \<or> prefix ''ext:'' (mc_message_key m))"

definition mail_clash :: "MailCols \<Rightarrow> MailCols \<Rightarrow> bool" where
  "mail_clash m x \<longleftrightarrow>
     mc_team x = mc_team m \<and> mc_agent x = mc_agent m \<and>
     (mc_message_key x = mc_message_key m
      \<or> mc_message_id m \<noteq> None \<and> mc_message_id x = mc_message_id m
      \<or> mc_parent_message_id m \<noteq> None \<and> mc_parent_message_id x = mc_parent_message_id m)"

definition mail_bad :: "MailCols \<Rightarrow> MailCols list \<Rightarrow> bool" where
  "mail_bad m others \<longleftrightarrow> \<not> mail_check m \<or> list_ex (mail_clash m) others"

text \<open>\<^verbatim>\<open>INSERT ... ON CONFLICT(team, agent, message_key) DO NOTHING\<close>.\<close>

definition insert_message_row :: "MailCols \<Rightarrow> db \<Rightarrow> sql_error + (db \<times> bool)" where
  "insert_message_row m d =
     (if list_ex (same_mail (mc_team m) (mc_agent m) (mc_message_key m)) (db_mail_messages d)
      then Inr (d, False)
      else bindE (insert_row mail_bad m (db_mail_messages d)) (\<lambda>rows.
        Inr (d\<lparr>db_mail_messages := rows\<rparr>, True)))"

definition map_message_insert_error :: "env \<Rightarrow> sql_error \<Rightarrow> AtmError" where
  "map_message_insert_error env error =
     (case error of
        ConstraintViolation \<Rightarrow> with_cause (err_validation
          ''mail-store message violates a durable message-id or successor uniqueness invariant'')
          (env_sql_display env error)
      | _ \<Rightarrow> sqlite_error env ''failed to upsert mail-store message'' error)"

text \<open>\<^verbatim>\<open>INSERT INTO mail_message_states ... ON CONFLICT DO UPDATE\<close>: the row of a message that
  is read and owes no acknowledgement loses its pending nudge.\<close>

definition upsert_message_state :: "StateCols \<Rightarrow> db \<Rightarrow> db" where
  "upsert_message_state new d =
     (let same = same_state (sc_team new) (sc_agent new) (sc_message_key new) in
      d\<lparr>db_mail_states :=
         (if list_ex same (db_mail_states d)
          then map (\<lambda>s. if same s then
              s\<lparr>sc_read := sc_read new, sc_pending_ack_at := sc_pending_ack_at new,
                sc_acknowledged_at := sc_acknowledged_at new, sc_expires_at := sc_expires_at new,
                sc_deleted_at := sc_deleted_at new, sc_updated_at := sc_updated_at new,
                sc_nudge_pending_at :=
                  (if sc_read new \<and> \<not> (sc_pending_ack_at new \<noteq> None \<and> sc_acknowledged_at new = None)
                   then None else sc_nudge_pending_at s)\<rparr>
            else s) (db_mail_states d)
          else db_mail_states d @ [new])\<rparr>)"

definition insert_initial_message_state :: "env \<Rightarrow> Message \<Rightarrow> db \<Rightarrow> db" where
  "insert_initial_message_state env record d =
     (let e = msg_envelope record in
      upsert_message_state
        \<lparr>sc_team = msg_team record, sc_agent = msg_agent record,
         sc_message_key = msg_message_key record, sc_read = me_read e,
         sc_pending_ack_at = me_pending_ack_at e, sc_acknowledged_at = me_acknowledged_at e,
         sc_expires_at = me_expires_at e, sc_deleted_at = None,
         sc_updated_at = Some (env_now env), sc_nudge_pending_at = None,
         sc_nudge_attempts = 0\<rparr> d)"

definition insert_message_canonical :: "env \<Rightarrow> Message \<Rightarrow> db \<Rightarrow> AtmError + (db \<times> bool)" where
  "insert_message_canonical env record d =
     bindE (prepare_message_insert_values env record) (\<lambda>values.
     bindE (map_err (map_message_insert_error env) (insert_message_row values d)) (\<lambda>(d1, inserted).
       let d2 = (if inserted then sync_inserted_message_projection values d1 else d1)
       in Inr (insert_initial_message_state env record d2, inserted)))"

section \<open>Loading\<close>

definition find_mail :: "string \<Rightarrow> string \<Rightarrow> string \<Rightarrow> db \<Rightarrow> MailCols option" where
  "find_mail team agent key d = find (same_mail team agent key) (db_mail_messages d)"

definition find_state :: "string \<Rightarrow> string \<Rightarrow> string \<Rightarrow> db \<Rightarrow> StateCols option" where
  "find_state team agent key d = find (same_state team agent key) (db_mail_states d)"

definition load_existing_message :: "Message \<Rightarrow> db \<Rightarrow> AtmError + Message" where
  "load_existing_message requested d =
     (case find_mail (msg_team requested) (msg_agent requested) (msg_message_key requested) d of
        None \<Rightarrow> Inl (err_daemon_unavailable
          ''sqlite writer reported an existing message key but the retained record could not be loaded'')
      | Some m \<Rightarrow>
          let st = find_state (mc_team m) (mc_agent m) (mc_message_key m) d in
          bindE (map_err (\<lambda>error. err_validation (''failed to parse sqlite team for duplicate message ''
                    @ msg_message_key requested @ '': '' @ err_message error))
                  (TeamName_from_str (mc_team m))) (\<lambda>team.
          bindE (map_err (\<lambda>error. err_validation (''failed to parse sqlite agent for duplicate message ''
                    @ msg_message_key requested @ '': '' @ err_message error))
                  (AgentName_from_str (mc_agent m))) (\<lambda>agent.
          Inr \<lparr>msg_team = team, msg_agent = agent, msg_message_key = msg_message_key requested,
               msg_envelope = (decode_envelope (mc_envelope_json m))
                 \<lparr>me_read := (case st of Some s \<Rightarrow> sc_read s | None \<Rightarrow> False),
                  me_pending_ack_at := Option.bind st sc_pending_ack_at,
                  me_acknowledged_at := Option.bind st sc_acknowledged_at,
                  me_expires_at := Option.bind st sc_expires_at\<rparr>\<rparr>)))"

definition mark_source_acknowledged :: "IsoTimestamp \<Rightarrow> Message \<Rightarrow> Message" where
  "mark_source_acknowledged now source =
     source\<lparr>msg_envelope := (msg_envelope source)
       \<lparr>me_read := True, me_pending_ack_at := None, me_acknowledged_at := Some now\<rparr>\<rparr>"

record AcknowledgementSource =
  as_team :: TeamName
  as_agent :: AgentName
  as_message_id :: AtmMessageId

definition load_acknowledgement_source_row ::
  "env \<Rightarrow> AcknowledgementSource \<Rightarrow> db \<Rightarrow> AtmError + (MailCols \<times> StateCols)" where
  "load_acknowledgement_source_row env source d =
     (let joined = List.map_filter (\<lambda>m.
            if mc_team m = as_team source \<and> mc_agent m = as_agent source
               \<and> mc_message_id m = Some (as_message_id source)
            then (case find_state (mc_team m) (mc_agent m) (mc_message_key m) d of
                    Some s \<Rightarrow> if sc_deleted_at s = None then Some (m, s) else None
                  | None \<Rightarrow> None)
            else None) (db_mail_messages d)
      in case joined of
           x # _ \<Rightarrow> Inr x
         | [] \<Rightarrow> Inl (err_validation_with_recovery
             (''message '' @ env_ulid_str env (as_message_id source) @ '' was not found in ''
               @ as_agent source @ ''@'' @ as_team source
               @ ''; it is unknown or not addressed to the caller'')
             (''verify the message ID belongs to the caller'' @ [CHR 0x27]
               @ ''s mailbox before retrying `atm ack`'')))"

definition reject_acknowledgement_source_with_successor ::
  "env \<Rightarrow> AcknowledgementSource \<Rightarrow> db \<Rightarrow> AtmError + unit" where
  "reject_acknowledgement_source_with_successor env source d =
     (if list_ex (\<lambda>m. mc_team m = as_team source \<and> mc_agent m = as_agent source
           \<and> mc_parent_message_id m = Some (as_message_id source)) (db_mail_messages d)
      then Inl (err_validation (''message '' @ env_ulid_str env (as_message_id source)
        @ '' has been updated; acknowledge the current terminal message instead''))
      else Inr ())"

definition decode_pending_acknowledgement_source ::
  "env \<Rightarrow> AcknowledgementSource \<Rightarrow> MailCols \<times> StateCols \<Rightarrow> AtmError + Message" where
  "decode_pending_acknowledgement_source env source row =
     (let (m, s) = row;
          envelope = (decode_envelope (mc_envelope_json m))
            \<lparr>me_read := sc_read s, me_pending_ack_at := sc_pending_ack_at s,
             me_acknowledged_at := sc_acknowledged_at s, me_expires_at := sc_expires_at s\<rparr>
      in if me_pending_ack_at envelope = None then
           Inl (err_validation_with_recovery
             (''message '' @ env_ulid_str env (as_message_id source) @ '' is ''
               @ (if me_acknowledged_at envelope \<noteq> None then ''already acknowledged''
                  else ''not pending acknowledgement''))
             ''only messages with a pending acknowledgement can be acknowledged; use `atm read --pending-ack` to inspect them'')
         else bindE (MessageKey_new (mc_message_key m)) (\<lambda>key.
           Inr \<lparr>msg_team = as_team source, msg_agent = as_agent source, msg_message_key = key,
                msg_envelope = envelope\<rparr>))"

definition load_pending_ack_source ::
  "env \<Rightarrow> AcknowledgementSource \<Rightarrow> db \<Rightarrow> AtmError + Message" where
  "load_pending_ack_source env source d =
     bindE (load_acknowledgement_source_row env source d) (\<lambda>row.
     bindE (reject_acknowledgement_source_with_successor env source d) (\<lambda>_.
     decode_pending_acknowledgement_source env source row))"

section \<open>Display state and deletion\<close>

definition TASK_REMINDER_INTERVAL_MS :: int where
  "TASK_REMINDER_INTERVAL_MS = 60000"

definition next_reminder_due :: "IsoTimestamp \<Rightarrow> IsoTimestamp" where
  "next_reminder_due now = now + TASK_REMINDER_INTERVAL_MS * 1000000"

text \<open>The number of rows an update matched decides whether the message was found.\<close>

definition mark_message_read ::
  "string \<Rightarrow> string \<Rightarrow> MessageKey \<Rightarrow> IsoTimestamp \<Rightarrow> IsoTimestamp \<Rightarrow> db \<Rightarrow> db \<times> nat" where
  "mark_message_read team agent key updated_at next_due d =
     (let hit = (\<lambda>s. same_state team agent key s \<and> sc_deleted_at s = None) in
      (d\<lparr>db_mail_states := map (\<lambda>s. if hit s then
           s\<lparr>sc_read := True, sc_updated_at := Some updated_at,
             sc_nudge_pending_at :=
               (if sc_nudge_pending_at s \<noteq> None \<and> sc_pending_ack_at s \<noteq> None
                   \<and> sc_acknowledged_at s = None
                then Some next_due else None)\<rparr> else s) (db_mail_states d)\<rparr>,
       length (filter hit (db_mail_states d))))"

fun mark_all_read ::
  "env \<Rightarrow> string \<Rightarrow> string \<Rightarrow> MessageKey list \<Rightarrow> db \<Rightarrow> AtmError + db" where
  "mark_all_read env team agent [] d = Inr d"
| "mark_all_read env team agent (key # keys) d =
     (let (d1, updated) = mark_message_read team agent key (env_now env)
            (next_reminder_due (env_now env)) d
      in if updated \<noteq> 1 then
           Inl (err_mailbox_read (''message '' @ key @ '' was not found for '' @ agent @ ''@'' @ team
             @ '' while applying read display state''))
         else mark_all_read env team agent keys d1)"

definition execute_read_display_state ::
  "env \<Rightarrow> string \<Rightarrow> string \<Rightarrow> MessageKey list \<Rightarrow> IsoTimestamp option \<Rightarrow> MessageWriteOrigin \<Rightarrow> db
   \<Rightarrow> AtmError + db" where
  "execute_read_display_state env team agent message_ids seen_watermark provenance d =
     bindE (validate_cron_generation_fence provenance d) (\<lambda>_.
     bindE (mark_all_read env team agent message_ids d) (\<lambda>d1.
     Inr (case seen_watermark of
            None \<Rightarrow> d1
          | Some w \<Rightarrow> d1\<lparr>db_watermarks := ((team, agent), w)
              # filter (\<lambda>(k, _). k \<noteq> (team, agent)) (db_watermarks d1)\<rparr>)))"

definition execute_delete_message ::
  "MessageKey \<Rightarrow> MessageWriteOrigin \<Rightarrow> db \<Rightarrow> AtmError + db" where
  "execute_delete_message key provenance d =
     bindE (validate_cron_generation_fence provenance d) (\<lambda>_.
       let d1 = delete_message_projection key d;
           d2 = d1\<lparr>db_mail_states := filter (\<lambda>s. sc_message_key s \<noteq> key) (db_mail_states d1)\<rparr>
       in Inr (d2\<lparr>db_mail_messages := filter (\<lambda>m. mc_message_key m \<noteq> key) (db_mail_messages d2)\<rparr>))"

text \<open>A governed report that was refused stays in the mailbox without its task link.\<close>

definition drop_task_link_from_mail :: "Message \<Rightarrow> db \<Rightarrow> db" where
  "drop_task_link_from_mail record d =
     (let envelope = (msg_envelope record)
            \<lparr>me_task_id := None, me_task_op := None, me_task_complete := None, me_placement := None\<rparr>
      in d\<lparr>db_mail_messages := map (\<lambda>m.
           if same_mail (msg_team record) (msg_agent record) (msg_message_key record) m
           then m\<lparr>mc_envelope_json := StorageEnvelope_new envelope\<rparr> else m) (db_mail_messages d)\<rparr>)"

section \<open>The constraints as a contract\<close>

interpretation mailboxes: constrained_table mail_check mail_clash mail_bad
  by unfold_locales (auto simp: mail_bad_def mail_clash_def)

end
