(* ===== verification/Task_Writer.thy ===== *)
theory Task_Writer
  imports Ledger Mail_Table
begin

text \<open>
  The task-ledger mutations of the serial writer: \<^verbatim>\<open>writer/task_ops.rs\<close> (assignment, move,
  audit of rejections), \<^verbatim>\<open>task_start.rs\<close>, \<^verbatim>\<open>task_close.rs\<close>, \<^verbatim>\<open>task_assignment_refresh.rs\<close>,
  \<^verbatim>\<open>task_reassign_notice.rs\<close>, and the admission of a message with its task effects,
  \<^verbatim>\<open>message_admission.rs\<close> and \<^verbatim>\<open>ops.rs\<close>.

  An operation returns the store it leaves behind, or a fault: an error value, or the
  panic of an arm the source marks \<^verbatim>\<open>unreachable!\<close>.  Closing a task writes its
  assignment message back through the same admission, so admission is defined by
  recursion on a bound; \<open>Unbounded\<close> is the value when the bound is reached.
\<close>

section \<open>Faults\<close>

datatype fault = Fail AtmError | Panic | Unbounded

definition liftE :: "AtmError + 'a \<Rightarrow> fault + 'a" where
  "liftE m = map_err Fail m"

definition run_transition :: "(TaskRejected + TaskState) option \<Rightarrow> fault + TaskState" where
  "run_transition t =
     (case t of None \<Rightarrow> Inl Panic
      | Some r \<Rightarrow> map_err (\<lambda>e. Fail (into_atm_error e)) r)"

text \<open>\<^verbatim>\<open>Vec::insert\<close>, which panics past the end.\<close>

definition vec_insert :: "nat \<Rightarrow> 'a \<Rightarrow> 'a list \<Rightarrow> fault + 'a list" where
  "vec_insert i x xs = (if i > length xs then Inl Panic else Inr (insert_at i x xs))"

section \<open>Starting a task\<close>

definition load_startable_task :: "env \<Rightarrow> Message \<Rightarrow> TaskId \<Rightarrow> db \<Rightarrow> AtmError + TaskRow" where
  "load_startable_task env record task_id d =
     (let sender = me_from (msg_envelope record) in
      bindE (load_task_row env (msg_team record) task_id d) (\<lambda>row.
      case row of
        None \<Rightarrow> Inl (task_not_found (''no open task '' @ task_id @ '' for '' @ sender))
      | Some r \<Rightarrow>
          if \<not> is_open (tr_state r) then
            Inl (task_already_closed (''no open task '' @ task_id @ '' for '' @ sender))
          else if sender \<noteq> tr_assignee r then
            Inl (task_not_counterparty (''task '' @ task_id @ '' is not assigned to '' @ sender))
          else Inr r))"

definition MAX_TASKS_METADATA_KEY :: string where
  "MAX_TASKS_METADATA_KEY = ''max_tasks''"

definition invalid_max_tasks :: "Message \<Rightarrow> AgentName \<Rightarrow> AtmError" where
  "invalid_max_tasks record assignee =
     err_validation_with_recovery
       (assignee @ '' in team '' @ msg_team record @ '' has an invalid max_tasks: it must be an integer of at least 1'')
       (''set it with `atm teams update-member '' @ msg_team record @ '' '' @ assignee @ '' --max-tasks <N>`'')"

definition member_max_tasks :: "env \<Rightarrow> Message \<Rightarrow> AgentName \<Rightarrow> db \<Rightarrow> AtmError + MaxTasks" where
  "member_max_tasks env record assignee d =
     bindE (case map_of (db_roster d) (msg_team record, assignee) of
              None \<Rightarrow> Inr None
            | Some text \<Rightarrow> (case env_parse_json env text of
                  None \<Rightarrow> Inl (invalid_max_tasks record assignee)
                | Some v \<Rightarrow> Inr (Some v))) (\<lambda>stored_value.
       case from_metadata_value (Option.bind stored_value (\<lambda>m. json_get m MAX_TASKS_METADATA_KEY)) of
         None \<Rightarrow> Inl (invalid_max_tasks record assignee)
       | Some m \<Rightarrow> Inr m)"

definition other_active_count :: "TeamName \<Rightarrow> AgentName \<Rightarrow> TaskId \<Rightarrow> db \<Rightarrow> nat" where
  "other_active_count team assignee task_id d =
     length (filter (\<lambda>r. tc_team r = team \<and> tc_assignee r = assignee \<and> tc_state r = ''active''
       \<and> tc_task_id r \<noteq> task_id) (db_tasks d))"

definition reject_over_max_tasks ::
  "env \<Rightarrow> Message \<Rightarrow> TaskId \<Rightarrow> TaskRow \<Rightarrow> db \<Rightarrow> AtmError + nat" where
  "reject_over_max_tasks env record task_id row d =
     (let count = other_active_count (msg_team record) (tr_assignee row) task_id d;
          active = min count (2 ^ 32 - 1)
      in bindE (member_max_tasks env record (tr_assignee row) d) (\<lambda>mx.
         if active \<ge> unat mx then
           Inl (task_max_active_reached
             (''task '' @ task_id @ '': '' @ tr_assignee row @ '' already has '' @ nat_str active
               @ '' active task(s); max_tasks is '' @ nat_str (unat mx))
             (''Complete or cancel an active task, or raise the limit with `atm teams update-member ''
               @ msg_team record @ '' '' @ tr_assignee row @ '' --max-tasks <N>`.''))
         else Inr active))"

definition apply_task_start ::
  "env \<Rightarrow> Message \<Rightarrow> TaskId \<Rightarrow> db \<Rightarrow> fault + (db \<times> AgentName \<times> TaskEventRow)" where
  "apply_task_start env record task_id d =
     (let team = msg_team record; e = msg_envelope record in
      bindE (liftE (load_startable_task env record task_id d)) (\<lambda>row.
      if tr_state row = Active then
        Inl (Fail (task_already_active (''task '' @ task_id @ '' is already active'')))
      else
      bindE (run_transition (transition (Some (tr_state row)) EvStarted task_id (me_from e)
               (Some (tr_assignee row)) (tr_assignee row))) (\<lambda>next_state.
      bindE (liftE (reject_over_max_tasks env record task_id row d)) (\<lambda>other_active.
      bindE (liftE (queue_order team (tr_assignee row) d)) (\<lambda>order0.
      bindE (vec_insert other_active task_id (filter (\<lambda>i. i \<noteq> task_id) order0)) (\<lambda>order.
      bindE (liftE (run_update env ''failed to start task'' (is_task team task_id)
               (\<lambda>r. r\<lparr>tc_state := TaskState_as_str next_state, tc_lead_notified_count := 0,
                      tc_updated_at := me_timestamp e\<rparr>) d)) (\<lambda>d1.
      bindE (liftE (renumber_queue env team (tr_assignee row)
               order d1)) (\<lambda>d2.
      bindE (liftE (append_task_event env
               \<lparr>dr_team = team, dr_task_id = task_id, dr_assignee = tr_assignee row,
                dr_at = me_timestamp e, dr_event = KStarted,
                dr_from_state = Some (TaskState_tag (tr_state row)),
                dr_to_state = Some (TaskState_tag next_state), dr_close_outcome = None,
                dr_actor = me_from e, dr_message_id = me_message_id e, dr_outcome = None,
                dr_marker = None, dr_detail = None\<rparr> d2)) (\<lambda>(d3, event).
      Inr (d3, tr_assignee row, event))))))))))"

section \<open>Moving a task\<close>

definition arrow :: string where
  "arrow = [CHR 0xE2, CHR 0x86, CHR 0x92]"

definition queue_position_of :: "TaskId list \<Rightarrow> TaskId \<Rightarrow> AtmError + QueuePosition" where
  "queue_position_of order task_id =
     (case position_of task_id order of
        Some index \<Rightarrow> if index + 1 < 2 ^ 32 then Inr (of_nat (index + 1))
                      else Inl (task_move_invalid ''task move produced no queue position'')
      | None \<Rightarrow> Inl (task_move_invalid ''task move produced no queue position''))"

record TaskMoveRecord =
  mv_assignee :: AgentName
  mv_from :: QueuePosition
  mv_to :: QueuePosition
  mv_event :: TaskEventRow

definition moved_draft ::
  "TeamName \<Rightarrow> TaskId \<Rightarrow> AgentName \<Rightarrow> IsoTimestamp \<Rightarrow> TaskRow \<Rightarrow> TaskState \<Rightarrow> string \<Rightarrow> TaskEventDraft" where
  "moved_draft team task_id actor at row next_state detail =
     \<lparr>dr_team = team, dr_task_id = task_id, dr_assignee = tr_assignee row, dr_at = at,
      dr_event = KMoved, dr_from_state = Some (TaskState_tag (tr_state row)),
      dr_to_state = Some (TaskState_tag next_state), dr_close_outcome = None,
      dr_actor = actor, dr_message_id = None, dr_outcome = None, dr_marker = None,
      dr_detail = Some detail\<rparr>"

definition append_active_task_move ::
  "env \<Rightarrow> TeamName \<Rightarrow> TaskId \<Rightarrow> AgentName \<Rightarrow> IsoTimestamp \<Rightarrow> TaskRow \<Rightarrow> TaskState \<Rightarrow> QueuePosition
   \<Rightarrow> db \<Rightarrow> AtmError + (db \<times> TaskEventRow)" where
  "append_active_task_move env team task_id actor at row next_state position d =
     append_task_event env (moved_draft team task_id actor at row next_state
       (nat_str (unat position) @ arrow @ nat_str (unat position))) d"

definition apply_queued_task_move ::
  "env \<Rightarrow> TeamName \<Rightarrow> TaskId \<Rightarrow> AgentName \<Rightarrow> MoveTarget \<Rightarrow> IsoTimestamp \<Rightarrow> TaskRow \<Rightarrow> TaskState
   \<Rightarrow> db \<Rightarrow> AtmError + (db \<times> TaskMoveRecord)" where
  "apply_queued_task_move env team task_id actor target_pos at row next_state d =
     (case tr_position row of
        None \<Rightarrow> Inl (task_move_invalid ''open task has no queue position'')
      | Some from_pos \<Rightarrow>
          bindE (queue_order team (tr_assignee row) d) (\<lambda>order0.
          bindE (insert_at_placement env (filter (\<lambda>i. i \<noteq> task_id) order0) task_id target_pos
                   team (tr_assignee row) d) (\<lambda>order.
          bindE (renumber_queue env team (tr_assignee row) order d) (\<lambda>d1.
          bindE (queue_position_of order task_id) (\<lambda>to_pos.
          bindE (append_task_event env (moved_draft team task_id actor at row next_state
                   (nat_str (unat from_pos) @ arrow @ nat_str (unat to_pos))) d1) (\<lambda>(d2, event).
          Inr (d2, \<lparr>mv_assignee = tr_assignee row, mv_from = from_pos, mv_to = to_pos,
                    mv_event = event\<rparr>)))))))"

definition apply_task_move ::
  "env \<Rightarrow> TeamName \<Rightarrow> TaskId \<Rightarrow> AgentName \<Rightarrow> MoveTarget \<Rightarrow> IsoTimestamp \<Rightarrow> db
   \<Rightarrow> fault + (db \<times> TaskMoveRecord)" where
  "apply_task_move env team task_id actor target_pos at d =
     bindE (liftE (load_task_row env team task_id d)) (\<lambda>row_opt.
     case row_opt of
       None \<Rightarrow> Inl (Fail (task_not_found (''no open task '' @ task_id @ '' for '' @ actor)))
     | Some row \<Rightarrow>
         if \<not> is_open (tr_state row) then
           Inl (Fail (task_already_closed (''no open task '' @ task_id @ '' for '' @ actor)))
         else
         bindE (run_transition (transition (Some (tr_state row)) EvAssigned task_id actor
                  (Some (tr_assignee row)) (tr_assignee row))) (\<lambda>next_state.
         if tr_state row = Active then
           bindE (liftE (queue_order team (tr_assignee row) d)) (\<lambda>order.
           bindE (liftE (queue_position_of order task_id)) (\<lambda>position.
           bindE (liftE (append_active_task_move env team task_id actor at row next_state position d))
             (\<lambda>(d1, event).
           Inr (d1, \<lparr>mv_assignee = tr_assignee row, mv_from = position, mv_to = position,
                     mv_event = event\<rparr>))))
         else liftE (apply_queued_task_move env team task_id actor target_pos at row next_state d)))"

section \<open>Assigning a task\<close>

definition refresh_same_assignment ::
  "env \<Rightarrow> Message \<Rightarrow> TaskId \<Rightarrow> TaskRow option \<Rightarrow> AtmMessageId \<Rightarrow> db \<Rightarrow> AtmError + (db \<times> nat) option" where
  "refresh_same_assignment env record task_id row message_id d =
     (case row of
        Some r \<Rightarrow>
          if is_open (tr_state r) \<and> tr_assignee r = msg_agent record then
            bindE (run_update env ''failed to refresh task assignment'' (is_task (msg_team record) task_id)
                     (\<lambda>c. c\<lparr>tc_assignment_message_id := message_id,
                            tc_description := me_text (msg_envelope record),
                            tc_updated_at := me_timestamp (msg_envelope record)\<rparr>) d) (\<lambda>d1.
            Inr (Some (d1, case tr_position r of Some p \<Rightarrow> unat p | None \<Rightarrow> 1)))
          else Inr None
      | None \<Rightarrow> Inr None)"

definition release_previous_assignment ::
  "env \<Rightarrow> Message \<Rightarrow> TaskId \<Rightarrow> TaskRow option \<Rightarrow> db \<Rightarrow> AtmError + db" where
  "release_previous_assignment env record task_id row d =
     (case row of
        Some r \<Rightarrow>
          if is_open (tr_state r) then
            bindE (queue_order (msg_team record) (tr_assignee r) d) (\<lambda>order.
            let old_order = filter (\<lambda>i. i \<noteq> task_id) order in
            bindE (run_update env ''failed to release old task position''
                     (member_open (msg_team record) (tr_assignee r))
                     (offset_positions (int (length old_order + 1))) d) (\<lambda>d1.
            write_queue_positions env (msg_team record) old_order d1))
          else Inr d
      | None \<Rightarrow> Inr d)"

definition assignment_row ::
  "Message \<Rightarrow> TaskId \<Rightarrow> nat \<Rightarrow> AtmMessageId \<Rightarrow> IsoTimestamp \<Rightarrow> TaskState \<Rightarrow> TaskCols" where
  "assignment_row record task_id temporary message_id at next_state =
     \<lparr>tc_team = msg_team record, tc_task_id = task_id, tc_assignee = msg_agent record,
      tc_assigner = me_from (msg_envelope record), tc_state = TaskState_as_str next_state,
      tc_close_outcome = None, tc_position = Some (int temporary),
      tc_assignment_message_id = message_id, tc_description = me_text (msg_envelope record),
      tc_assigned_at = at, tc_updated_at = at, tc_last_reminded_at = None,
      tc_reminder_count = 0, tc_lead_notified_count = 0\<rparr>"

text \<open>The update of an existing row sets every column but its key, so it leaves the same row
  as the insert.\<close>

definition apply_task_assignment_row ::
  "env \<Rightarrow> Message \<Rightarrow> TaskId \<Rightarrow> TaskRow option \<Rightarrow> nat \<Rightarrow> AtmMessageId \<Rightarrow> IsoTimestamp \<Rightarrow> TaskState
   \<Rightarrow> db \<Rightarrow> AtmError + db" where
  "apply_task_assignment_row env record task_id row temporary message_id at next_state d =
     (let new = assignment_row record task_id temporary message_id at next_state in
      case row of
        Some _ \<Rightarrow>
          run_update env ''failed to reassign task'' (is_task (msg_team record) task_id) (\<lambda>_. new) d
      | None \<Rightarrow>
          bindE (map_err (sqlite_error env ''failed to insert task assignment'')
                   (insert_row tasks_bad new (db_tasks d))) (\<lambda>rows.
          Inr (d\<lparr>db_tasks := rows\<rparr>)))"

definition renumber_previous_assignment ::
  "env \<Rightarrow> Message \<Rightarrow> TaskRow option \<Rightarrow> db \<Rightarrow> AtmError + db" where
  "renumber_previous_assignment env record row d =
     (case row of
        Some old \<Rightarrow>
          if is_open (tr_state old) then
            bindE (queue_order (msg_team record) (tr_assignee old) d) (\<lambda>old_order.
            renumber_queue env (msg_team record) (tr_assignee old) old_order d)
          else Inr d
      | None \<Rightarrow> Inr d)"

definition append_assignment_event ::
  "env \<Rightarrow> Message \<Rightarrow> TaskId \<Rightarrow> TaskRow option \<Rightarrow> bool \<Rightarrow> AtmMessageId \<Rightarrow> IsoTimestamp \<Rightarrow> TaskState
   \<Rightarrow> db \<Rightarrow> AtmError + (db \<times> TaskEventRow)" where
  "append_assignment_event env record task_id row was_closed message_id at next_state d =
     append_task_event env
       \<lparr>dr_team = msg_team record, dr_task_id = task_id, dr_assignee = msg_agent record,
        dr_at = at,
        dr_event = (if was_closed then KReopened else if row \<noteq> None then KReassigned else KAssigned),
        dr_from_state = map_option (\<lambda>r. TaskState_tag (tr_state r)) row,
        dr_to_state = Some (TaskState_tag next_state),
        dr_close_outcome = Option.bind row (\<lambda>r. close_outcome (tr_state r)),
        dr_actor = me_from (msg_envelope record), dr_message_id = Some message_id,
        dr_outcome = None, dr_marker = None, dr_detail = None\<rparr> d"

text \<open>\<^verbatim>\<open>order.iter().position(..)\<close> as a one-based \<^verbatim>\<open>u32\<close>.\<close>

definition normalized_position :: "TaskId list \<Rightarrow> TaskId \<Rightarrow> AtmError + nat" where
  "normalized_position order task_id =
     (let absent = task_move_invalid ''assigned task is absent from its normalized queue'' in
      case position_of task_id order of
        Some index \<Rightarrow> if index + 1 < 2 ^ 32 then Inr (index + 1) else Inl absent
      | None \<Rightarrow> Inl absent)"

definition append_placement_event ::
  "env \<Rightarrow> Message \<Rightarrow> TaskId \<Rightarrow> MoveTarget option \<Rightarrow> TaskRow option \<Rightarrow> AtmMessageId \<Rightarrow> IsoTimestamp
   \<Rightarrow> TaskState \<Rightarrow> nat \<Rightarrow> db \<Rightarrow> AtmError + (db \<times> TaskEventRow list)" where
  "append_placement_event env record task_id placement row message_id at next_state final_position d =
     (case placement of
        None \<Rightarrow> Inr (d, [])
      | Some _ \<Rightarrow>
          bindE (append_task_event env
            \<lparr>dr_team = msg_team record, dr_task_id = task_id, dr_assignee = msg_agent record,
             dr_at = at, dr_event = KMoved, dr_from_state = Some (TaskState_tag next_state),
             dr_to_state = Some (TaskState_tag next_state), dr_close_outcome = None,
             dr_actor = me_from (msg_envelope record), dr_message_id = Some message_id,
             dr_outcome = None, dr_marker = None,
             dr_detail = Some (nat_str (case Option.bind row tr_position of Some p \<Rightarrow> unat p | None \<Rightarrow> 0)
               @ arrow @ nat_str final_position)\<rparr> d) (\<lambda>(d1, event). Inr (d1, [event])))"

definition persist_task_assignment ::
  "env \<Rightarrow> Message \<Rightarrow> TaskId \<Rightarrow> MoveTarget option \<Rightarrow> TaskRow option \<Rightarrow> AtmMessageId \<Rightarrow> IsoTimestamp
   \<Rightarrow> TaskState \<Rightarrow> db \<Rightarrow> AtmError + (db \<times> TaskId list \<times> TaskEventRow list)" where
  "persist_task_assignment env record task_id placement row message_id at next_state d =
     (let was_closed = (case row of Some r \<Rightarrow> \<not> is_open (tr_state r) | None \<Rightarrow> False);
          team = msg_team record; agent = msg_agent record in
      bindE (release_previous_assignment env record task_id row d) (\<lambda>d1.
      bindE (queue_order team agent d1) (\<lambda>order0.
      bindE (insert_at_placement env (filter (\<lambda>i. i \<noteq> task_id) order0) task_id
               (case placement of Some p \<Rightarrow> p | None \<Rightarrow> MoveEnd) team agent d1) (\<lambda>order.
      if length order \<ge> 2 ^ 32 then Inl (task_move_invalid ''task queue too large'')
      else
      bindE (apply_task_assignment_row env record task_id row (length order) message_id at
               next_state d1) (\<lambda>d2.
      bindE (renumber_previous_assignment env record row d2) (\<lambda>d3.
      bindE (renumber_queue env team agent order d3) (\<lambda>d4.
      bindE (normalized_position order task_id) (\<lambda>final_position.
      bindE (append_assignment_event env record task_id row was_closed message_id at next_state d4)
        (\<lambda>(d5, event).
      bindE (append_placement_event env record task_id placement row message_id at next_state
               final_position d5) (\<lambda>(d6, moved).
      Inr (d6, order, event # moved)))))))))))"

definition insert_reassign_notice ::
  "env \<Rightarrow> Message \<Rightarrow> TaskId \<Rightarrow> AgentName \<Rightarrow> db \<Rightarrow> AtmError + (db \<times> Message)" where
  "insert_reassign_notice env record task_id old_assignee d =
     (let message_id = env_new_id env;
          envelope = (msg_envelope record)
            \<lparr>me_text := ''task '' @ task_id @ '' was reassigned to '' @ msg_agent record,
             me_timestamp := env_id_time env message_id, me_read := False,
             me_destination_chat_id := None, me_summary := Some (''task_closed:'' @ task_id),
             me_message_id := Some message_id, me_requires_ack := False,
             me_pending_ack_at := None, me_acknowledged_at := None,
             me_acknowledges_message_id := None, me_parent_message_id := None,
             me_thread_mode := None, me_expires_at := None, me_task_id := Some task_id,
             me_placement := None, me_task_op := None, me_task_complete := None, me_extra := []\<rparr>;
          notice = \<lparr>msg_team = msg_team record, msg_agent = old_assignee,
             msg_message_key = from_atm_message_id (env_ulid_str env) message_id,
             msg_envelope = envelope\<rparr>
      in bindE (insert_message_canonical env notice d) (\<lambda>(d1, inserted).
         if \<not> inserted then Inl (err_mailbox_write
           ''fresh task reassignment notice collided with an existing message key'')
         else Inr (d1, notice)))"

record TaskAssignmentApplied =
  ta_queued_position :: nat
  ta_reassign_notice :: "Message option"
  ta_task_events :: "TaskEventRow list"

definition apply_task_assignment ::
  "env \<Rightarrow> Message \<Rightarrow> TaskId \<Rightarrow> MoveTarget option \<Rightarrow> db \<Rightarrow> fault + (db \<times> TaskAssignmentApplied)" where
  "apply_task_assignment env record task_id placement d =
     (let e = msg_envelope record; at = me_timestamp e in
      bindE (liftE (load_task_row env (msg_team record) task_id d)) (\<lambda>row.
      bindE (run_transition (transition (map_option tr_state row) EvAssigned task_id (me_from e)
               (map_option tr_assignee row) (msg_agent record))) (\<lambda>next_state.
      case me_message_id e of
        None \<Rightarrow> Inl (Fail (task_move_invalid ''task assignment is missing message id''))
      | Some message_id \<Rightarrow>
      bindE (liftE (refresh_same_assignment env record task_id row message_id d)) (\<lambda>refreshed.
      case refreshed of
        Some (d1, queued_position) \<Rightarrow>
          Inr (d1, \<lparr>ta_queued_position = queued_position, ta_reassign_notice = None,
                    ta_task_events = []\<rparr>)
      | None \<Rightarrow>
      bindE (liftE (persist_task_assignment env record task_id placement row message_id at
               next_state d)) (\<lambda>(d1, order, task_events).
      bindE (liftE (normalized_position order task_id)) (\<lambda>queued_position.
      case row of
        Some r \<Rightarrow>
          if is_open (tr_state r) \<and> tr_assignee r \<noteq> msg_agent record then
            bindE (liftE (insert_reassign_notice env record task_id (tr_assignee r) d1))
              (\<lambda>(d2, notice).
            Inr (d2, \<lparr>ta_queued_position = queued_position, ta_reassign_notice = Some notice,
                      ta_task_events = task_events\<rparr>))
          else Inr (d1, \<lparr>ta_queued_position = queued_position, ta_reassign_notice = None,
                         ta_task_events = task_events\<rparr>)
      | None \<Rightarrow> Inr (d1, \<lparr>ta_queued_position = queued_position, ta_reassign_notice = None,
                           ta_task_events = task_events\<rparr>)))))))"

definition is_existing_task_report :: "env \<Rightarrow> Message \<Rightarrow> TaskId \<Rightarrow> db \<Rightarrow> AtmError + bool" where
  "is_existing_task_report env record task_id d =
     bindE (load_task_row env (msg_team record) task_id d) (\<lambda>row_opt.
     case row_opt of
       None \<Rightarrow> Inr False
     | Some row \<Rightarrow>
         if me_from (msg_envelope record) = tr_assigner row then Inr False
         else if msg_agent record = tr_assigner row then Inr True
         else Inl (task_not_counterparty (''task '' @ task_id @ '' was assigned by '' @ tr_assigner row
                @ ''; caller '' @ me_from (msg_envelope record) @ '' cannot reassign it'')))"

section \<open>Closing a task\<close>

record UpsertResult =
  up_inserted :: bool
  up_existing :: "Message option"
  up_already_closed :: "TaskCloseOutcome option"
  up_task_assignee :: "AgentName option"
  up_queued_position :: "nat option"
  up_reassign_notice :: "Message option"
  up_task_rejection :: "AtmError option"
  up_task_events :: "TaskEventRow list"

datatype TaskMessageResult =
    Applied "TaskCloseOutcome option" "AgentName option" "nat option" "Message option" "TaskEventRow list"
  | RejectedReportDelivered AtmError TaskEventRow

text \<open>Writing the acknowledged assignment back is a recursive admission; the function that
  performs it is the argument \<open>upsert\<close>.\<close>

type_synonym admission = "Message \<Rightarrow> MessageWriteOrigin \<Rightarrow> db \<Rightarrow> fault + (db \<times> UpsertResult)"

definition acknowledge_assignment :: "admission \<Rightarrow> Message \<Rightarrow> TaskRow \<Rightarrow> db \<Rightarrow> fault + db" where
  "acknowledge_assignment upsert record row d =
     (case find (\<lambda>m. mc_team m = msg_team record \<and> mc_agent m = tr_assignee row
              \<and> mc_message_id m = Some (tr_assignment_message_id row)) (db_mail_messages d) of
        None \<Rightarrow> Inr d
      | Some m \<Rightarrow>
          bindE (liftE (map_err (\<lambda>error. task_move_invalid
                   (''invalid assignment message key: '' @ err_message error))
                   (MessageKey_new (mc_message_key m)))) (\<lambda>key.
          bindE (liftE (load_existing_message
                   \<lparr>msg_team = msg_team record, msg_agent = tr_assignee row, msg_message_key = key,
                    msg_envelope = msg_envelope record\<rparr> d)) (\<lambda>assignment.
          if me_acknowledged_at (msg_envelope assignment) = None then
            bindE (upsert (mark_source_acknowledged (me_timestamp (msg_envelope record)) assignment)
                     Local d) (\<lambda>(d1, _). Inr d1)
          else Inr d)))"

definition close_event_kind :: "TaskCloseOutcome \<Rightarrow> TaskEventKind" where
  "close_event_kind outcome =
     (case outcome of Completed \<Rightarrow> KCompleted | Refused \<Rightarrow> KRefused | Cancelled \<Rightarrow> KCancelled)"

definition persist_task_close ::
  "env \<Rightarrow> admission \<Rightarrow> Message \<Rightarrow> TaskId \<Rightarrow> TaskCloseOutcome \<Rightarrow> string option \<Rightarrow> TaskRow \<Rightarrow> TaskState
   \<Rightarrow> db \<Rightarrow> fault + (db \<times> TaskEventRow)" where
  "persist_task_close env upsert record task_id outcome reason row next_state d =
     (let team = msg_team record; e = msg_envelope record in
      bindE (acknowledge_assignment upsert record row d) (\<lambda>d1.
      bindE (liftE (run_update env ''failed to close task'' (is_task team task_id)
               (\<lambda>c. c\<lparr>tc_state := TaskState_as_str next_state,
                      tc_close_outcome := Some (TaskCloseOutcome_as_str outcome),
                      tc_position := None, tc_updated_at := me_timestamp e\<rparr>) d1)) (\<lambda>d2.
      bindE (liftE (queue_order team (tr_assignee row) d2)) (\<lambda>order.
      bindE (liftE (renumber_queue env team (tr_assignee row) order d2)) (\<lambda>d3.
      liftE (append_task_event env
        \<lparr>dr_team = team, dr_task_id = task_id, dr_assignee = tr_assignee row,
         dr_at = me_timestamp e, dr_event = close_event_kind outcome,
         dr_from_state = Some (TaskState_tag (tr_state row)),
         dr_to_state = Some (TaskState_tag next_state), dr_close_outcome = Some outcome,
         dr_actor = me_from e, dr_message_id = me_message_id e, dr_outcome = None,
         dr_marker = None, dr_detail = reason\<rparr> d3))))))"

text \<open>Every code has a name: \<open>AtmErrorCode_as_str_total\<close>.\<close>

definition rejection_text :: "AtmError \<Rightarrow> string" where
  "rejection_text error =
     (case AtmErrorCode_as_str (err_code error) of Some code \<Rightarrow> code | None \<Rightarrow> [])
       @ '': '' @ err_message error"

definition deliver_rejected_close_report ::
  "env \<Rightarrow> Message \<Rightarrow> TaskId \<Rightarrow> TaskRow \<Rightarrow> AtmError \<Rightarrow> db \<Rightarrow> AtmError + (db \<times> TaskMessageResult)" where
  "deliver_rejected_close_report env record task_id row error d =
     bindE (append_task_event env
       \<lparr>dr_team = msg_team record, dr_task_id = task_id, dr_assignee = tr_assignee row,
        dr_at = env_now env, dr_event = KRejected,
        dr_from_state = Some (TaskState_tag (tr_state row)),
        dr_to_state = Some (TaskState_tag (tr_state row)),
        dr_close_outcome = close_outcome (tr_state row),
        dr_actor = me_from (msg_envelope record),
        dr_message_id = me_message_id (msg_envelope record), dr_outcome = None, dr_marker = None,
        dr_detail = Some (rejection_text error)\<rparr> (drop_task_link_from_mail record d))
       (\<lambda>(d1, event).
     Inr (d1, RejectedReportDelivered
       (AtmError_new (err_code error) (AtmError_detail error @ ''; report delivered'')) event))"

definition em_dash :: string where
  "em_dash = [CHR 0xE2, CHR 0x80, CHR 0x94]"

definition apply_task_close ::
  "env \<Rightarrow> admission \<Rightarrow> Message \<Rightarrow> TaskId \<Rightarrow> TaskCloseOutcome \<Rightarrow> string option \<Rightarrow> db
   \<Rightarrow> fault + (db \<times> TaskMessageResult)" where
  "apply_task_close env upsert record task_id outcome reason d =
     (let sender = me_from (msg_envelope record) in
      bindE (liftE (load_task_row env (msg_team record) task_id d)) (\<lambda>row_opt.
      case row_opt of
        None \<Rightarrow> Inl (Fail (task_not_found (''no open task '' @ task_id @ '' for '' @ sender)))
      | Some row \<Rightarrow>
      (case tr_state row of
        Complete already \<Rightarrow>
          Inr (drop_task_link_from_mail record d, Applied (Some already) None None None [])
      | _ \<Rightarrow>
      (case admit (Some row) (EvCompleted outcome) task_id sender of
        Inl rejected \<Rightarrow>
          liftE (deliver_rejected_close_report env record task_id row (into_atm_error rejected) d)
      | Inr _ \<Rightarrow>
      bindE (run_transition (transition (Some (tr_state row)) (EvCompleted outcome) task_id sender
               (Some (tr_assignee row)) (tr_assignee row))) (\<lambda>next_state.
      if msg_agent record \<noteq> (if sender = tr_assignee row then tr_assigner row else tr_assignee row) then
        liftE (deliver_rejected_close_report env record task_id row
          (task_stale_counterparty (''task '' @ task_id @ '': '' @ msg_agent record
            @ '' is no longer the counterparty '' @ em_dash @ '' re-run the command'')) d)
      else
      bindE (persist_task_close env upsert record task_id outcome reason row next_state d)
        (\<lambda>(d1, event).
      Inr (d1, Applied None (Some (tr_assignee row)) None None [event])))))))"

section \<open>Admission\<close>

definition apply_task_message ::
  "env \<Rightarrow> admission \<Rightarrow> Message \<Rightarrow> db \<Rightarrow> fault + (db \<times> TaskMessageResult)" where
  "apply_task_message env upsert record d =
     (let e = msg_envelope record; nothing = Applied None None None None [] in
      case me_task_id e of
        None \<Rightarrow> Inr (d, nothing)
      | Some task_id \<Rightarrow>
      (case me_task_op e of
        None \<Rightarrow>
          bindE (liftE (is_existing_task_report env record task_id d)) (\<lambda>report.
          if report then Inr (d, nothing)
          else bindE (apply_task_assignment env record task_id (me_placement e) d) (\<lambda>(d1, applied).
            Inr (d1, Applied None None (Some (ta_queued_position applied))
              (ta_reassign_notice applied) (ta_task_events applied))))
      | Some Start \<Rightarrow>
          bindE (apply_task_start env record task_id d) (\<lambda>(d1, task_assignee, event).
          Inr (d1, Applied None (Some task_assignee) None None [event]))
      | Some (Close outcome reason) \<Rightarrow>
          apply_task_close env upsert record task_id outcome reason d))"

definition upsert_result :: "bool \<Rightarrow> Message option \<Rightarrow> TaskMessageResult \<Rightarrow> UpsertResult" where
  "upsert_result inserted existing r =
     (case r of
        Applied closed assignee position notice events \<Rightarrow>
          \<lparr>up_inserted = inserted, up_existing = existing, up_already_closed = closed,
           up_task_assignee = assignee, up_queued_position = position,
           up_reassign_notice = notice, up_task_rejection = None, up_task_events = events\<rparr>
      | RejectedReportDelivered error event \<Rightarrow>
          \<lparr>up_inserted = inserted, up_existing = existing, up_already_closed = None,
           up_task_assignee = None, up_queued_position = None, up_reassign_notice = None,
           up_task_rejection = Some error, up_task_events = [event]\<rparr>)"

definition upsert_body :: "env \<Rightarrow> admission \<Rightarrow> admission" where
  "upsert_body env upsert record provenance d =
     bindE (liftE (validate_cron_generation_fence provenance d)) (\<lambda>_.
     bindE (liftE (insert_message_canonical env record d)) (\<lambda>(d1, inserted).
     bindE (if inserted then Inr None
            else bindE (liftE (load_existing_message record d1)) (\<lambda>m. Inr (Some m))) (\<lambda>existing.
     if inserted \<and> is_local provenance then
       bindE (apply_task_message env upsert record d1) (\<lambda>(d2, r).
       Inr (d2, upsert_result inserted existing r))
     else Inr (d1, upsert_result inserted existing (Applied None None None None [])))))"

fun upsert_bounded :: "env \<Rightarrow> nat \<Rightarrow> admission" where
  "upsert_bounded env 0 record provenance d = Inl Unbounded"
| "upsert_bounded env (Suc n) record provenance d =
     upsert_body env (upsert_bounded env n) record provenance d"

text \<open>The inner admission rewrites a message that is already stored, so it has no task effect
  and two levels are enough.\<close>

definition execute_upsert_message :: "env \<Rightarrow> admission" where
  "execute_upsert_message env = upsert_bounded env 2"

fun execute_upsert_messages :: "env \<Rightarrow> Message list \<Rightarrow> db \<Rightarrow> fault + db" where
  "execute_upsert_messages env [] d = Inr d"
| "execute_upsert_messages env (record # records) d =
     bindE (execute_upsert_message env record Local d) (\<lambda>(d1, _).
       execute_upsert_messages env records d1)"

section \<open>Acknowledgement\<close>

record AcknowledgementCommit =
  ak_reply :: Message
  ak_source :: Message

text \<open>The reply builder is a caller-supplied function of the pending source.\<close>

type_synonym reply_builder = "Message \<Rightarrow> AtmError + Message"

definition execute_acknowledgement ::
  "env \<Rightarrow> AcknowledgementSource \<Rightarrow> reply_builder \<Rightarrow> db \<Rightarrow> fault + (db \<times> AcknowledgementCommit)" where
  "execute_acknowledgement env source build_reply d =
     bindE (liftE (load_pending_ack_source env source d)) (\<lambda>src.
     bindE (liftE (build_reply src)) (\<lambda>reply.
     let acknowledged_source = mark_source_acknowledged (env_now env) src in
     bindE (execute_upsert_message env reply Local d) (\<lambda>(d1, _).
     bindE (execute_upsert_message env acknowledged_source Local d1) (\<lambda>(d2, _).
     Inr (d2, \<lparr>ak_reply = reply, ak_source = acknowledged_source\<rparr>)))))"

definition execute_acknowledgement_with_fence ::
  "env \<Rightarrow> AcknowledgementSource \<Rightarrow> reply_builder \<Rightarrow> MessageWriteOrigin \<Rightarrow> db
   \<Rightarrow> fault + (db \<times> AcknowledgementCommit)" where
  "execute_acknowledgement_with_fence env source build_reply provenance d =
     bindE (liftE (validate_cron_generation_fence provenance d)) (\<lambda>_.
     execute_acknowledgement env source build_reply d)"

definition execute_task_move_with_fence ::
  "env \<Rightarrow> TeamName \<Rightarrow> TaskId \<Rightarrow> AgentName \<Rightarrow> MoveTarget \<Rightarrow> IsoTimestamp \<Rightarrow> MessageWriteOrigin \<Rightarrow> db
   \<Rightarrow> fault + (db \<times> TaskMoveRecord)" where
  "execute_task_move_with_fence env team task_id actor target_pos at provenance d =
     bindE (liftE (validate_cron_generation_fence provenance d)) (\<lambda>_.
     apply_task_move env team task_id actor target_pos at d)"

section \<open>Write operations\<close>

text \<open>The mailbox and task operations of the writer lane; template and diagnostic operations
  touch none of these tables but the message template columns and are not represented.\<close>

datatype WriteOp =
    ApplyReadDisplayState TeamName AgentName "MessageKey list" "IsoTimestamp option" MessageWriteOrigin
  | DeleteMessage MessageKey MessageWriteOrigin
  | UpsertMessage Message MessageWriteOrigin
  | UpsertMessages "Message list"
  | Acknowledge AcknowledgementSource reply_builder MessageWriteOrigin
  | TaskMove TeamName TaskId AgentName MoveTarget IsoTimestamp MessageWriteOrigin

datatype WriteOpResult =
    ReadDisplayStateApplied
  | MessageDeleted
  | UpsertMessageResult UpsertResult
  | UpsertMessagesResult
  | Acknowledged AcknowledgementCommit
  | TaskMoved TaskMoveRecord

definition execute :: "env \<Rightarrow> WriteOp \<Rightarrow> db \<Rightarrow> fault + (db \<times> WriteOpResult)" where
  "execute env op d =
     (case op of
        ApplyReadDisplayState team agent keys watermark provenance \<Rightarrow>
          bindE (liftE (execute_read_display_state env team agent keys watermark provenance d))
            (\<lambda>d1. Inr (d1, ReadDisplayStateApplied))
      | DeleteMessage key provenance \<Rightarrow>
          bindE (liftE (execute_delete_message key provenance d)) (\<lambda>d1. Inr (d1, MessageDeleted))
      | UpsertMessage record provenance \<Rightarrow>
          bindE (execute_upsert_message env record provenance d)
            (\<lambda>(d1, r). Inr (d1, UpsertMessageResult r))
      | UpsertMessages records \<Rightarrow>
          bindE (execute_upsert_messages env records d) (\<lambda>d1. Inr (d1, UpsertMessagesResult))
      | Acknowledge source build_reply provenance \<Rightarrow>
          bindE (execute_acknowledgement_with_fence env source build_reply provenance d)
            (\<lambda>(d1, c). Inr (d1, Acknowledged c))
      | TaskMove team task_id actor target_pos at provenance \<Rightarrow>
          bindE (execute_task_move_with_fence env team task_id actor target_pos at provenance d)
            (\<lambda>(d1, m). Inr (d1, TaskMoved m)))"

section \<open>Auditing a rejection\<close>

definition is_pre_admission_reassignment_refusal :: "WriteOp \<Rightarrow> AtmError \<Rightarrow> bool" where
  "is_pre_admission_reassignment_refusal op error \<longleftrightarrow>
     (case op of
        UpsertMessage record provenance \<Rightarrow>
          is_local provenance \<and> me_task_op (msg_envelope record) = None
            \<and> err_code error = MailboxOrValidation TaskNotCounterparty
      | _ \<Rightarrow> False)"

definition rejected_event_subject ::
  "env \<Rightarrow> WriteOp \<Rightarrow> db
   \<Rightarrow> AtmError + (TeamName \<times> TaskId \<times> AgentName \<times> AgentName \<times> AtmMessageId option) option" where
  "rejected_event_subject env op d =
     (case op of
        UpsertMessage record provenance \<Rightarrow>
          if is_local provenance then
            (case me_task_id (msg_envelope record) of
               None \<Rightarrow> Inr None
             | Some task_id \<Rightarrow> Inr (Some (msg_team record, task_id, msg_agent record,
                 me_from (msg_envelope record), me_message_id (msg_envelope record))))
          else Inr None
      | Acknowledge source _ _ \<Rightarrow>
          bindE (load_pending_ack_source env source d) (\<lambda>src.
          case me_task_id (msg_envelope src) of
            None \<Rightarrow> Inr None
          | Some task_id \<Rightarrow> Inr (Some (msg_team src, task_id, msg_agent src, msg_agent src,
              me_message_id (msg_envelope src))))
      | TaskMove team task_id actor _ _ _ \<Rightarrow> Inr (Some (team, task_id, actor, actor, None))
      | _ \<Rightarrow> Inr None)"

definition append_rejected_task_event ::
  "env \<Rightarrow> WriteOp \<Rightarrow> AtmError \<Rightarrow> db \<Rightarrow> AtmError + (db \<times> TaskEventRow option)" where
  "append_rejected_task_event env op error d =
     (if \<not> is_task_rejection (err_code error) then Inr (d, None)
      else if is_pre_admission_reassignment_refusal op error then Inr (d, None)
      else bindE (rejected_event_subject env op d) (\<lambda>subject.
        case subject of
          None \<Rightarrow> Inr (d, None)
        | Some (team, task_id, requested, actor, message_id) \<Rightarrow>
            bindE (load_task_row env team task_id d) (\<lambda>row.
            bindE (append_task_event env
              \<lparr>dr_team = team, dr_task_id = task_id,
               dr_assignee = (case row of Some r \<Rightarrow> tr_assignee r | None \<Rightarrow> requested),
               dr_at = env_now env, dr_event = KRejected,
               dr_from_state = map_option (\<lambda>r. TaskState_tag (tr_state r)) row,
               dr_to_state = map_option (\<lambda>r. TaskState_tag (tr_state r)) row,
               dr_close_outcome = Option.bind row (\<lambda>r. close_outcome (tr_state r)),
               dr_actor = actor, dr_message_id = message_id, dr_outcome = None,
               dr_marker = None, dr_detail = Some (rejection_text error)\<rparr> d) (\<lambda>(d1, event).
            Inr (d1, Some event)))))"

end
