(* ===== verification/Task_Invariant.thy ===== *)
theory Task_Invariant
  imports Queue_Order Task_Writer
begin

text \<open>
  Every task operation of the writer keeps the ledger invariant: after any number of
  assignments, reassignments, refreshes, moves, starts and closes each member's open
  tasks stand at \<open>1, 2, ..., n\<close> with the started ones in front.
\<close>

section \<open>Inverting results\<close>

lemma map_err_Inr [simp]: "map_err f m = Inr x \<longleftrightarrow> m = Inr x"
  by (cases m) simp_all

lemma liftE_Inr [simp]: "liftE m = Inr x \<longleftrightarrow> m = Inr x"
  by (cases m) (simp_all add: liftE_def)

lemma liftE_Inl [simp]: "liftE m = Inl e \<longleftrightarrow> (\<exists>a. m = Inl a \<and> e = Fail a)"
  by (cases m) (auto simp: liftE_def)

lemma liftE_simps [simp]: "liftE (Inr x) = Inr x" "liftE (Inl a) = Inl (Fail a)"
  by (simp_all add: liftE_def)

lemma run_transition_Inr: "run_transition t = Inr st \<longleftrightarrow> t = Some (Inr st)"
  by (cases t) (auto simp: run_transition_def map_err_def split: sum.splits)

text \<open>Appending an event leaves every table but the events alone.\<close>

lemma append_task_event_frame:
  assumes "append_task_event env dr d = Inr (d', row)"
  shows "d' = d\<lparr>db_task_events := db_task_events d'\<rparr>" "db_tasks d' = db_tasks d"
    "db_mail_messages d' = db_mail_messages d"
  using assms by (auto simp: append_task_event_def Let_def bindE_eq_Inr_iff)

text \<open>Queue statements change the task table only.\<close>

lemma run_update_frame: "run_update env what P f d = Inr d' \<Longrightarrow> \<exists>ts. d' = d\<lparr>db_tasks := ts\<rparr>"
  by (auto simp: run_update_def bindE_eq_Inr_iff)

lemma write_queue_go_frame:
  "write_queue_go env team n order d = Inr d' \<Longrightarrow> \<exists>ts. d' = d\<lparr>db_tasks := ts\<rparr>"
proof (induction order arbitrary: n d)
  case Nil
  then show ?case by (auto intro: exI[of _ "db_tasks d"])
next
  case (Cons i order)
  then obtain d1 where d1: "run_update env ''failed to renumber task queue'' (is_task team i)
      (\<lambda>r. r\<lparr>tc_position := Some (int (n + 1))\<rparr>) d = Inr d1"
    "write_queue_go env team (n + 1) order d1 = Inr d'"
    by (auto simp: bindE_eq_Inr_iff split: if_splits)
  then show ?case using Cons.IH[OF d1(2)] run_update_frame[OF d1(1)] by auto
qed

lemma renumber_queue_frame:
  assumes "renumber_queue env team a order d = Inr d'"
  shows "\<exists>ts. d' = d\<lparr>db_tasks := ts\<rparr>"
proof -
  obtain k d1 where "run_update env ''failed to offset task queue'' (member_open team a)
      (offset_positions k) d = Inr d1" "write_queue_go env team 0 order d1 = Inr d'"
    using assms
    by (auto simp: renumber_queue_def write_queue_positions_def Let_def bindE_eq_Inr_iff
        simp del: append_Cons split: if_splits)
  then show ?thesis using run_update_frame write_queue_go_frame by fastforce
qed

section \<open>Starting a task\<close>

lemma state_of_update:
  assumes "tasks_ok ts" "find (is_task team i) ts = Some r"
    and keep: "\<And>x. tc_team (f x) = tc_team x \<and> tc_task_id (f x) = tc_task_id x"
  shows "state_of (map (\<lambda>x. if is_task team i x then f x else x) ts) team j
           = (if j = i then tc_state (f r) else state_of ts team j)"
proof -
  have "find (is_task team j) (map (\<lambda>x. if is_task team i x then f x else x) ts)
      = map_option (\<lambda>x. if is_task team i x then f x else x) (find (is_task team j) ts)"
    by (rule find_map_same) (simp add: is_task_def keep)
  moreover have "is_task team i s \<longleftrightarrow> j = i" if "find (is_task team j) ts = Some s" for s
    using find_taskD[OF that] by (auto simp: is_task_def)
  ultimately show ?thesis
    using assms(2) by (cases "find (is_task team j) ts") (auto simp: state_of_def)
qed

text \<open>The number of other started tasks is where the queue's started prefix ends.\<close>

lemma other_active_prefix:
  assumes ok: "tasks_ok (db_tasks d)" and q: "queue_ok team a (db_tasks d)"
    and order: "order = filter (\<lambda>j. j \<noteq> i) (queue_ids team a (db_tasks d))"
  shows "other_active_count team a i d \<le> length order"
    "\<forall>j\<in>set (take (other_active_count team a i d) order). state_of (db_tasks d) team j = ''active''"
proof -
  let ?f = "state_of (db_tasks d) team" and ?act = "\<lambda>s. s = ''active''"
  let ?rows = "filter (\<lambda>r. tc_task_id r \<noteq> i) (qrows team a (db_tasks d))"
  have lead: "sorted_wrt lead_order (map ?f order)" unfolding order by (rule lead_without[OF ok q])
  have "other_active_count team a i d
      = length (filter (\<lambda>r. ?act (tc_state r)) (filter (\<lambda>r. tc_task_id r \<noteq> i)
          (filter (member_open team a) (db_tasks d))))"
    unfolding other_active_count_def filter_filter
    by (rule arg_cong[of _ _ length], rule filter_cong) (auto simp: member_open_def row_open_def)
  also have "\<dots> = length (filter (\<lambda>r. ?act (tc_state r)) ?rows)"
    unfolding qrows_def filter_sort by simp
  also have "\<dots> = length (filter ?act (map tc_state ?rows))"
    by (simp add: filter_map comp_def)
  also have "\<dots> = length (takeWhile ?act (map ?f order))"
    unfolding queue_states_filter[OF ok] order[symmetric] lead_split[OF lead] ..
  finally have n: "other_active_count team a i d = length (takeWhile ?act (map ?f order))" .
  show "other_active_count team a i d \<le> length order"
    unfolding n using length_takeWhile_le[of ?act "map ?f order"] by simp
  show "\<forall>j\<in>set (take (other_active_count team a i d) order). ?f j = ''active''"
  proof
    fix j assume "j \<in> set (take (other_active_count team a i d) order)"
    then have "?f j \<in> set (map ?f (take (other_active_count team a i d) order))" by simp
    also have "map ?f (take (other_active_count team a i d) order) = takeWhile ?act (map ?f order)"
      unfolding n take_map[symmetric] by (rule takeWhile_eq_take[symmetric])
    finally show "?f j = ''active''" by (rule set_takeWhileD[THEN conjunct2])
  qed
qed

lemma load_startable_task_Inr:
  assumes "load_startable_task env record i d = Inr row"
  shows "load_task_row env (msg_team record) i d = Inr (Some row)" "is_open (tr_state row)"
    "tr_assignee row = me_from (msg_envelope record)"
proof -
  obtain ro where ro: "load_task_row env (msg_team record) i d = Inr ro"
    using assms by (cases "load_task_row env (msg_team record) i d") (simp_all add: load_startable_task_def Let_def)
  then obtain r where r: "ro = Some r" using assms by (cases ro) (simp_all add: load_startable_task_def Let_def)
  have "is_open (tr_state r) \<and> tr_assignee r = me_from (msg_envelope record) \<and> row = r"
    using assms unfolding load_startable_task_def Let_def ro r bindE_simps option.case by (metis sum.distinct(1) sum.inject(2))
  then show "load_task_row env (msg_team record) i d = Inr (Some row)" "is_open (tr_state row)"
    "tr_assignee row = me_from (msg_envelope record)" using ro r by simp_all
qed

text \<open>What a successful start did: the row became active and the queue was renumbered.\<close>

lemma apply_task_start_Inr:
  assumes "apply_task_start env record i d = Inr (d', who, event)"
  obtains row order0 d1 d2 mx where
    "load_startable_task env record i d = Inr row" "tr_state row = Assigned" "who = tr_assignee row"
    "member_max_tasks env record who d = Inr mx"
    "other_active_count (msg_team record) who i d < unat mx"
    "queue_order (msg_team record) who d = Inr order0"
    "run_update env ''failed to start task'' (is_task (msg_team record) i)
       (\<lambda>r. r\<lparr>tc_state := ''active'', tc_lead_notified_count := 0,
              tc_updated_at := me_timestamp (msg_envelope record)\<rparr>) d = Inr d1"
    "renumber_queue env (msg_team record) who
       (insert_at (other_active_count (msg_team record) who i d) i (filter (\<lambda>j. j \<noteq> i) order0)) d1 = Inr d2"
    "db_tasks d' = db_tasks d2" "db_mail_messages d' = db_mail_messages d2"
proof -
  from assms obtain row next_state n order0 order d1 d2 dr where
    row: "load_startable_task env record i d = Inr row" "tr_state row \<noteq> Active"
    and tr: "transition (Some (tr_state row)) EvStarted i (me_from (msg_envelope record))
          (Some (tr_assignee row)) (tr_assignee row) = Some (Inr next_state)"
    and n: "reject_over_max_tasks env record i row d = Inr n"
    and q: "queue_order (msg_team record) (tr_assignee row) d = Inr order0"
    and ins: "vec_insert n i (filter (\<lambda>j. j \<noteq> i) order0) = Inr order"
    and upd: "run_update env ''failed to start task'' (is_task (msg_team record) i)
       (\<lambda>r. r\<lparr>tc_state := TaskState_as_str next_state, tc_lead_notified_count := 0,
              tc_updated_at := me_timestamp (msg_envelope record)\<rparr>) d = Inr d1"
    and ren: "renumber_queue env (msg_team record) (tr_assignee row) order d1 = Inr d2"
    and ev: "append_task_event env dr d2 = Inr (d', event)" and who: "who = tr_assignee row"
    by (auto simp: apply_task_start_def Let_def bindE_eq_Inr_iff run_transition_Inr split: if_splits)
  have st: "tr_state row = Assigned"
    using row load_startable_task_Inr(2)[OF row(1)] by (cases "tr_state row") auto
  have next_state: "next_state = Active" using tr st by (simp add: transition_def)
  obtain mx where mx: "member_max_tasks env record who d = Inr mx"
    "min (other_active_count (msg_team record) who i d) (2 ^ 32 - 1) < unat mx"
    "n = min (other_active_count (msg_team record) who i d) (2 ^ 32 - 1)"
    using n who by (auto simp: reject_over_max_tasks_def Let_def bindE_eq_Inr_iff split: if_splits)
  have "unat mx < 2 ^ 32" using unsigned_less[of mx, where ?'a = nat] by simp
  with mx(2,3) have cnt: "n = other_active_count (msg_team record) who i d" "n < unat mx" by auto
  have frame: "db_tasks d' = db_tasks d2" "db_mail_messages d' = db_mail_messages d2"
    by (rule append_task_event_frame[OF ev])+
  show thesis
    by (rule that[OF row(1) st who mx(1)])
       (use cnt q ins upd ren who next_state frame in
         \<open>auto simp: vec_insert_def TaskState_as_str_def split: if_splits\<close>)
qed

lemma start_ledger:
  assumes ok: "ledger_ok (db_tasks d)" and run: "apply_task_start env record i d = Inr (d', who, event)"
  shows "ledger_ok (db_tasks d')"
    "queue_ids (msg_team record) who (db_tasks d')
       = insert_at (other_active_count (msg_team record) who i d) i
           (filter (\<lambda>j. j \<noteq> i) (queue_ids (msg_team record) who (db_tasks d)))"
    "state_of (db_tasks d') (msg_team record) j
       = (if j = i then ''active'' else state_of (db_tasks d) (msg_team record) j)"
proof -
  let ?team = "msg_team record" and ?ts = "db_tasks d"
  let ?n = "other_active_count ?team who i d"
  from run obtain row order0 d1 d2 mx where
    row: "load_startable_task env record i d = Inr row" "tr_state row = Assigned" "who = tr_assignee row"
    and q: "queue_order ?team who d = Inr order0"
    and upd: "run_update env ''failed to start task'' (is_task ?team i)
       (\<lambda>r. r\<lparr>tc_state := ''active'', tc_lead_notified_count := 0,
              tc_updated_at := me_timestamp (msg_envelope record)\<rparr>) d = Inr d1"
    and ren: "renumber_queue env ?team who (insert_at ?n i (filter (\<lambda>j. j \<noteq> i) order0)) d1 = Inr d2"
    and fin: "db_tasks d' = db_tasks d2" by (rule apply_task_start_Inr) blast
  let ?f = "\<lambda>r. r\<lparr>tc_state := ''active'', tc_lead_notified_count := 0,
              tc_updated_at := me_timestamp (msg_envelope record)\<rparr>"
  let ?g = "\<lambda>r. if is_task ?team i r then ?f r else r"
  have tok: "tasks_ok ?ts" and names: "list_all names_ok ?ts" and qs: "\<And>t b. queue_ok t b ?ts"
    using ok by (auto simp: ledger_ok_alt)
  obtain r where r: "find (is_task ?team i) ?ts = Some r" "r \<in> set ?ts" "tc_team r = ?team"
    "tc_task_id r = i" "tc_assignee r = who" "tc_state r = ''assigned''"
    using load_task_row_Some[OF load_startable_task_Inr(1)[OF row(1)] names] row(2,3)
    by (metis TaskState_as_str_def TaskState.simps(8))
  have only: "x = r" if "x \<in> set ?ts" "is_task ?team i x" for x
    using tasks_ok_key_inj[OF tok that(1) r(2)] that(2) r(3,4) by (simp add: is_task_def task_key_def)
  have order0: "order0 = queue_ids ?team who ?ts" using q queue_order_ok[OF names] by simp
  let ?rest = "filter (\<lambda>j. j \<noteq> i) (queue_ids ?team who ?ts)"
  let ?order = "insert_at ?n i ?rest"
  note u = run_update_Inr[OF upd]
  have ts1: "db_tasks d1 = map ?g ?ts" using u(1) by simp
  have tok1: "tasks_ok (db_tasks d1)" unfolding ts1 by (rule u(2)[OF tok])
  have mo: "member_open t b (?g x) = member_open t b x" if "x \<in> set ?ts" for t b x
    using only[OF that] r(6) by (auto simp: member_open_def row_open_def)
  have ids1: "member_ids (db_tasks d1) ?team who = member_ids ?ts ?team who"
    unfolding ts1 by (rule member_ids_map) (simp add: mo)
  have names1: "list_all names_ok (db_tasks d1)"
    unfolding ts1 using names by (auto simp: list_all_iff names_ok_def)
  have others: "queue_ok t b (db_tasks d1)" if tb: "(t, b) \<noteq> (?team, who)" for t b
  proof -
    have "qrows t b (map ?g ?ts) = qrows t b ?ts"
    proof (rule qrows_unchanged)
      fix x assume x: "x \<in> set ?ts" "member_open t b x"
      then have "\<not> is_task ?team i x" using only[OF x(1)] tb r(3,5) by (auto simp: member_open_def)
      then show "?g x = x" by simp
    qed (rule mo)
    then show ?thesis using qs[of t b] queue_ok_cong ts1 by metis
  qed
  have mem: "i \<in> member_ids ?ts ?team who"
    unfolding member_ids_def using r by (auto simp: member_open_def row_open_def image_iff intro!: bexI[of _ r])
  have dist: "distinct ?order" by (intro distinct_insert_at) (simp_all add: distinct_queue_ids[OF tok])
  have ids: "set ?order = member_ids (db_tasks d1) ?team who"
    using mem by (auto simp: ids1 set_queue_ids)
  have st1: "state_of (db_tasks d1) ?team j = (if j = i then ''active'' else state_of ?ts ?team j)" for j
    unfolding ts1 using state_of_update[OF tok r(1), of ?f] by simp
  have lead: "sorted_wrt lead_order (map (state_of (db_tasks d1) ?team) ?order)"
  proof (rule lead_insert)
    have eq: "map (state_of (db_tasks d1) ?team) ?rest = map (state_of ?ts ?team) ?rest"
      by (simp add: st1)
    show "sorted_wrt lead_order (map (state_of (db_tasks d1) ?team) ?rest)"
      unfolding eq by (rule lead_without[OF tok qs])
    show "\<forall>y\<in>set (take ?n ?rest). state_of (db_tasks d1) ?team y = ''active''"
      using other_active_prefix(2)[OF tok qs refl, where team = ?team and a = who and i = i]
      by (simp add: st1)
  qed (simp add: st1)
  have ren': "renumber_queue env ?team who ?order d1 = Inr d2" using ren order0 by simp
  show "ledger_ok (db_tasks d')"
    unfolding fin by (rule renumber_ledger[OF tok1 names1 others dist ids lead ren'])
  note m = renumber_member[OF tok1 dist ids lead ren']
  show "queue_ids ?team who (db_tasks d') = ?order" unfolding fin by (rule m(3))
  show "state_of (db_tasks d') ?team j = (if j = i then ''active'' else state_of ?ts ?team j)"
    unfolding fin m(6) by (rule st1)
qed

section \<open>Moving a task\<close>

lemma apply_queued_task_move_Inr:
  assumes "apply_queued_task_move env team i actor tgt at row st d = Inr (d', rec)"
  obtains order0 k d1 where
    "queue_order team (tr_assignee row) d = Inr order0"
    "placement_index env (filter (\<lambda>j. j \<noteq> i) order0) i tgt team (tr_assignee row) d = Inr k"
    "renumber_queue env team (tr_assignee row) (insert_at k i (filter (\<lambda>j. j \<noteq> i) order0)) d = Inr d1"
    "queue_position_of (insert_at k i (filter (\<lambda>j. j \<noteq> i) order0)) i = Inr (mv_to rec)"
    "tr_position row = Some (mv_from rec)" "mv_assignee rec = tr_assignee row"
    "db_tasks d' = db_tasks d1" "db_mail_messages d' = db_mail_messages d"
proof -
  from assms obtain p order0 order d1 q dr ev where
    p: "tr_position row = Some p" and q0: "queue_order team (tr_assignee row) d = Inr order0"
    and ins: "insert_at_placement env (filter (\<lambda>j. j \<noteq> i) order0) i tgt team (tr_assignee row) d = Inr order"
    and ren: "renumber_queue env team (tr_assignee row) order d = Inr d1"
    and q: "queue_position_of order i = Inr q" and ev: "append_task_event env dr d1 = Inr (d', ev)"
    and rec: "rec = \<lparr>mv_assignee = tr_assignee row, mv_from = p, mv_to = q, mv_event = ev\<rparr>"
    unfolding apply_queued_task_move_def by (auto simp: bindE_eq_Inr_iff split: option.splits)
  obtain k where k: "placement_index env (filter (\<lambda>j. j \<noteq> i) order0) i tgt team (tr_assignee row) d = Inr k"
    "order = insert_at k i (filter (\<lambda>j. j \<noteq> i) order0)"
    using ins by (auto simp: insert_at_placement_def bindE_eq_Inr_iff)
  have "db_mail_messages d1 = db_mail_messages d" using renumber_queue_frame[OF ren] by auto
  then show thesis
    using that[OF q0 k(1)] ren q rec p k(2) append_task_event_frame[OF ev] by simp
qed

lemma open_states: "is_open st \<Longrightarrow> st \<noteq> Active \<Longrightarrow> st = Assigned"
  by (cases st) auto

lemma filter_insert_at: "x \<notin> set xs \<Longrightarrow> filter (\<lambda>j. j \<noteq> x) (insert_at k x xs) = xs"
proof -
  assume x: "x \<notin> set xs"
  have "filter (\<lambda>j. j \<noteq> x) (take k xs) = take k xs" "filter (\<lambda>j. j \<noteq> x) (drop k xs) = drop k xs"
    using x by (auto intro!: filter_True dest: in_set_takeD in_set_dropD)
  then show ?thesis by (simp add: insert_at_def)
qed

lemma queued_move_ledger:
  assumes ok: "ledger_ok (db_tasks d)" and load: "load_task_row env team i d = Inr (Some row)"
    and st: "tr_state row = Assigned"
    and run: "apply_queued_task_move env team i actor tgt at row next_state d = Inr (d', rec)"
  shows "ledger_ok (db_tasks d')"
    "filter (\<lambda>j. j \<noteq> i) (queue_ids team (tr_assignee row) (db_tasks d'))
       = filter (\<lambda>j. j \<noteq> i) (queue_ids team (tr_assignee row) (db_tasks d))"
    "queue_position_of (queue_ids team (tr_assignee row) (db_tasks d')) i = Inr (mv_to rec)"
    "state_of (db_tasks d') t j = state_of (db_tasks d) t j"
proof -
  let ?ts = "db_tasks d" and ?a = "tr_assignee row"
  let ?rest = "filter (\<lambda>j. j \<noteq> i) (queue_ids team ?a ?ts)"
  have tok: "tasks_ok ?ts" and names: "list_all names_ok ?ts" and qs: "\<And>t b. queue_ok t b ?ts"
    using ok by (auto simp: ledger_ok_alt)
  from run obtain order0 k d1 where q: "queue_order team ?a d = Inr order0"
    and k: "placement_index env (filter (\<lambda>j. j \<noteq> i) order0) i tgt team ?a d = Inr k"
    and ren: "renumber_queue env team ?a (insert_at k i (filter (\<lambda>j. j \<noteq> i) order0)) d = Inr d1"
    and pos: "queue_position_of (insert_at k i (filter (\<lambda>j. j \<noteq> i) order0)) i = Inr (mv_to rec)"
    and fin: "db_tasks d' = db_tasks d1" by (rule apply_queued_task_move_Inr)
  have order0: "order0 = queue_ids team ?a ?ts" using q queue_order_ok[OF names] by simp
  obtain r where r: "find (is_task team i) ?ts = Some r" "r \<in> set ?ts" "tc_team r = team"
    "tc_task_id r = i" "tc_assignee r = ?a" "tc_state r = ''assigned''"
    using load_task_row_Some[OF load names] st by (metis TaskState_as_str_def TaskState.simps(8))
  have sti: "state_of ?ts team i = ''assigned''" using r by (simp add: state_of_def)
  let ?order = "insert_at k i ?rest"
  have mem: "i \<in> member_ids ?ts team ?a"
    unfolding member_ids_def using r by (auto simp: member_open_def row_open_def image_iff intro!: bexI[of _ r])
  have dist: "distinct ?order" by (intro distinct_insert_at) (simp_all add: distinct_queue_ids[OF tok])
  have ids: "set ?order = member_ids ?ts team ?a" using mem by (auto simp: set_queue_ids)
  have kk: "\<forall>j\<in>set (drop k ?rest). state_of ?ts team j \<noteq> ''active''"
    using placement_index_ok(2)[OF tok names qs refl] k order0 by blast
  have lead: "sorted_wrt lead_order (map (state_of ?ts team) ?order)"
    by (rule lead_insert[OF lead_without[OF tok qs]]) (use kk sti in auto)
  have ren': "renumber_queue env team ?a ?order d = Inr d1" using ren order0 by simp
  note m = renumber_member[OF tok dist ids lead ren']
  show "ledger_ok (db_tasks d')"
    unfolding fin by (rule renumber_ledger[OF tok names qs dist ids lead ren'])
  show "filter (\<lambda>j. j \<noteq> i) (queue_ids team ?a (db_tasks d')) = ?rest"
    unfolding fin m(3) by (rule filter_insert_at) simp
  show "queue_position_of (queue_ids team ?a (db_tasks d')) i = Inr (mv_to rec)"
    unfolding fin m(3) using pos order0 by simp
  show "state_of (db_tasks d') t j = state_of ?ts t j" unfolding fin by (rule m(6))
qed

text \<open>A move finds its task open and either leaves a started task where it is or replaces a
  queued one.\<close>

lemma apply_task_move_cases:
  assumes "apply_task_move env team i actor tgt at d = Inr (d', rec)"
  obtains (started) row where "load_task_row env team i d = Inr (Some row)" "tr_state row = Active"
      "db_tasks d' = db_tasks d" "db_mail_messages d' = db_mail_messages d"
  | (queued) row where "load_task_row env team i d = Inr (Some row)" "tr_state row = Assigned"
      "apply_queued_task_move env team i actor tgt at row Assigned d = Inr (d', rec)"
proof -
  obtain ro where ro: "load_task_row env team i d = Inr ro"
    using assms by (cases "load_task_row env team i d") (simp_all add: apply_task_move_def)
  then obtain row where row: "ro = Some row" using assms by (cases ro) (simp_all add: apply_task_move_def)
  have opn: "is_open (tr_state row)"
    using assms unfolding apply_task_move_def ro row liftE_simps bindE_simps option.case
    by (metis sum.distinct(1))
  show thesis
  proof (cases "tr_state row = Active")
    case True
    with assms obtain pos st d1 ev where
      "append_active_task_move env team i actor at row st pos d = Inr (d', ev)"
      unfolding apply_task_move_def ro row liftE_simps bindE_simps option.case
      by (auto simp: bindE_eq_Inr_iff simp del: append_Cons)
    then show thesis
      using started[of row] True ro row append_task_event_frame
      by (simp add: append_active_task_move_def)
  next
    case False
    then have st: "tr_state row = Assigned" using opn open_states by blast
    with assms have "apply_queued_task_move env team i actor tgt at row Assigned d = Inr (d', rec)"
      unfolding apply_task_move_def ro row liftE_simps bindE_simps option.case
      by (simp add: transition_def run_transition_def bindE_eq_Inr_iff del: append_Cons)
    then show thesis using queued[of row] st ro row by simp
  qed
qed

lemma move_ledger:
  assumes "ledger_ok (db_tasks d)" "apply_task_move env team i actor tgt at d = Inr (d', rec)"
  shows "ledger_ok (db_tasks d')"
  using assms(2)
proof (cases rule: apply_task_move_cases)
  case (started row)
  then show ?thesis using assms(1) by simp
next
  case (queued row)
  then show ?thesis using queued_move_ledger(1)[OF assms(1)] by blast
qed

section \<open>Rewriting a stored message\<close>

definition stored :: "Message \<Rightarrow> db \<Rightarrow> bool" where
  "stored m d \<longleftrightarrow>
     list_ex (same_mail (msg_team m) (msg_agent m) (msg_message_key m)) (db_mail_messages d)"

lemma insert_initial_message_state_frame:
  "\<exists>st. insert_initial_message_state env m d = d\<lparr>db_mail_states := st\<rparr>"
  by (simp add: insert_initial_message_state_def upsert_message_state_def Let_def) blast

lemma prepare_values_key:
  "prepare_message_insert_values env m = Inr v \<Longrightarrow>
   mc_team v = msg_team m \<and> mc_agent v = msg_agent m \<and> mc_message_key v = msg_message_key m
   \<and> mc_envelope_json v = StorageEnvelope_new (msg_envelope m)"
  by (auto simp: prepare_message_insert_values_def Let_def bindE_eq_Inr_iff)

lemma insert_canonical_stored:
  assumes "stored m d" "insert_message_canonical env m d = Inr (d', inserted)"
  shows "\<not> inserted" "\<exists>st. d' = d\<lparr>db_mail_states := st\<rparr>"
proof -
  from assms(2) obtain v d1 where v: "prepare_message_insert_values env m = Inr v"
    and row: "insert_message_row v d = Inr (d1, inserted)"
    and fin: "d' = insert_initial_message_state env m
        (if inserted then sync_inserted_message_projection v d1 else d1)"
    by (auto simp: insert_message_canonical_def bindE_eq_Inr_iff Let_def)
  have "insert_message_row v d = Inr (d, False)"
    using assms(1) prepare_values_key[OF v] by (simp add: insert_message_row_def stored_def)
  with row have "d1 = d" "\<not> inserted" by simp_all
  then show "\<not> inserted" "\<exists>st. d' = d\<lparr>db_mail_states := st\<rparr>"
    using fin insert_initial_message_state_frame[of env m d] by simp_all
qed

text \<open>An admission of a message that is already stored has no task effect.\<close>

lemma upsert_body_stored:
  assumes "stored m d" "upsert_body env u m p d = Inr (d', r)"
  shows "\<not> up_inserted r" "\<exists>st. d' = d\<lparr>db_mail_states := st\<rparr>"
proof -
  from assms(2) obtain d1 inserted where ins: "insert_message_canonical env m d = Inr (d1, inserted)"
    by (auto simp: upsert_body_def bindE_eq_Inr_iff)
  note f = insert_canonical_stored[OF assms(1) ins]
  with assms(2) ins show "\<not> up_inserted r" "\<exists>st. d' = d\<lparr>db_mail_states := st\<rparr>"
    by (auto simp: upsert_body_def bindE_eq_Inr_iff upsert_result_def)
qed

lemma upsert_bounded_stored:
  assumes "stored m d" "upsert_bounded env n m p d = Inr (d', r)"
  shows "\<exists>st. d' = d\<lparr>db_mail_states := st\<rparr>"
  using assms upsert_body_stored(2)[OF assms(1)] by (cases n) auto

lemma MessageKey_new_Inr: "MessageKey_new s = Inr k \<Longrightarrow> k = s"
  by (auto simp: MessageKey_new_def require_non_blank_def split: if_splits)

lemma load_existing_message_key:
  assumes "load_existing_message req d = Inr m" "valid_segment (msg_team req)" "valid_segment (msg_agent req)"
  shows "msg_team m = msg_team req" "msg_agent m = msg_agent req"
    "msg_message_key m = msg_message_key req" "stored m d"
proof -
  obtain c where c: "find_mail (msg_team req) (msg_agent req) (msg_message_key req) d = Some c"
    using assms(1)
    by (cases "find_mail (msg_team req) (msg_agent req) (msg_message_key req) d")
       (simp_all add: load_existing_message_def)
  then have mem: "c \<in> set (db_mail_messages d)"
    "same_mail (msg_team req) (msg_agent req) (msg_message_key req) c"
    by (auto simp: find_mail_def find_Some_iff)
  then have names: "mc_team c = msg_team req" "mc_agent c = msg_agent req"
    by (auto simp: same_mail_def)
  have "TeamName_from_str (mc_team c) = Inr (msg_team req)" "AgentName_from_str (mc_agent c) = Inr (msg_agent req)"
    using assms(2,3) names team_name.parse_complete agent_name.parse_complete by auto
  then show k: "msg_team m = msg_team req" "msg_agent m = msg_agent req"
    "msg_message_key m = msg_message_key req"
    using assms(1) c by (auto simp: load_existing_message_def Let_def)
  show "stored m d" using mem k by (auto simp: stored_def list_ex_iff)
qed

lemma mark_source_acknowledged_key [simp]:
  "msg_team (mark_source_acknowledged now m) = msg_team m"
  "msg_agent (mark_source_acknowledged now m) = msg_agent m"
  "msg_message_key (mark_source_acknowledged now m) = msg_message_key m"
  by (simp_all add: mark_source_acknowledged_def)

lemma acknowledge_assignment_frame:
  assumes "acknowledge_assignment (upsert_bounded env n) record row d = Inr d'"
    "valid_segment (msg_team record)" "valid_segment (tr_assignee row)"
  shows "\<exists>st. d' = d\<lparr>db_mail_states := st\<rparr>"
proof (cases "find (\<lambda>m. mc_team m = msg_team record \<and> mc_agent m = tr_assignee row
              \<and> mc_message_id m = Some (tr_assignment_message_id row)) (db_mail_messages d)")
  case None
  then show ?thesis using assms(1) by (auto simp: acknowledge_assignment_def intro: exI[of _ "db_mail_states d"])
next
  case (Some c)
  with assms(1) obtain key m where
    m: "load_existing_message \<lparr>msg_team = msg_team record, msg_agent = tr_assignee row,
          msg_message_key = key, msg_envelope = msg_envelope record\<rparr> d = Inr m"
    and cs: "d' = d \<or> (\<exists>r. upsert_bounded env n
       (mark_source_acknowledged (me_timestamp (msg_envelope record)) m) Local d = Inr (d', r))"
    unfolding acknowledge_assignment_def
    by (auto simp: bindE_eq_Inr_iff simp del: append_Cons split: if_splits)
  have "stored (mark_source_acknowledged (me_timestamp (msg_envelope record)) m) d"
    using load_existing_message_key(4)[OF m] assms(2,3) by (simp add: stored_def)
  then show ?thesis using cs upsert_bounded_stored by (auto intro: exI[of _ "db_mail_states d"])
qed

section \<open>Closing a task\<close>

lemma persist_task_close_Inr:
  assumes "persist_task_close env u record i outcome reason row st d = Inr (d', event)"
  obtains d1 d2 order d3 where
    "acknowledge_assignment u record row d = Inr d1"
    "run_update env ''failed to close task'' (is_task (msg_team record) i)
       (\<lambda>c. c\<lparr>tc_state := TaskState_as_str st, tc_close_outcome := Some (TaskCloseOutcome_as_str outcome),
              tc_position := None, tc_updated_at := me_timestamp (msg_envelope record)\<rparr>) d1 = Inr d2"
    "queue_order (msg_team record) (tr_assignee row) d2 = Inr order"
    "renumber_queue env (msg_team record) (tr_assignee row) order d2 = Inr d3"
    "db_tasks d' = db_tasks d3" "db_mail_messages d' = db_mail_messages d1"
proof -
  from assms obtain d1 d2 order d3 dr where
    *: "acknowledge_assignment u record row d = Inr d1"
    "run_update env ''failed to close task'' (is_task (msg_team record) i)
       (\<lambda>c. c\<lparr>tc_state := TaskState_as_str st, tc_close_outcome := Some (TaskCloseOutcome_as_str outcome),
              tc_position := None, tc_updated_at := me_timestamp (msg_envelope record)\<rparr>) d1 = Inr d2"
    "queue_order (msg_team record) (tr_assignee row) d2 = Inr order"
    "renumber_queue env (msg_team record) (tr_assignee row) order d2 = Inr d3"
    and ev: "append_task_event env dr d3 = Inr (d', event)"
    by (auto simp: persist_task_close_def Let_def bindE_eq_Inr_iff)
  show thesis
    by (rule that[OF *]) (use append_task_event_frame[OF ev] run_update_frame[OF *(2)]
        renumber_queue_frame[OF *(4)] in auto)
qed

lemma close_ledger:
  assumes ok: "ledger_ok (db_tasks d)" and team: "valid_segment (msg_team record)"
    and load: "load_task_row env (msg_team record) i d = Inr (Some row)" and opn: "is_open (tr_state row)"
    and run: "persist_task_close env (upsert_bounded env n) record i outcome reason row (Complete outcome) d
       = Inr (d', event)"
  shows "ledger_ok (db_tasks d')"
    "queue_ids (msg_team record) (tr_assignee row) (db_tasks d')
       = filter (\<lambda>j. j \<noteq> i) (queue_ids (msg_team record) (tr_assignee row) (db_tasks d))"
    "state_of (db_tasks d') (msg_team record) j
       = (if j = i then ''complete'' else state_of (db_tasks d) (msg_team record) j)"
proof -
  let ?team = "msg_team record" and ?ts = "db_tasks d" and ?who = "tr_assignee row"
  let ?f = "\<lambda>c. c\<lparr>tc_state := TaskState_as_str (Complete outcome),
      tc_close_outcome := Some (TaskCloseOutcome_as_str outcome),
      tc_position := None, tc_updated_at := me_timestamp (msg_envelope record)\<rparr>"
  let ?g = "\<lambda>r. if is_task ?team i r then ?f r else r"
  have tok: "tasks_ok ?ts" and names: "list_all names_ok ?ts" and qs: "\<And>t b. queue_ok t b ?ts"
    using ok by (auto simp: ledger_ok_alt)
  obtain r where r: "find (is_task ?team i) ?ts = Some r" "r \<in> set ?ts" "tc_team r = ?team"
    "tc_task_id r = i" "names_ok r" "?who = tc_assignee r" "TaskState_as_str (tr_state row) = tc_state r"
    using load_task_row_Some[OF load names] by metis
  have who: "valid_segment ?who" using r by (simp add: names_ok_def)
  have only: "x = r" if "x \<in> set ?ts" "is_task ?team i x" for x
    using tasks_ok_key_inj[OF tok that(1) r(2)] that(2) r(3,4) by (simp add: is_task_def task_key_def)
  from run obtain d1 d2 order d3 where
    ack: "acknowledge_assignment (upsert_bounded env n) record row d = Inr d1"
    and upd: "run_update env ''failed to close task'' (is_task ?team i) ?f d1 = Inr d2"
    and q: "queue_order ?team ?who d2 = Inr order"
    and ren: "renumber_queue env ?team ?who order d2 = Inr d3" and fin: "db_tasks d' = db_tasks d3"
    by (rule persist_task_close_Inr)
  have ts1: "db_tasks d1 = ?ts" using acknowledge_assignment_frame[OF ack team who] by auto
  have ts2: "db_tasks d2 = map ?g ?ts" using run_update_Inr(1)[OF upd] ts1 by simp
  have tok2: "tasks_ok (db_tasks d2)" using run_update_Inr(2)[OF upd] tok unfolding ts2 ts1 by simp
  have names2: "list_all names_ok (db_tasks d2)"
    unfolding ts2 using names by (auto simp: list_all_iff names_ok_def)
  have mo: "member_open t b (?g x) = (member_open t b x \<and> \<not> is_task ?team i x)" for t b x
    by (auto simp: member_open_def row_open_def TaskState_as_str_def)
  have rows: "qrows t b (db_tasks d2) = filter (\<lambda>x. \<not> is_task ?team i x) (qrows t b ?ts)" for t b
    unfolding ts2 by (rule qrows_drop) (simp_all add: mo)
  have others: "queue_ok t b (db_tasks d2)" if tb: "(t, b) \<noteq> (?team, ?who)" for t b
  proof -
    have "filter (\<lambda>x. \<not> is_task ?team i x) (qrows t b ?ts) = qrows t b ?ts"
      by (rule filter_True) (use only tb r(3,6) in \<open>auto simp: member_open_def\<close>)
    then show ?thesis using qs[of t b] queue_ok_cong rows[of t b] by metis
  qed
  have order: "order = queue_ids ?team ?who (db_tasks d2)" using q queue_order_ok[OF names2] by simp
  have drop_i: "queue_ids ?team ?who (db_tasks d2) = filter (\<lambda>j. j \<noteq> i) (queue_ids ?team ?who ?ts)"
  proof -
    have "filter (\<lambda>x. \<not> is_task ?team i x) (qrows ?team ?who ?ts)
        = filter (\<lambda>x. tc_task_id x \<noteq> i) (qrows ?team ?who ?ts)"
      by (rule filter_cong) (auto simp: is_task_def member_open_def)
    then show ?thesis unfolding queue_ids_def[of _ _ "db_tasks d2"] rows by (simp add: queue_ids_filter)
  qed
  have "started_lead ?team ?who (db_tasks d2)"
    using qs[of ?team ?who] unfolding queue_ok_def started_lead_def rows sorted_wrt_map
    by (auto intro: sorted_wrt_filter)
  then have lead: "sorted_wrt lead_order (map (state_of (db_tasks d2) ?team) order)"
    using started_lead_iff[OF tok2] order by simp
  have dist: "distinct order" using distinct_queue_ids[OF tok2] order by simp
  have ids: "set order = member_ids (db_tasks d2) ?team ?who" using set_queue_ids order by simp
  show "ledger_ok (db_tasks d')"
    unfolding fin by (rule renumber_ledger[OF tok2 names2 others dist ids lead ren])
  note m = renumber_member[OF tok2 dist ids lead ren]
  show "queue_ids ?team ?who (db_tasks d') = filter (\<lambda>j. j \<noteq> i) (queue_ids ?team ?who ?ts)"
    unfolding fin m(3) order by (rule drop_i)
  show "state_of (db_tasks d') ?team j = (if j = i then ''complete'' else state_of ?ts ?team j)"
    unfolding fin m(6) ts2 using state_of_update[OF tok r(1), of ?f] by (simp add: TaskState_as_str_def)
qed

end
