(* ===== verification/Assignment_Invariant.thy ===== *)
theory Assignment_Invariant
  imports Task_Invariant
begin

text \<open>
  Assigning a task keeps the ledger invariant.  A reassignment of an open task takes it out
  of the former assignee's queue, closes the gap, and inserts it in the new assignee's
  queue; a new or reopened task is only inserted.
\<close>

section \<open>Writing the assigned row\<close>

lemma assignment_row_sel [simp]:
  "tc_team (assignment_row m i p mid at st) = msg_team m"
  "tc_task_id (assignment_row m i p mid at st) = i"
  "tc_assignee (assignment_row m i p mid at st) = msg_agent m"
  "tc_assigner (assignment_row m i p mid at st) = me_from (msg_envelope m)"
  "tc_state (assignment_row m i p mid at st) = TaskState_as_str st"
  by (simp_all add: assignment_row_def)

text \<open>Exactly one row has the key, and every queue but the new assignee's loses at most it.\<close>

lemma assignment_row_written:
  assumes run: "apply_task_assignment_row env m i row p mid at Assigned d = Inr d'"
    and ok: "tasks_ok (db_tasks d)" and present: "row = None \<longleftrightarrow> (\<forall>r\<in>set (db_tasks d). \<not> is_task (msg_team m) i r)"
  shows "tasks_ok (db_tasks d')"
    and "set (db_tasks d') = insert (assignment_row m i p mid at Assigned)
           {r \<in> set (db_tasks d). \<not> is_task (msg_team m) i r}"
    and "(t, b) \<noteq> (msg_team m, msg_agent m) \<Longrightarrow>
           qrows t b (db_tasks d') = filter (\<lambda>r. \<not> is_task (msg_team m) i r) (qrows t b (db_tasks d))"
    and "\<exists>ts. d' = d\<lparr>db_tasks := ts\<rparr>"
proof -
  let ?new = "assignment_row m i p mid at Assigned" and ?P = "is_task (msg_team m) i"
  have new: "?P ?new" "(t, b) \<noteq> (msg_team m, msg_agent m) \<Longrightarrow> \<not> member_open t b ?new" for t b
    by (auto simp: is_task_def member_open_def)
  have "tasks_ok (db_tasks d') \<and> set (db_tasks d') = insert ?new {r \<in> set (db_tasks d). \<not> ?P r}
    \<and> ((t, b) \<noteq> (msg_team m, msg_agent m) \<longrightarrow> qrows t b (db_tasks d') = filter (\<lambda>r. \<not> ?P r) (qrows t b (db_tasks d)))
    \<and> (\<exists>ts. d' = d\<lparr>db_tasks := ts\<rparr>)"
  proof (cases row)
    case None
    then have free: "\<forall>r\<in>set (db_tasks d). \<not> ?P r" using present by simp
    obtain rows where rows: "insert_row tasks_bad ?new (db_tasks d) = Inr rows" "d' = d\<lparr>db_tasks := rows\<rparr>"
      using run None by (auto simp: apply_task_assignment_row_def Let_def bindE_eq_Inr_iff)
    have eq: "rows = db_tasks d @ [?new]" by (rule insert_row_Inr[OF rows(1)])
    have "qrows t b (db_tasks d @ [?new]) = filter (\<lambda>r. \<not> ?P r) (qrows t b (db_tasks d))"
      if tb: "(t, b) \<noteq> (msg_team m, msg_agent m)"
    proof -
      have "filter (\<lambda>r. \<not> ?P r) (qrows t b (db_tasks d)) = qrows t b (db_tasks d)"
        using free by (intro filter_True) auto
      then show ?thesis using new(2)[OF tb] by (simp add: qrows_def)
    qed
    then show ?thesis using insert_row_tasks_ok[OF rows(1) ok] rows(2) eq free by auto
  next
    case (Some r0)
    then have run': "run_update env ''failed to reassign task'' ?P (\<lambda>_. ?new) d = Inr d'"
      using run by (simp add: apply_task_assignment_row_def Let_def)
    note u = run_update_Inr[OF run']
    obtain r where r: "r \<in> set (db_tasks d)" "?P r" using present Some by auto
    have "set (map (\<lambda>r. if ?P r then ?new else r) (db_tasks d)) = insert ?new {r \<in> set (db_tasks d). \<not> ?P r}"
      using r by auto
    moreover have "qrows t b (map (\<lambda>r. if ?P r then ?new else r) (db_tasks d))
        = filter (\<lambda>r. \<not> ?P r) (qrows t b (db_tasks d))" if "(t, b) \<noteq> (msg_team m, msg_agent m)"
      by (rule qrows_drop) (use new(2)[OF that] in auto)
    ultimately show ?thesis using u ok run_update_frame[OF run'] by simp
  qed
  then show "tasks_ok (db_tasks d')"
    "set (db_tasks d') = insert ?new {r \<in> set (db_tasks d). \<not> ?P r}"
    "(t, b) \<noteq> (msg_team m, msg_agent m) \<Longrightarrow>
       qrows t b (db_tasks d') = filter (\<lambda>r. \<not> ?P r) (qrows t b (db_tasks d))"
    "\<exists>ts. d' = d\<lparr>db_tasks := ts\<rparr>" by blast+
qed

text \<open>States only depend on the rows under their keys.\<close>

lemma state_of_eqI:
  assumes "tasks_ok ts" "r \<in> set ts" "is_task team j r"
  shows "state_of ts team j = tc_state r"
  using state_of_row[OF assms(1,2)] assms(3) by (simp add: is_task_def)

lemma state_of_none: "\<forall>r\<in>set ts. \<not> is_task team j r \<Longrightarrow> state_of ts team j = []"
  using find_None_iff[of "is_task team j" ts] by (simp add: state_of_def split: option.splits)

lemma state_of_replaced:
  assumes "tasks_ok ts" "tasks_ok ts'" "set ts' = insert new {r \<in> set ts. \<not> is_task team i r}"
    "is_task team i new"
  shows "state_of ts' team j = (if j = i then tc_state new else state_of ts team j)"
proof (cases "j = i")
  case True
  then show ?thesis using state_of_eqI[OF assms(2), of new team i] assms(3,4) by simp
next
  case False
  show ?thesis
  proof (cases "\<exists>r\<in>set ts. is_task team j r")
    case True
    then obtain r where r: "r \<in> set ts" "is_task team j r" by blast
    then have "\<not> is_task team i r" using False by (simp add: is_task_def)
    then show ?thesis
      using False r state_of_eqI[OF assms(1), of r team j] state_of_eqI[OF assms(2), of r team j] assms(3) by simp
  next
    case none: False
    then have "\<forall>r\<in>set ts'. \<not> is_task team j r" using False assms(3,4) by (auto simp: is_task_def)
    then show ?thesis using False none state_of_none[of ts team j] state_of_none[of ts' team j] by simp
  qed
qed

section \<open>Releasing the former assignee\<close>

lemma write_queue_go_bound:
  "write_queue_go env team n order d = Inr d' \<Longrightarrow> order \<noteq> [] \<Longrightarrow> int (n + length order) \<le> i64_max"
proof (induction order arbitrary: n d)
  case (Cons i order)
  then obtain d1 where d1: "int (n + 1) \<le> i64_max" "write_queue_go env team (n + 1) order d1 = Inr d'"
    by (auto simp: bindE_eq_Inr_iff simp del: append_Cons split: if_splits)
  then show ?case using Cons.IH[OF d1(2)] by (cases order) auto
qed simp

lemma length_queue_ids: "length (queue_ids team a ts) = length (filter (member_open team a) ts)"
  by (simp add: queue_ids_def)

lemma length_filter_remove:
  assumes "distinct xs" "x \<in> set xs"
  shows "length (filter (\<lambda>y. y \<noteq> x) xs) + 1 = length xs"
  using assms by (induction xs) (auto simp: filter_id_conv intro!: arg_cong[of _ _ length])

text \<open>The released table: positions of the former assignee only, the others of that queue at
  \<open>1, 2, ...\<close>.\<close>

lemma release_spec:
  assumes ok: "ledger_ok (db_tasks d)" and r: "r \<in> set (db_tasks d)" "is_task (msg_team m) i r"
    "tc_assignee r = tr_assignee row" "row_open r" and opn: "is_open (tr_state row)"
    and run: "release_previous_assignment env m i (Some row) d = Inr d'"
  defines "old \<equiv> filter (\<lambda>j. j \<noteq> i) (queue_ids (msg_team m) (tr_assignee row) (db_tasks d))"
  shows "tasks_ok (db_tasks d')" "list_all names_ok (db_tasks d')"
    and "\<And>x. x \<in> set (db_tasks d') \<Longrightarrow> \<exists>y\<in>set (db_tasks d). \<exists>p. x = y\<lparr>tc_position := p\<rparr>"
    and "\<And>y. y \<in> set (db_tasks d) \<Longrightarrow> \<exists>p. y\<lparr>tc_position := p\<rparr> \<in> set (db_tasks d')"
    and "(t, b) \<noteq> (msg_team m, tr_assignee row) \<Longrightarrow> qrows t b (db_tasks d') = qrows t b (db_tasks d)"
    and "\<And>x. x \<in> set (db_tasks d') \<Longrightarrow> tc_task_id x \<noteq> i \<or> \<not> member_open (msg_team m) (tr_assignee row) x
           \<Longrightarrow> reposition (msg_team m) (tr_assignee row) old x = x"
    and "\<exists>ts. d' = d\<lparr>db_tasks := ts\<rparr>"
proof -
  let ?team = "msg_team m" and ?who = "tr_assignee row" and ?ts = "db_tasks d"
  let ?m = "member_open ?team ?who" and ?k = "int (length old + 1)"
  let ?off = "\<lambda>x. if ?m x then offset_positions ?k x else x"
  let ?rep = "reposition ?team ?who old"
  have tok: "tasks_ok ?ts" and names: "list_all names_ok ?ts" and q: "queue_ok ?team ?who ?ts"
    using ok by (auto simp: ledger_ok_alt)
  have order: "queue_order ?team ?who d = Inr (queue_ids ?team ?who ?ts)" by (rule queue_order_ok[OF names])
  obtain d1 where upd: "run_update env ''failed to release old task position'' ?m (offset_positions ?k) d = Inr d1"
    and wr: "write_queue_positions env ?team old d1 = Inr d'"
    using run opn order
    by (auto simp: release_previous_assignment_def Let_def bindE_eq_Inr_iff old_def simp del: append_Cons)
  have mem: "i \<in> set (queue_ids ?team ?who ?ts)"
    unfolding set_queue_ids member_ids_def using r by (auto simp: member_open_def is_task_def)
  have "?k = int (length (filter ?m ?ts))"
    using length_filter_remove[OF distinct_queue_ids[OF tok] mem] by (simp add: old_def length_queue_ids)
  then have k: "?k \<ge> max_position (filter ?m ?ts)"
    using contiguous_max_position q by (simp add: queue_ok_def)
  have tok1: "tasks_ok (map ?off ?ts)" by (rule offset_update(2)[OF tok k])
  have ts1: "db_tasks d1 = map ?off ?ts" using run_update_Inr(1)[OF upd] by simp
  have old_ids: "set old \<subseteq> member_ids (map ?off ?ts) ?team ?who"
  proof -
    have "member_ids (map ?off ?ts) ?team ?who = member_ids ?ts ?team ?who"
      by (rule member_ids_map) simp
    then show ?thesis by (auto simp: old_def set_queue_ids)
  qed
  have dist: "distinct old" by (simp add: old_def distinct_queue_ids[OF tok])
  have bound: "int (length old) \<le> i64_max"
    using write_queue_go_bound[of env ?team 0 old d1 d'] wr
    by (cases "old = []") (auto simp: write_queue_positions_def i64_max_def)
  have abv: "above (map ?off ?ts) ?team ?who (length old)" by (rule above_offset[OF tok]) simp
  note w = write_queue_positions_ok[of d1 ?team ?who old, unfolded ts1,
      OF tok1 owned_by_member_ids[OF old_ids] dist abv bound]
  have ts': "db_tasks d' = map ?rep (map ?off ?ts)" using w(1)[of env] wr by simp
  show "tasks_ok (db_tasks d')" unfolding ts' by (rule w(2))
  have chg: "\<exists>p. ?rep (?off x) = x\<lparr>tc_position := p\<rparr>" for x
  proof (cases "?m x")
    case True
    then show ?thesis by (auto simp: reposition_def offset_positions_def split: option.splits)
  next
    case False
    then have "?rep (?off x) = x\<lparr>tc_position := tc_position x\<rparr>" by (simp add: reposition_id)
    then show ?thesis by blast
  qed
  show fwd: "\<exists>y\<in>set ?ts. \<exists>p. x = y\<lparr>tc_position := p\<rparr>" if "x \<in> set (db_tasks d')" for x
  proof -
    from that obtain y where "y \<in> set ?ts" "x = ?rep (?off y)"
      unfolding ts' set_map by (elim imageE) simp
    then show ?thesis using chg[of y] by blast
  qed
  show "\<exists>p. y\<lparr>tc_position := p\<rparr> \<in> set (db_tasks d')" if y: "y \<in> set ?ts" for y
  proof -
    obtain p where p: "?rep (?off y) = y\<lparr>tc_position := p\<rparr>" using chg[of y] by blast
    have "?rep (?off y) \<in> ?rep ` ?off ` set ?ts" by (intro imageI y)
    then show ?thesis unfolding ts' set_map p by blast
  qed
  have "names_ok x" if "x \<in> set (db_tasks d')" for x
    using fwd[OF that] names by (auto simp: list_all_iff names_ok_def)
  then show "list_all names_ok (db_tasks d')" by (simp add: list_all_iff)
  show "qrows t b (db_tasks d') = qrows t b ?ts" if tb: "(t, b) \<noteq> (?team, ?who)" for t b
    unfolding ts' reposition_other[OF tb]
    by (rule qrows_unchanged) (use tb member_open_unique in \<open>auto split: if_splits\<close>)
  show "?rep x = x" if x: "x \<in> set (db_tasks d')" "tc_task_id x \<noteq> i \<or> \<not> ?m x" for x
    using x unfolding ts' by (auto simp: reposition_def split: option.splits)
  show "\<exists>ts. d' = d\<lparr>db_tasks := ts\<rparr>"
    using w(1)[of env] wr run_update_frame[OF upd] by auto
qed

lemma released_states:
  assumes "tasks_ok ts" "tasks_ok ts'"
    "\<And>x. x \<in> set ts' \<Longrightarrow> \<exists>y\<in>set ts. \<exists>p. x = y\<lparr>tc_position := p\<rparr>"
    "\<And>y. y \<in> set ts \<Longrightarrow> \<exists>p. y\<lparr>tc_position := p\<rparr> \<in> set ts'"
  shows "state_of ts' team j = state_of ts team j"
proof (cases "\<exists>y\<in>set ts. is_task team j y")
  case True
  then obtain y where y: "y \<in> set ts" "is_task team j y" by blast
  obtain p where p: "y\<lparr>tc_position := p\<rparr> \<in> set ts'" using assms(4)[OF y(1)] by blast
  show ?thesis
    using state_of_eqI[OF assms(1) y] state_of_eqI[OF assms(2) p, of team j] y(2) by simp
next
  case False
  then have "\<forall>x\<in>set ts'. \<not> is_task team j x" using assms(3) by fastforce
  then show ?thesis using False state_of_none[of ts team j] state_of_none[of ts' team j] by simp
qed

text \<open>Once the task has its new row, the former queue is the old order without it.\<close>

lemma released_queue:
  assumes ok: "ledger_ok ts" and t1: "tasks_ok ts1"
    and fwd: "\<And>x. x \<in> set ts1 \<Longrightarrow> \<exists>y\<in>set ts. \<exists>p. x = y\<lparr>tc_position := p\<rparr>"
    and bwd: "\<And>y. y \<in> set ts \<Longrightarrow> \<exists>p. y\<lparr>tc_position := p\<rparr> \<in> set ts1"
    and fixp: "\<And>x. x \<in> set ts1 \<Longrightarrow> tc_task_id x \<noteq> i \<or> \<not> member_open (msg_team m) who x \<Longrightarrow>
        reposition (msg_team m) who (filter (\<lambda>j. j \<noteq> i) (queue_ids (msg_team m) who ts)) x = x"
    and t2: "tasks_ok ts2" "set ts2 = insert (assignment_row m i p mid at st)
        {r \<in> set ts1. \<not> is_task (msg_team m) i r}"
    and r: "r \<in> set ts" "is_task (msg_team m) i r" "tc_assignee r = who" and other: "who \<noteq> msg_agent m"
  shows "queue_ids (msg_team m) who ts2 = filter (\<lambda>j. j \<noteq> i) (queue_ids (msg_team m) who ts)"
proof -
  let ?team = "msg_team m" and ?old = "filter (\<lambda>j. j \<noteq> i) (queue_ids (msg_team m) who ts)"
  have tok: "tasks_ok ts" using ok by (simp add: ledger_ok_def)
  have new: "\<not> member_open ?team who (assignment_row m i p mid at st)" using other by (simp add: member_open_def)
  have mem2: "x \<in> set ts2 \<and> member_open ?team who x \<longleftrightarrow>
      x \<in> set ts1 \<and> member_open ?team who x \<and> tc_task_id x \<noteq> i" for x
    unfolding t2(2) using new by (auto simp: is_task_def member_open_def)
  have ids: "set ?old = member_ids ts2 ?team who"
  proof (intro equalityI subsetI)
    fix j assume "j \<in> set ?old"
    then obtain y where y: "y \<in> set ts" "member_open ?team who y" "tc_task_id y = j" "j \<noteq> i"
      by (auto simp: set_queue_ids member_ids_def)
    obtain q where "y\<lparr>tc_position := q\<rparr> \<in> set ts1" using bwd[OF y(1)] by blast
    with y have "y\<lparr>tc_position := q\<rparr> \<in> set ts2 \<and> member_open ?team who (y\<lparr>tc_position := q\<rparr>)"
      unfolding mem2 by simp
    then show "j \<in> member_ids ts2 ?team who" using y(3) unfolding member_ids_def by (auto simp: image_iff)
  next
    fix j assume "j \<in> member_ids ts2 ?team who"
    then obtain x where x: "x \<in> set ts2" "member_open ?team who x" "tc_task_id x = j"
      by (auto simp: member_ids_def)
    then have "x \<in> set ts1" "j \<noteq> i" using mem2[of x] by auto
    moreover obtain y q where "y \<in> set ts" "x = y\<lparr>tc_position := q\<rparr>" using fwd[OF \<open>x \<in> set ts1\<close>] by blast
    ultimately show "j \<in> set ?old" using x by (auto simp: set_queue_ids member_ids_def)
  qed
  have same: "map (reposition ?team who ?old) ts2 = ts2"
  proof (rule map_idI)
    fix x assume x: "x \<in> set ts2"
    show "reposition ?team who ?old x = x"
    proof (cases "member_open ?team who x")
      case True
      then show ?thesis using fixp[of x] mem2[of x] x by blast
    qed (rule reposition_id)
  qed
  have "distinct ?old" by (simp add: distinct_queue_ids[OF tok])
  from reposition_queue_ids[OF t2(1) this ids] t2(1) show ?thesis unfolding same by simp
qed

section \<open>Inserting in the new assignee's queue\<close>

lemma member_ids_replaced:
  assumes "set ts' = insert new {r \<in> set ts. \<not> is_task team i r}"
    "is_task team i new" "member_open team a new"
  shows "member_ids ts' team a = insert i (member_ids ts team a - {i})"
  using assms by (auto simp: member_ids_def member_open_def is_task_def)

text \<open>
  \<open>d1\<close> is the store the placement was computed in, \<open>d2\<close> has the assigned row, and in \<open>d3\<close>
  every other queue is in order.
\<close>

lemma assign_finish:
  assumes ok1: "tasks_ok (db_tasks d1)" "list_all names_ok (db_tasks d1)" "queue_ok team a (db_tasks d1)"
    and k: "placement_index env (filter (\<lambda>j. j \<noteq> i) (queue_ids team a (db_tasks d1))) i pl team a d1 = Inr k"
    and row: "set (db_tasks d2) = insert new {r \<in> set (db_tasks d1). \<not> is_task team i r}"
      "is_task team i new" "member_open team a new" "tc_state new = ''assigned''" "tasks_ok (db_tasks d2)"
    and ok3: "tasks_ok (db_tasks d3)" "list_all names_ok (db_tasks d3)"
      "\<And>t b. (t, b) \<noteq> (team, a) \<Longrightarrow> queue_ok t b (db_tasks d3)"
      "qrows team a (db_tasks d3) = qrows team a (db_tasks d2)"
      "\<And>t j. state_of (db_tasks d3) t j = state_of (db_tasks d2) t j"
    and ren: "renumber_queue env team a
      (insert_at k i (filter (\<lambda>j. j \<noteq> i) (queue_ids team a (db_tasks d1)))) d3 = Inr d4"
  shows "ledger_ok (db_tasks d4)"
    "queue_ids team a (db_tasks d4) = insert_at k i (filter (\<lambda>j. j \<noteq> i) (queue_ids team a (db_tasks d1)))"
    "state_of (db_tasks d4) team j = (if j = i then ''assigned'' else state_of (db_tasks d1) team j)"
    "(t, b) \<noteq> (team, a) \<Longrightarrow> qrows t b (db_tasks d4) = qrows t b (db_tasks d3)"
proof -
  let ?rest = "filter (\<lambda>j. j \<noteq> i) (queue_ids team a (db_tasks d1))"
  let ?order = "insert_at k i ?rest"
  have st2: "state_of (db_tasks d2) team j
      = (if j = i then ''assigned'' else state_of (db_tasks d1) team j)" for j
    using state_of_replaced[OF ok1(1) row(5,1,2)] row(4) by simp
  have "member_ids (db_tasks d3) team a = member_ids (db_tasks d2) team a"
    using ok3(4) by (simp add: queue_ids_def flip: set_queue_ids)
  then have ids: "set ?order = member_ids (db_tasks d3) team a"
    using member_ids_replaced[OF row(1-3)] by (auto simp: set_queue_ids)
  have dist: "distinct ?order"
    by (intro distinct_insert_at) (simp_all add: distinct_queue_ids[OF ok1(1)])
  have lead: "sorted_wrt lead_order (map (state_of (db_tasks d3) team) ?order)"
  proof (rule lead_insert)
    have eq: "map (state_of (db_tasks d3) team) ?rest = map (state_of (db_tasks d1) team) ?rest"
      by (simp add: ok3(5) st2)
    show "sorted_wrt lead_order (map (state_of (db_tasks d3) team) ?rest)"
      unfolding eq by (rule lead_without[OF ok1(1,3)])
    show "\<forall>y\<in>set (drop k ?rest). state_of (db_tasks d3) team y \<noteq> ''active''"
      using placement_index_ok(2)[OF ok1 refl k] by (simp add: ok3(5) st2)
  qed (simp add: ok3(5) st2)
  show "ledger_ok (db_tasks d4)" by (rule renumber_ledger[OF ok3(1-3) dist ids lead ren])
  note m = renumber_member[OF ok3(1) dist ids lead ren]
  show "queue_ids team a (db_tasks d4) = ?order" by (rule m(3))
  show "state_of (db_tasks d4) team j = (if j = i then ''assigned'' else state_of (db_tasks d1) team j)"
    unfolding m(6) ok3(5) by (rule st2)
  show "(t, b) \<noteq> (team, a) \<Longrightarrow> qrows t b (db_tasks d4) = qrows t b (db_tasks d3)" by (rule m(4))
qed

lemma append_placement_event_frame:
  assumes "append_placement_event env m i pl row mid at st n d = Inr (d', evs)"
  shows "db_tasks d' = db_tasks d" "db_mail_messages d' = db_mail_messages d"
  using assms append_task_event_frame
  by (auto simp: append_placement_event_def bindE_eq_Inr_iff simp del: append_Cons split: option.splits)

lemma persist_task_assignment_Inr:
  assumes "persist_task_assignment env m i pl row mid at st d = Inr (d', order, evs)"
  obtains d1 order0 k d2 d3 d4 where
    "release_previous_assignment env m i row d = Inr d1"
    "queue_order (msg_team m) (msg_agent m) d1 = Inr order0"
    "placement_index env (filter (\<lambda>j. j \<noteq> i) order0) i (case pl of Some p \<Rightarrow> p | None \<Rightarrow> MoveEnd)
       (msg_team m) (msg_agent m) d1 = Inr k"
    "order = insert_at k i (filter (\<lambda>j. j \<noteq> i) order0)"
    "apply_task_assignment_row env m i row (length order) mid at st d1 = Inr d2"
    "renumber_previous_assignment env m row d2 = Inr d3"
    "renumber_queue env (msg_team m) (msg_agent m) order d3 = Inr d4"
    "db_tasks d' = db_tasks d4" "db_mail_messages d' = db_mail_messages d4"
proof -
  from assms obtain d1 order0 d2 d3 d4 d5 n moved ev where
    rel: "release_previous_assignment env m i row d = Inr d1"
    and q: "queue_order (msg_team m) (msg_agent m) d1 = Inr order0"
    and ins: "insert_at_placement env (filter (\<lambda>j. j \<noteq> i) order0) i
      (case pl of Some p \<Rightarrow> p | None \<Rightarrow> MoveEnd) (msg_team m) (msg_agent m) d1 = Inr order"
    and row: "apply_task_assignment_row env m i row (length order) mid at st d1 = Inr d2"
    and prev: "renumber_previous_assignment env m row d2 = Inr d3"
    and ren: "renumber_queue env (msg_team m) (msg_agent m) order d3 = Inr d4"
    and ev: "append_assignment_event env m i row
      (case row of Some r \<Rightarrow> \<not> is_open (tr_state r) | None \<Rightarrow> False) mid at st d4 = Inr (d5, ev)"
    and mov: "append_placement_event env m i pl row mid at st n d5 = Inr (d', moved)"
    by (auto simp: persist_task_assignment_def Let_def bindE_eq_Inr_iff simp del: append_Cons split: if_splits)
  obtain k where k: "placement_index env (filter (\<lambda>j. j \<noteq> i) order0) i
      (case pl of Some p \<Rightarrow> p | None \<Rightarrow> MoveEnd) (msg_team m) (msg_agent m) d1 = Inr k"
    "order = insert_at k i (filter (\<lambda>j. j \<noteq> i) order0)"
    using ins by (auto simp: insert_at_placement_def bindE_eq_Inr_iff)
  show thesis
    by (rule that[OF rel q k row prev ren])
       (use append_placement_event_frame[OF mov] append_task_event_frame ev in
         \<open>simp_all add: append_assignment_event_def\<close>)
qed

section \<open>Assignment keeps the invariant\<close>

definition valid_message :: "Message \<Rightarrow> bool" where
  "valid_message m \<longleftrightarrow> valid_segment (msg_team m) \<and> valid_segment (msg_agent m)
     \<and> valid_segment (me_from (msg_envelope m)) \<and> pred_option valid_task_id (me_task_id (msg_envelope m))"

lemma names_ok_assignment_row:
  "valid_message m \<Longrightarrow> valid_task_id i \<Longrightarrow> names_ok (assignment_row m i p mid at st)"
  by (simp add: names_ok_def valid_message_def)

lemma assigned_member_open: "member_open (msg_team m) (msg_agent m) (assignment_row m i p mid at Assigned)"
  by (simp add: member_open_def row_open_def TaskState_as_str_def)

lemma load_present:
  assumes "load_task_row env team i d = Inr row" "list_all names_ok (db_tasks d)"
  shows "row = None \<longleftrightarrow> (\<forall>r\<in>set (db_tasks d). \<not> is_task team i r)"
proof (cases row)
  case None
  then show ?thesis using load_task_row_None assms(1) by blast
next
  case (Some x)
  then obtain r where "r \<in> set (db_tasks d)" "tc_team r = team" "tc_task_id r = i"
    using load_task_row_Some[of env team i d x] assms by metis
  then show ?thesis using Some by (auto simp: is_task_def)
qed

text \<open>A task that is new or closed is only inserted.\<close>

lemma assign_closed_ledger:
  assumes ok: "ledger_ok (db_tasks d)" and m: "valid_message m" "valid_task_id i"
    and load: "load_task_row env (msg_team m) i d = Inr row"
    and closed: "pred_option (\<lambda>r. \<not> is_open (tr_state r)) row"
    and run: "persist_task_assignment env m i pl row mid at Assigned d = Inr (d', order, evs)"
  shows "ledger_ok (db_tasks d')" "queue_ids (msg_team m) (msg_agent m) (db_tasks d') = order"
    "filter (\<lambda>j. j \<noteq> i) order = queue_ids (msg_team m) (msg_agent m) (db_tasks d)" "i \<in> set order"
    "state_of (db_tasks d') (msg_team m) j
       = (if j = i then ''assigned'' else state_of (db_tasks d) (msg_team m) j)"
proof -
  let ?team = "msg_team m" and ?a = "msg_agent m" and ?ts = "db_tasks d"
  have tok: "tasks_ok ?ts" and names: "list_all names_ok ?ts" and qs: "\<And>t b. queue_ok t b ?ts"
    using ok by (auto simp: ledger_ok_alt)
  from run obtain d1 order0 k d2 d3 d4 where
    rel: "release_previous_assignment env m i row d = Inr d1"
    and q: "queue_order ?team ?a d1 = Inr order0"
    and k: "placement_index env (filter (\<lambda>j. j \<noteq> i) order0) i (case pl of Some p \<Rightarrow> p | None \<Rightarrow> MoveEnd)
       ?team ?a d1 = Inr k"
    and order: "order = insert_at k i (filter (\<lambda>j. j \<noteq> i) order0)"
    and row: "apply_task_assignment_row env m i row (length order) mid at Assigned d1 = Inr d2"
    and prev: "renumber_previous_assignment env m row d2 = Inr d3"
    and ren: "renumber_queue env ?team ?a order d3 = Inr d4"
    and fin: "db_tasks d' = db_tasks d4" by (rule persist_task_assignment_Inr)
  have same: "d1 = d" "d3 = d2"
    using rel prev closed
    by (auto simp: release_previous_assignment_def renumber_previous_assignment_def split: option.splits)
  have gone: "\<not> member_open t b x" if x: "x \<in> set ?ts" "is_task ?team i x" for t b x
  proof -
    obtain rw where rw: "row = Some rw" using load_present[OF load names] x by (cases row) auto
    obtain r where r: "r \<in> set ?ts" "tc_team r = ?team" "tc_task_id r = i"
      "TaskState_as_str (tr_state rw) = tc_state r"
      using load_task_row_Some[of env ?team i d rw] load names rw by metis
    have "x = r" using tasks_ok_key_inj[OF tok x(1) r(1)] x(2) r(2,3) by (simp add: is_task_def task_key_def)
    then show ?thesis using r(4) closed rw as_str_open by (auto simp: member_open_def row_open_def)
  qed
  note w = assignment_row_written[OF row[unfolded same] tok load_present[OF load names]]
  let ?new = "assignment_row m i (length order) mid at Assigned"
  have names2: "list_all names_ok (db_tasks d2)"
    using names names_ok_assignment_row[OF m] w(2) by (auto simp: list_all_iff)
  have others: "queue_ok t b (db_tasks d2)" if tb: "(t, b) \<noteq> (?team, ?a)" for t b
  proof -
    have "filter (\<lambda>r. \<not> is_task ?team i r) (qrows t b ?ts) = qrows t b ?ts"
      by (rule filter_True) (use gone in auto)
    then show ?thesis using qs[of t b] queue_ok_cong w(3)[OF tb] by metis
  qed
  have order0: "order0 = queue_ids ?team ?a ?ts" using q queue_order_ok[OF names] same by simp
  have new: "is_task ?team i ?new" "tc_state ?new = ''assigned''"
    by (simp_all add: is_task_def TaskState_as_str_def)
  note f = assign_finish[OF tok names qs k[unfolded order0 same] w(2) new(1) assigned_member_open new(2) w(1)
      w(1) names2 others refl refl ren[unfolded order order0 same]]
  show "ledger_ok (db_tasks d')" unfolding fin by (rule f(1))
  show "queue_ids ?team ?a (db_tasks d') = order" unfolding fin order order0 by (rule f(2))
  show "state_of (db_tasks d') ?team j = (if j = i then ''assigned'' else state_of ?ts ?team j)"
    unfolding fin by (rule f(3))
  have "i \<notin> set (queue_ids ?team ?a ?ts)"
    unfolding set_queue_ids member_ids_def using gone by (auto simp: is_task_def member_open_def)
  then have "filter (\<lambda>j. j \<noteq> i) (queue_ids ?team ?a ?ts) = queue_ids ?team ?a ?ts"
    by (intro filter_True) auto
  then show "filter (\<lambda>j. j \<noteq> i) order = queue_ids ?team ?a ?ts"
    unfolding order order0 using filter_insert_at[of i "queue_ids ?team ?a ?ts" k]
      \<open>i \<notin> set (queue_ids ?team ?a ?ts)\<close> by simp
  show "i \<in> set order" by (simp add: order)
qed

text \<open>A task that is open with another member leaves that member's queue.\<close>

lemma reassign_ledger:
  assumes ok: "ledger_ok (db_tasks d)" and m: "valid_message m" "valid_task_id i"
    and load: "load_task_row env (msg_team m) i d = Inr (Some rw)"
    and opn: "is_open (tr_state rw)" and other: "tr_assignee rw \<noteq> msg_agent m"
    and run: "persist_task_assignment env m i pl (Some rw) mid at Assigned d = Inr (d', order, evs)"
  shows "ledger_ok (db_tasks d')" "queue_ids (msg_team m) (msg_agent m) (db_tasks d') = order"
    "filter (\<lambda>j. j \<noteq> i) order = queue_ids (msg_team m) (msg_agent m) (db_tasks d)" "i \<in> set order"
    "queue_ids (msg_team m) (tr_assignee rw) (db_tasks d')
       = filter (\<lambda>j. j \<noteq> i) (queue_ids (msg_team m) (tr_assignee rw) (db_tasks d))"
    "state_of (db_tasks d') (msg_team m) j
       = (if j = i then ''assigned'' else state_of (db_tasks d) (msg_team m) j)"
proof -
  let ?team = "msg_team m" and ?a = "msg_agent m" and ?ts = "db_tasks d" and ?who = "tr_assignee rw"
  let ?old = "filter (\<lambda>j. j \<noteq> i) (queue_ids ?team ?who ?ts)"
  have tok: "tasks_ok ?ts" and names: "list_all names_ok ?ts" and qs: "\<And>t b. queue_ok t b ?ts"
    using ok by (auto simp: ledger_ok_alt)
  from run obtain d1 order0 k d2 d3 d4 where
    rel: "release_previous_assignment env m i (Some rw) d = Inr d1"
    and q: "queue_order ?team ?a d1 = Inr order0"
    and k: "placement_index env (filter (\<lambda>j. j \<noteq> i) order0) i (case pl of Some p \<Rightarrow> p | None \<Rightarrow> MoveEnd)
       ?team ?a d1 = Inr k"
    and order: "order = insert_at k i (filter (\<lambda>j. j \<noteq> i) order0)"
    and row: "apply_task_assignment_row env m i (Some rw) (length order) mid at Assigned d1 = Inr d2"
    and prev: "renumber_previous_assignment env m (Some rw) d2 = Inr d3"
    and ren: "renumber_queue env ?team ?a order d3 = Inr d4"
    and fin: "db_tasks d' = db_tasks d4" by (rule persist_task_assignment_Inr)
  obtain r where r: "r \<in> set ?ts" "tc_team r = ?team" "tc_task_id r = i" "?who = tc_assignee r"
    "TaskState_as_str (tr_state rw) = tc_state r"
    using load_task_row_Some[OF load names] by metis
  have ro: "is_task ?team i r" "row_open r"
    using r opn as_str_open by (auto simp: is_task_def row_open_def)
  have only: "x = r" if "x \<in> set ?ts" "is_task ?team i x" for x
    using tasks_ok_key_inj[OF tok that(1) r(1)] that(2) r(2,3) by (simp add: is_task_def task_key_def)
  note rs = release_spec[OF ok r(1) ro(1) r(4)[symmetric] ro(2) opn rel]
  have states1: "state_of (db_tasks d1) ?team j = state_of ?ts ?team j" for j
    using released_states[OF tok rs(1,3,4)] by blast
  have qa: "qrows ?team ?a (db_tasks d1) = qrows ?team ?a ?ts" by (rule rs(5)) (use other in simp)
  have names1: "list_all names_ok (db_tasks d1)" by (rule rs(2))
  have present: "Some rw = None \<longleftrightarrow> (\<forall>x\<in>set (db_tasks d1). \<not> is_task ?team i x)"
  proof -
    obtain q where "r\<lparr>tc_position := q\<rparr> \<in> set (db_tasks d1)" using rs(4)[OF r(1)] by blast
    moreover have "is_task ?team i (r\<lparr>tc_position := q\<rparr>)" using ro(1) by simp
    ultimately show ?thesis by blast
  qed
  note w = assignment_row_written[OF row rs(1) present]
  let ?new = "assignment_row m i (length order) mid at Assigned"
  have names2: "list_all names_ok (db_tasks d2)"
    using names1 names_ok_assignment_row[OF m] w(2) by (auto simp: list_all_iff)
  have new: "is_task ?team i ?new" "tc_state ?new = ''assigned''"
    by (simp_all add: is_task_def TaskState_as_str_def)
  have states2: "state_of (db_tasks d2) ?team j = (if j = i then ''assigned'' else state_of ?ts ?team j)" for j
    using state_of_replaced[OF rs(1) w(1,2) new(1)] new(2) states1 by simp
  have old_queue: "queue_ids ?team ?who (db_tasks d2) = ?old"
    by (rule released_queue[OF ok rs(1,3,4,6) w(1,2) r(1) ro(1) r(4)[symmetric] other])
  obtain order' where prev': "queue_order ?team ?who d2 = Inr order'"
    "renumber_queue env ?team ?who order' d2 = Inr d3"
    using prev opn by (auto simp: renumber_previous_assignment_def bindE_eq_Inr_iff)
  have order': "order' = ?old" using prev'(1) queue_order_ok[OF names2] old_queue by simp
  have ids2: "set ?old = member_ids (db_tasks d2) ?team ?who" using set_queue_ids old_queue by metis
  have dist2: "distinct ?old" by (simp add: distinct_queue_ids[OF tok])
  have eq2: "map (state_of (db_tasks d2) ?team) ?old = map (state_of ?ts ?team) ?old" by (simp add: states2)
  have lead2: "sorted_wrt lead_order (map (state_of (db_tasks d2) ?team) ?old)"
    unfolding eq2 by (rule lead_without[OF tok qs])
  note p = renumber_member[OF w(1) dist2 ids2 lead2 prev'(2)[unfolded order']]
  have others: "queue_ok t b (db_tasks d3)" if tb: "(t, b) \<noteq> (?team, ?a)" for t b
  proof (cases "(t, b) = (?team, ?who)")
    case True
    then show ?thesis using p(2) by simp
  next
    case False
    have "filter (\<lambda>x. \<not> is_task ?team i x) (qrows t b ?ts) = qrows t b ?ts"
      by (rule filter_True) (use only False r(2,4) in \<open>auto simp: member_open_def\<close>)
    then have "qrows t b (db_tasks d3) = qrows t b ?ts" using p(4)[OF False] w(3)[OF tb] rs(5)[OF False] by simp
    then show ?thesis using qs[of t b] queue_ok_cong by metis
  qed
  have na: "(?team, ?a) \<noteq> (?team, ?who)" "(?team, ?who) \<noteq> (?team, ?a)" using other by simp_all
  have q1: "queue_ok ?team ?a (db_tasks d1)" using qs[of ?team ?a] queue_ok_cong[OF qa] by simp
  have ids1: "queue_ids ?team ?a (db_tasks d1) = queue_ids ?team ?a ?ts" by (simp add: queue_ids_def qa)
  have order0: "order0 = queue_ids ?team ?a (db_tasks d1)" using q queue_order_ok[OF names1] by simp
  note f = assign_finish[OF rs(1) names1 q1 k[unfolded order0] w(2) new(1) assigned_member_open new(2) w(1)
      p(1) p(5)[THEN iffD2, OF names2] others p(4)[OF na(1)] p(6) ren[unfolded order order0]]
  show "ledger_ok (db_tasks d')" unfolding fin by (rule f(1))
  show "queue_ids ?team ?a (db_tasks d') = order" unfolding fin order order0 by (rule f(2))
  show "state_of (db_tasks d') ?team j = (if j = i then ''assigned'' else state_of ?ts ?team j)"
    using f(3) states1 by (simp add: fin)
  have notin: "i \<notin> set (queue_ids ?team ?a ?ts)"
    unfolding set_queue_ids member_ids_def using only r(4) other by (auto simp: is_task_def member_open_def)
  then have "filter (\<lambda>j. j \<noteq> i) (queue_ids ?team ?a ?ts) = queue_ids ?team ?a ?ts"
    by (intro filter_True) auto
  then show "filter (\<lambda>j. j \<noteq> i) order = queue_ids ?team ?a ?ts"
    unfolding order order0 ids1 using filter_insert_at[OF notin, of k] by simp
  show "i \<in> set order" by (simp add: order)
  have "qrows ?team ?who (db_tasks d4) = qrows ?team ?who (db_tasks d3)"
    by (rule f(4)[OF _ na(2)])
  then show "queue_ids ?team ?who (db_tasks d') = ?old"
    using p(3) by (simp add: fin queue_ids_def)
qed

end
