(* ===== verification/Event_Log.thy ===== *)
theory Event_Log
  imports Ledger
begin

text \<open>
  The event log of a task: the events of every task are numbered \<open>1, 2, ...\<close> in the order
  they were appended, every stored event decodes, and the row an append returns is the
  row a later read decodes.
\<close>

section \<open>The invariant\<close>

definition task_seqs :: "TeamName \<Rightarrow> TaskId \<Rightarrow> EventCols list \<Rightarrow> nat list" where
  "task_seqs team i es = map ec_seq (filter (\<lambda>e. ec_team e = team \<and> ec_task_id e = i) es)"

definition decodable :: "EventCols \<Rightarrow> bool" where
  "decodable e \<longleftrightarrow> (case decode_event_row e of Inr _ \<Rightarrow> True | Inl _ \<Rightarrow> False)"

definition events_ok :: "EventCols list \<Rightarrow> bool" where
  "events_ok es \<longleftrightarrow> (\<forall>team i. task_seqs team i es = [1..<Suc (length (task_seqs team i es))])
     \<and> list_all decodable es"

text \<open>What the types of a draft guarantee.\<close>

definition draft_ok :: "TaskEventDraft \<Rightarrow> bool" where
  "draft_ok dr \<longleftrightarrow> valid_segment (dr_team dr) \<and> valid_task_id (dr_task_id dr)
     \<and> valid_segment (dr_assignee dr) \<and> valid_segment (dr_actor dr)"

section \<open>Columns decode to what they were written from\<close>

lemma transposeE_simps [simp]:
  "transposeE f None = Inr None" "transposeE f (Some x) = mapE Some (f x)"
  by (simp_all add: transposeE_def)

lemma parse_event_as_str [simp]: "parse_event (TaskEventKind_as_str k) = Inr k"
  by (cases k) (simp_all add: parse_event_def TaskEventKind_as_str_def)

lemma parse_outcome_as_str [simp]: "parse_outcome (ReminderOutcome_as_str x) = Inr x"
  by (cases x) (simp_all add: parse_outcome_def ReminderOutcome_as_str_def)

lemma parse_marker_as_str [simp]: "parse_marker (TaskEventMarker_as_str x) = Inr x"
  by (cases x) (simp_all add: parse_marker_def TaskEventMarker_as_str_def)

lemma parse_close_outcome_as_str [simp]: "parse_close_outcome (TaskCloseOutcome_as_str x) = Inr x"
  by (cases x) (simp_all add: parse_close_outcome_def TaskCloseOutcome_as_str_def)

lemma transpose_as_str:
  "(\<And>x. parse (str x) = Inr x) \<Longrightarrow> transposeE parse (map_option str v) = Inr v"
  by (cases v) simp_all

lemma event_state_column:
  assumes "task_event_state tag co = Inr st"
  shows "transposeE (event_column_state (map_option TaskCloseOutcome_as_str co))
           (map_option task_state_tag_name tag) = Inr st"
proof (cases tag)
  case None
  then show ?thesis using assms by (simp add: task_event_state_def)
next
  case (Some t)
  show ?thesis
  proof (cases t)
    case TagComplete
    then obtain x where "co = Some x"
      using assms Some by (cases co) (simp_all add: task_event_state_def from_parts_def mapE_def)
    then show ?thesis using assms Some TagComplete
      by (simp add: task_event_state_def from_parts_def event_column_state_def parse_state_def
          task_state_tag_name_def)
  qed (use assms Some in \<open>simp_all add: task_event_state_def from_parts_def event_column_state_def
      parse_state_def task_state_tag_name_def\<close>)
qed

lemma sql_parse_valid [simp]:
  "valid_segment s \<Longrightarrow> sql_parse TeamName_from_str s w = Inr s"
  "valid_segment s \<Longrightarrow> sql_parse AgentName_from_str s w = Inr s"
  "valid_task_id s \<Longrightarrow> sql_parse TaskId_from_str s w = Inr s"
  by (simp_all add: sql_parse_def team_name.parse_complete agent_name.parse_complete task_id.parse_complete)

section \<open>Appending\<close>

text \<open>Reading the appended columns gives the row the append returned.\<close>

lemma append_decodes:
  assumes "append_task_event env dr d = Inr (d', row)" "draft_ok dr"
  obtains cols where "db_task_events d' = db_task_events d @ [cols]" "decode_event_row cols = Inr row"
    "ec_team cols = dr_team dr" "ec_task_id cols = dr_task_id dr"
    "ec_seq cols = next_event_seq (dr_team dr) (dr_task_id dr) d"
proof -
  from assms(1) obtain fs ts events where fs: "task_event_state (dr_from_state dr) (dr_close_outcome dr) = Inr fs"
    and ts: "task_event_state (dr_to_state dr) (dr_close_outcome dr) = Inr ts"
    and ins: "insert_row task_events_bad
      \<lparr>ec_team = dr_team dr, ec_task_id = dr_task_id dr,
           ec_assignee = dr_assignee dr, ec_seq = next_event_seq (dr_team dr) (dr_task_id dr) d,
           ec_at = dr_at dr, ec_event = TaskEventKind_as_str (dr_event dr),
           ec_from_state = map_option task_state_tag_name (dr_from_state dr),
           ec_to_state = map_option task_state_tag_name (dr_to_state dr),
           ec_close_outcome = map_option TaskCloseOutcome_as_str (dr_close_outcome dr),
           ec_actor = dr_actor dr, ec_message_id = dr_message_id dr,
           ec_outcome = map_option ReminderOutcome_as_str (dr_outcome dr),
           ec_marker = map_option TaskEventMarker_as_str (dr_marker dr),
           ec_detail = dr_detail dr\<rparr> (db_task_events d) = Inr events" (is "insert_row _ ?cols _ = _")
    and d': "d' = d\<lparr>db_task_events := events\<rparr>"
    and row: "row = \<lparr>te_team = dr_team dr, te_task_id = dr_task_id dr,
           te_assignee = dr_assignee dr, te_seq = next_event_seq (dr_team dr) (dr_task_id dr) d,
           te_at = dr_at dr, te_event = dr_event dr, te_from_state = fs, te_to_state = ts,
           te_actor = task_actor_of (dr_actor dr), te_message_id = dr_message_id dr,
           te_outcome = dr_outcome dr, te_marker = dr_marker dr, te_detail = dr_detail dr\<rparr>"
    by (auto simp: append_task_event_def Let_def bindE_eq_Inr_iff map_err_def split: sum.splits)
  have "decode_event_row ?cols = Inr row"
    using assms(2) event_state_column[OF fs] event_state_column[OF ts]
    by (simp add: decode_event_row_def draft_ok_def row task_actor_of_def transpose_as_str)
  then show thesis using that[of ?cols] insert_row_Inr[OF ins] d' by simp
qed

lemma next_event_seq_ok:
  assumes "events_ok (db_task_events d)"
  shows "next_event_seq team i d = Suc (length (task_seqs team i (db_task_events d)))"
proof -
  let ?s = "task_seqs team i (db_task_events d)"
  have seqs: "map ec_seq (task_event_rows team i d) = ?s" by (simp add: task_event_rows_def task_seqs_def)
  have s: "?s = [1..<Suc (length ?s)]" using assms by (simp add: events_ok_def)
  have fold: "foldl max (k :: nat) [Suc k..<Suc n] = n" if "k \<le> n" for k n
    using that by (induction n) (auto simp: le_Suc_eq max_def)
  show ?thesis
  proof (cases "length ?s")
    case 0
    then show ?thesis using seqs by (simp add: next_event_seq_def)
  next
    case (Suc n)
    then have "?s = 1 # [Suc 1..<Suc (Suc n)]" using s by (metis One_nat_def upt_conv_Cons Suc_less_eq zero_less_Suc)
    then show ?thesis using seqs fold[of 1 "Suc n"] Suc by (simp add: next_event_seq_def del: upt_Suc)
  qed
qed

lemma events_ok_snoc:
  assumes ok: "events_ok (db_task_events d)" and dec: "decodable cols"
    and seq: "ec_seq cols = next_event_seq (ec_team cols) (ec_task_id cols) d"
  shows "events_ok (db_task_events d @ [cols])"
proof -
  have "task_seqs team i (db_task_events d @ [cols])
      = [1..<Suc (length (task_seqs team i (db_task_events d @ [cols])))]" for team i
  proof -
    let ?s = "task_seqs team i (db_task_events d)"
    have s: "?s = [1..<Suc (length ?s)]" using ok by (simp add: events_ok_def)
    show ?thesis
    proof (cases "ec_team cols = team \<and> ec_task_id cols = i")
      case True
      then have eq: "task_seqs team i (db_task_events d @ [cols]) = ?s @ [Suc (length ?s)]"
        using seq next_event_seq_ok[OF ok, of team i] by (simp add: task_seqs_def)
      also have "\<dots> = [1..<Suc (Suc (length ?s))]" using s by (metis One_nat_def upt_Suc_append le_add1 plus_1_eq_Suc)
      finally show ?thesis using eq by (metis length_append_singleton)
    next
      case False
      then have "task_seqs team i (db_task_events d @ [cols]) = ?s" by (auto simp: task_seqs_def)
      then show ?thesis using s by simp
    qed
  qed
  then show ?thesis using ok dec by (simp add: events_ok_def)
qed

lemma append_events_ok:
  assumes run: "append_task_event env dr d = Inr (d', row)" and dr: "draft_ok dr"
    and ok: "events_ok (db_task_events d)"
  shows "events_ok (db_task_events d')"
proof -
  obtain cols where c: "db_task_events d' = db_task_events d @ [cols]" "decode_event_row cols = Inr row"
    "ec_team cols = dr_team dr" "ec_task_id cols = dr_task_id dr"
    "ec_seq cols = next_event_seq (dr_team dr) (dr_task_id dr) d"
    by (rule append_decodes[OF run dr])
  then show ?thesis using events_ok_snoc[OF ok, of cols] by (simp add: decodable_def)
qed

text \<open>An append to a log in order never collides with a stored sequence number.\<close>

lemma append_fresh:
  assumes "events_ok (db_task_events d)" "e \<in> set (db_task_events d)" "ec_team e = team" "ec_task_id e = i"
  shows "ec_seq e < next_event_seq team i d"
proof -
  have "ec_seq e \<in> set (task_seqs team i (db_task_events d))" using assms(2-4) by (auto simp: task_seqs_def)
  moreover have "task_seqs team i (db_task_events d) = [1..<Suc (length (task_seqs team i (db_task_events d)))]"
    using assms(1) by (simp add: events_ok_def)
  ultimately have "ec_seq e \<in> set [1..<Suc (length (task_seqs team i (db_task_events d)))]" by metis
  then show ?thesis unfolding next_event_seq_ok[OF assms(1)] set_upt by simp
qed

end
