(* ===== verification/Writer_Invariant.thy ===== *)
theory Writer_Invariant
  imports Assignment_Invariant Event_Log
begin

text \<open>
  The invariant of the whole store and its preservation by every write operation: the task
  ledger is in order, the event logs are numbered and decode, and every stored message
  has valid names, columns that repeat its envelope, and an id and a parent of its own in the mailbox.
\<close>

section \<open>The invariant of the store\<close>

definition stored_message :: "MailCols \<Rightarrow> Message" where
  "stored_message c = \<lparr>msg_team = mc_team c, msg_agent = mc_agent c, msg_message_key = mc_message_key c,
     msg_envelope = decode_envelope (mc_envelope_json c)\<rparr>"

text \<open>The columns a query filters on repeat fields of the stored envelope.\<close>

definition columns_ok :: "MailCols \<Rightarrow> bool" where
  "columns_ok c \<longleftrightarrow>
     (let e = mc_envelope_json c in
      mc_from_agent c = se_from e \<and> mc_message_at c = se_timestamp e \<and> mc_message_id c = se_message_id e
      \<and> mc_parent_message_id c = se_parent_message_id e \<and> mc_message_text c = Some (se_text e)
      \<and> mc_summary c = se_summary e)"

definition mail_ok :: "MailCols list \<Rightarrow> bool" where
  "mail_ok ms \<longleftrightarrow> list_all (\<lambda>c. valid_message (stored_message c) \<and> columns_ok c) ms
     \<and> table_ok mail_check mail_clash ms"

text \<open>The row a mailbox has for a message is the row that was made of it.\<close>

definition holds_message :: "Message \<Rightarrow> db \<Rightarrow> bool" where
  "holds_message m d \<longleftrightarrow>
     list_all (\<lambda>c. same_mail (msg_team m) (msg_agent m) (msg_message_key m) c
         \<longrightarrow> columns_ok (c\<lparr>mc_envelope_json := StorageEnvelope_new (msg_envelope m)\<rparr>)) (db_mail_messages d)"

definition store_ok :: "db \<Rightarrow> bool" where
  "store_ok d \<longleftrightarrow> ledger_ok (db_tasks d) \<and> events_ok (db_task_events d) \<and> mail_ok (db_mail_messages d)"

text \<open>What the types of an operation guarantee of the names it carries.\<close>

definition op_ok :: "WriteOp \<Rightarrow> bool" where
  "op_ok op \<longleftrightarrow>
     (case op of
        UpsertMessage m _ \<Rightarrow> valid_message m
      | UpsertMessages ms \<Rightarrow> list_all valid_message ms
      | Acknowledge src build _ \<Rightarrow>
          \<forall>m r. valid_message m \<longrightarrow> build m = Inr r \<longrightarrow> valid_message r
      | TaskMove team i actor _ _ _ \<Rightarrow> valid_segment team \<and> valid_task_id i \<and> valid_segment actor
      | _ \<Rightarrow> True)"

section \<open>Mailbox writes\<close>

lemma valid_message_display [simp]:
  "valid_message (m\<lparr>msg_envelope := (msg_envelope m)\<lparr>me_read := a, me_pending_ack_at := b, me_acknowledged_at := c\<rparr>\<rparr>)
     = valid_message m"
  by (simp add: valid_message_def)

lemma valid_decode: "valid_message (stored_message (c\<lparr>mc_envelope_json := StorageEnvelope_new e\<rparr>)) \<longleftrightarrow>
    valid_segment (mc_team c) \<and> valid_segment (mc_agent c) \<and> valid_segment (me_from e)
      \<and> pred_option valid_task_id (me_task_id e)"
  by (simp add: valid_message_def stored_message_def decode_StorageEnvelope_new)

lemma prepared_columns:
  "prepare_message_insert_values env m = Inr v \<Longrightarrow> columns_ok (v\<lparr>mc_envelope_json := StorageEnvelope_new (msg_envelope m)\<rparr>)
     \<and> columns_ok v"
  by (auto simp: prepare_message_insert_values_def Let_def bindE_eq_Inr_iff columns_ok_def StorageEnvelope_new_def)

lemma insert_canonical_frame:
  assumes "insert_message_canonical env m d = Inr (d', inserted)"
  shows "db_tasks d' = db_tasks d" "db_task_events d' = db_task_events d"
    "valid_message m \<Longrightarrow> mail_ok (db_mail_messages d) \<Longrightarrow> mail_ok (db_mail_messages d')"
    "inserted \<Longrightarrow> holds_message m d'"
proof -
  from assms obtain v d1 where v: "prepare_message_insert_values env m = Inr v"
    and row: "insert_message_row v d = Inr (d1, inserted)"
    and fin: "d' = insert_initial_message_state env m
        (if inserted then sync_inserted_message_projection v d1 else d1)"
    by (auto simp: insert_message_canonical_def bindE_eq_Inr_iff Let_def)
  obtain st where d': "d' = (if inserted then sync_inserted_message_projection v d1 else d1)\<lparr>db_mail_states := st\<rparr>"
    using fin insert_initial_message_state_frame by blast
  have d1: "\<not> inserted \<and> d1 = d \<or> inserted \<and> d1 = d\<lparr>db_mail_messages := db_mail_messages d @ [v]\<rparr>
      \<and> insert_row mail_bad v (db_mail_messages d) = Inr (db_mail_messages d @ [v])
      \<and> \<not> list_ex (same_mail (mc_team v) (mc_agent v) (mc_message_key v)) (db_mail_messages d)"
    using row by (auto simp: insert_message_row_def bindE_eq_Inr_iff dest: insert_row_Inr split: if_splits)
  then show "db_tasks d' = db_tasks d" "db_task_events d' = db_task_events d"
    by (auto simp: d' sync_inserted_message_projection_def Let_def)
  show "holds_message m d'" if inserted
    using that d1 prepare_values_key[OF v] prepared_columns[OF v]
    by (auto simp: d' sync_inserted_message_projection_def Let_def holds_message_def list_all_iff list_ex_iff)
  assume m: "valid_message m" "mail_ok (db_mail_messages d)"
  have "valid_message (stored_message v)"
    using m(1) prepare_values_key[OF v]
    by (simp add: valid_message_def stored_message_def decode_StorageEnvelope_new)
  then show "mail_ok (db_mail_messages d')"
    using m(2) d1 prepared_columns[OF v] mailboxes.insert_table[of v "db_mail_messages d"]
    by (auto simp: d' sync_inserted_message_projection_def Let_def mail_ok_def)
qed

lemma load_existing_valid:
  assumes "load_existing_message req d = Inr m" "mail_ok (db_mail_messages d)"
  shows "valid_message m"
proof -
  obtain c where c: "find_mail (msg_team req) (msg_agent req) (msg_message_key req) d = Some c"
    using assms(1)
    by (cases "find_mail (msg_team req) (msg_agent req) (msg_message_key req) d")
       (simp_all add: load_existing_message_def)
  then have "valid_message (stored_message c)"
    using assms(2) by (auto simp: find_mail_def find_Some_iff mail_ok_def list_all_iff)
  then show ?thesis
    using assms(1) c team_name.parse_complete agent_name.parse_complete
    by (auto simp: load_existing_message_def Let_def valid_message_def stored_message_def)
qed

lemma drop_link_mail_ok:
  assumes "valid_message m" "holds_message m d" "mail_ok (db_mail_messages d)"
  shows "mail_ok (db_mail_messages (drop_task_link_from_mail m d))"
proof -
  let ?e = "StorageEnvelope_new ((msg_envelope m)
      \<lparr>me_task_id := None, me_task_op := None, me_task_complete := None, me_placement := None\<rparr>)"
  let ?f = "\<lambda>c. if same_mail (msg_team m) (msg_agent m) (msg_message_key m) c then c\<lparr>mc_envelope_json := ?e\<rparr> else c"
  have rows: "db_mail_messages (drop_task_link_from_mail m d) = map ?f (db_mail_messages d)"
    by (simp add: drop_task_link_from_mail_def Let_def)
  have "valid_message (stored_message (?f c))" if "c \<in> set (db_mail_messages d)" for c
    using assms(1,3) that by (auto simp: mail_ok_def list_all_iff valid_decode)
      (auto simp: valid_message_def stored_message_def same_mail_def)
  moreover have "columns_ok (?f c)" if "c \<in> set (db_mail_messages d)" for c
    using assms(2,3) that
    by (auto simp: mail_ok_def holds_message_def list_all_iff columns_ok_def StorageEnvelope_new_def Let_def)
  moreover have "table_ok mail_check mail_clash (map ?f (db_mail_messages d))"
    using assms(3) by (subst mailboxes.table_map) (auto simp: mail_ok_def mail_check_def mail_clash_def)
  ultimately show ?thesis unfolding rows mail_ok_def list.pred_map by (simp add: list_all_iff comp_def del: if_image_distrib)
qed

lemma drop_link_frame [simp]:
  "db_tasks (drop_task_link_from_mail m d) = db_tasks d"
  "db_task_events (drop_task_link_from_mail m d) = db_task_events d"
  by (simp_all add: drop_task_link_from_mail_def Let_def)

lemma set_map_filter_iff: "x \<in> set (List.map_filter f xs) \<longleftrightarrow> (\<exists>y\<in>set xs. f y = Some x)"
  by (induction xs) (auto simp: List.map_filter_simps split: option.splits)

lemma pending_source_valid:
  assumes "load_pending_ack_source env src d = Inr m" "mail_ok (db_mail_messages d)"
  shows "valid_message m"
proof -
  from assms(1) obtain c s where cs: "load_acknowledgement_source_row env src d = Inr (c, s)"
    and m: "decode_pending_acknowledgement_source env src (c, s) = Inr m"
    by (auto simp: load_pending_ack_source_def bindE_eq_Inr_iff)
  have "(c, s) \<in> set (List.map_filter (\<lambda>m.
            if mc_team m = as_team src \<and> mc_agent m = as_agent src
               \<and> mc_message_id m = Some (as_message_id src)
            then (case find_state (mc_team m) (mc_agent m) (mc_message_key m) d of
                    Some s \<Rightarrow> if sc_deleted_at s = None then Some (m, s) else None
                  | None \<Rightarrow> None)
            else None) (db_mail_messages d))"
    using cs unfolding load_acknowledgement_source_row_def Let_def
    by (auto simp del: append_Cons split: list.splits)
  then obtain y where y: "y \<in> set (db_mail_messages d)"
    and f: "(if mc_team y = as_team src \<and> mc_agent y = as_agent src
               \<and> mc_message_id y = Some (as_message_id src)
            then (case find_state (mc_team y) (mc_agent y) (mc_message_key y) d of
                    Some s \<Rightarrow> if sc_deleted_at s = None then Some (y, s) else None
                  | None \<Rightarrow> None)
            else None) = Some (c, s)"
    unfolding set_map_filter_iff by blast
  have "y = c \<and> mc_team y = as_team src \<and> mc_agent y = as_agent src"
    using f by (cases "find_state (mc_team y) (mc_agent y) (mc_message_key y) d")
      (simp_all split: if_split_asm)
  then have "c \<in> set (db_mail_messages d)" "mc_team c = as_team src" "mc_agent c = as_agent src"
    using y by auto
  then have "valid_message (stored_message c)" "mc_team c = as_team src" "mc_agent c = as_agent src"
    using assms(2) by (auto simp: mail_ok_def list_all_iff)
  then show ?thesis
    using m unfolding decode_pending_acknowledgement_source_def Let_def
    by (auto simp: bindE_eq_Inr_iff valid_message_def stored_message_def simp del: append_Cons split: if_splits)
qed

section \<open>Task steps keep the log in order\<close>

text \<open>The mailbox is untouched and a log in order stays in order.\<close>

definition log_step :: "db \<Rightarrow> db \<Rightarrow> bool" where
  "log_step d d' \<longleftrightarrow> db_mail_messages d' = db_mail_messages d
     \<and> (events_ok (db_task_events d) \<longrightarrow> events_ok (db_task_events d'))"

lemma log_step_refl [simp]: "log_step d d"
  by (simp add: log_step_def)

lemma log_step_trans [trans]: "log_step d1 d2 \<Longrightarrow> log_step d2 d3 \<Longrightarrow> log_step d1 d3"
  by (simp add: log_step_def)

lemma log_step_tasks: "\<exists>ts. d' = d\<lparr>db_tasks := ts\<rparr> \<Longrightarrow> log_step d d'"
  by (auto simp: log_step_def)

lemma log_step_states: "\<exists>st. d' = d\<lparr>db_mail_states := st\<rparr> \<Longrightarrow> log_step d d'"
  by (auto simp: log_step_def)

lemma log_step_append:
  "append_task_event env dr d = Inr (d', row) \<Longrightarrow> draft_ok dr \<Longrightarrow> log_step d d'"
  using append_events_ok append_task_event_frame(3) unfolding log_step_def by blast

lemmas log_step_update = log_step_tasks[OF run_update_frame]
lemmas log_step_renumber = log_step_tasks[OF renumber_queue_frame]

lemma loaded_row_valid:
  assumes "load_task_row env team i d = Inr (Some row)" "ledger_ok (db_tasks d)"
  shows "valid_segment (tr_assignee row)" "valid_segment (tr_assigner row)" "valid_segment team"
    "valid_task_id i"
proof -
  have "list_all names_ok (db_tasks d)" using assms(2) by (simp add: ledger_ok_def)
  then obtain r where "names_ok r" "tr_assignee row = tc_assignee r" "tr_assigner row = tc_assigner r"
    "tc_team r = team" "tc_task_id r = i"
    by (rule load_task_row_Some[OF assms(1)]) blast
  then show "valid_segment (tr_assignee row)" "valid_segment (tr_assigner row)" "valid_segment team"
    "valid_task_id i" by (auto simp: names_ok_def)
qed

lemma start_log:
  assumes run: "apply_task_start env record i d = Inr (d', who, event)"
    and ok: "ledger_ok (db_tasks d)"
  shows "log_step d d'"
proof -
  from run obtain row st order d1 d2 where row: "load_startable_task env record i d = Inr row"
    and upd: "run_update env ''failed to start task'' (is_task (msg_team record) i)
       (\<lambda>r. r\<lparr>tc_state := TaskState_as_str st, tc_lead_notified_count := 0,
              tc_updated_at := me_timestamp (msg_envelope record)\<rparr>) d = Inr d1"
    and ren: "renumber_queue env (msg_team record) (tr_assignee row) order d1 = Inr d2"
    and ev: "append_task_event env
               \<lparr>dr_team = msg_team record, dr_task_id = i, dr_assignee = tr_assignee row,
                dr_at = me_timestamp (msg_envelope record), dr_event = KStarted,
                dr_from_state = Some (TaskState_tag (tr_state row)),
                dr_to_state = Some (TaskState_tag st), dr_close_outcome = None,
                dr_actor = me_from (msg_envelope record),
                dr_message_id = me_message_id (msg_envelope record), dr_outcome = None,
                dr_marker = None, dr_detail = None\<rparr> d2 = Inr (d', event)"
    by (auto simp: apply_task_start_def Let_def bindE_eq_Inr_iff split: if_splits)
  note s = load_startable_task_Inr[OF row]
  show ?thesis
    by (rule log_step_trans[OF log_step_trans[OF log_step_update[OF upd] log_step_renumber[OF ren]]
          log_step_append[OF ev]])
       (use loaded_row_valid[OF s(1) ok] s(3) in \<open>simp add: draft_ok_def\<close>)
qed

lemma moved_draft_ok [simp]:
  "draft_ok (moved_draft team i actor at row st detail) \<longleftrightarrow>
     valid_segment team \<and> valid_task_id i \<and> valid_segment (tr_assignee row) \<and> valid_segment actor"
  by (auto simp: draft_ok_def moved_draft_def)

lemma queued_move_log:
  assumes run: "apply_queued_task_move env team i actor tgt at row st d = Inr (d', rec)"
    and v: "valid_segment team" "valid_task_id i" "valid_segment (tr_assignee row)" "valid_segment actor"
  shows "log_step d d'"
proof -
  from run obtain order d1 detail ev where
    ren: "renumber_queue env team (tr_assignee row) order d = Inr d1"
    and ev: "append_task_event env (moved_draft team i actor at row st detail) d1 = Inr (d', ev)"
    unfolding apply_queued_task_move_def by (auto simp: bindE_eq_Inr_iff split: option.splits)
  show ?thesis using log_step_trans[OF log_step_renumber[OF ren] log_step_append[OF ev]] v by simp
qed

lemma move_log:
  assumes run: "apply_task_move env team i actor tgt at d = Inr (d', rec)"
    and ok: "ledger_ok (db_tasks d)" and actor: "valid_segment actor"
  shows "log_step d d'"
  using run
proof (cases rule: apply_task_move_cases)
  case (started row)
  then obtain st pos ev where
      "append_active_task_move env team i actor at row st pos d = Inr (d', ev)"
    using run unfolding apply_task_move_def started(1) liftE_simps bindE_simps option.case
    by (auto simp: bindE_eq_Inr_iff simp del: append_Cons)
  then show ?thesis using loaded_row_valid[OF started(1) ok] actor
    by (auto simp: append_active_task_move_def intro: log_step_append)
next
  case (queued row)
  then show ?thesis using queued_move_log loaded_row_valid[OF queued(1) ok] actor by blast
qed

lemma loaded_option_valid:
  assumes "load_task_row env team i d = Inr row" "ledger_ok (db_tasks d)"
  shows "pred_option (\<lambda>r. valid_segment (tr_assignee r)) row"
  using assms loaded_row_valid(1) by (cases row) auto

lemma release_frame:
  assumes "release_previous_assignment env m i row d = Inr d'"
  shows "\<exists>ts. d' = d\<lparr>db_tasks := ts\<rparr>"
proof (cases "\<exists>r. row = Some r \<and> is_open (tr_state r)")
  case True
  with assms obtain order d1 what P f where "run_update env what P f d = Inr d1"
    "write_queue_positions env (msg_team m) order d1 = Inr d'"
    by (auto simp: release_previous_assignment_def bindE_eq_Inr_iff Let_def simp del: append_Cons)
  then show ?thesis using run_update_frame write_queue_go_frame
    by (fastforce simp: write_queue_positions_def)
next
  case False
  then show ?thesis using assms
    by (cases row) (auto simp: release_previous_assignment_def intro: exI[of _ "db_tasks d"])
qed

lemma assignment_row_frame:
  "apply_task_assignment_row env m i row p mid at st d = Inr d' \<Longrightarrow> \<exists>ts. d' = d\<lparr>db_tasks := ts\<rparr>"
  by (cases row) (auto simp: apply_task_assignment_row_def Let_def bindE_eq_Inr_iff
      simp del: append_Cons dest: run_update_frame)

lemma renumber_previous_frame:
  assumes "renumber_previous_assignment env m row d = Inr d'"
  shows "\<exists>ts. d' = d\<lparr>db_tasks := ts\<rparr>"
proof (cases "\<exists>r. row = Some r \<and> is_open (tr_state r)")
  case True
  with assms obtain a order where "renumber_queue env (msg_team m) a order d = Inr d'"
    by (auto simp: renumber_previous_assignment_def bindE_eq_Inr_iff)
  then show ?thesis by (rule renumber_queue_frame)
next
  case False
  then show ?thesis using assms
    by (cases row) (auto simp: renumber_previous_assignment_def intro: exI[of _ "db_tasks d"])
qed

lemma assignment_event_log:
  assumes "append_assignment_event env m i row c mid at st d = Inr (d', ev)" "valid_message m"
    "valid_task_id i"
  shows "log_step d d'"
  using assms
  by (auto simp: append_assignment_event_def draft_ok_def valid_message_def intro!: log_step_append)

lemma placement_event_log:
  assumes "append_placement_event env m i pl row mid at st n d = Inr (d', evs)" "valid_message m"
    "valid_task_id i"
  shows "log_step d d'"
  using assms
  by (cases pl)
     (auto simp: append_placement_event_def bindE_eq_Inr_iff draft_ok_def valid_message_def
       simp del: append_Cons intro!: log_step_append)

lemma persist_assignment_log:
  assumes run: "persist_task_assignment env m i pl row mid at st d = Inr (d', order, evs)"
    and m: "valid_message m" "valid_task_id i"
  shows "log_step d d'"
proof -
  from run obtain d1 d2 d3 d4 d5 c n p mvd ev where
    rel: "release_previous_assignment env m i row d = Inr d1"
    and asg: "apply_task_assignment_row env m i row n mid at st d1 = Inr d2"
    and prev: "renumber_previous_assignment env m row d2 = Inr d3"
    and ren: "renumber_queue env (msg_team m) (msg_agent m) order d3 = Inr d4"
    and ev: "append_assignment_event env m i row c mid at st d4 = Inr (d5, ev)"
    and mvd: "append_placement_event env m i pl row mid at st p d5 = Inr (d', mvd)"
    by (auto simp: persist_task_assignment_def Let_def bindE_eq_Inr_iff simp del: append_Cons split: if_splits)
  have "log_step d d1" by (rule log_step_tasks[OF release_frame[OF rel]])
  also have "log_step d1 d2" by (rule log_step_tasks[OF assignment_row_frame[OF asg]])
  also have "log_step d2 d3" by (rule log_step_tasks[OF renumber_previous_frame[OF prev]])
  also have "log_step d3 d4" by (rule log_step_renumber[OF ren])
  also have "log_step d4 d5" by (rule assignment_event_log[OF ev m])
  also have "log_step d5 d'" by (rule placement_event_log[OF mvd m])
  finally show ?thesis .
qed

lemma persist_close_log:
  assumes run: "persist_task_close env (upsert_bounded env n) record i outcome reason row st d = Inr (d', event)"
    and m: "valid_message record" "valid_task_id i" "valid_segment (tr_assignee row)"
  shows "log_step d d'"
proof -
  from run obtain d1 d2 order d3 dr what P f where
    ack: "acknowledge_assignment (upsert_bounded env n) record row d = Inr d1"
    and upd: "run_update env what P f d1 = Inr d2"
    and ren: "renumber_queue env (msg_team record) (tr_assignee row) order d2 = Inr d3"
    and ev: "append_task_event env dr d3 = Inr (d', event)"
    and dr: "dr_team dr = msg_team record" "dr_task_id dr = i" "dr_assignee dr = tr_assignee row"
      "dr_actor dr = me_from (msg_envelope record)"
    by (auto simp: persist_task_close_def Let_def bindE_eq_Inr_iff simp del: append_Cons)
  have "log_step d d1"
    using acknowledge_assignment_frame[OF ack] m by (intro log_step_states) (simp add: valid_message_def)
  also have "log_step d1 d2" by (rule log_step_update[OF upd])
  also have "log_step d2 d3" by (rule log_step_renumber[OF ren])
  also have "log_step d3 d'"
    using m dr by (intro log_step_append[OF ev]) (simp add: draft_ok_def valid_message_def)
  finally show ?thesis .
qed

end
