(* ===== verification/Writer_Safety.thy ===== *)
theory Writer_Safety
  imports Writer_Invariant
begin

text \<open>
  Every write operation of the writer lane, the audit of a rejected one included, keeps the
  store invariant, and none of them panics or exceeds the admission bound on a store that
  satisfies it.
\<close>

section \<open>Assignment\<close>

lemma ledger_ok_map:
  assumes ok: "ledger_ok ts" and tok: "tasks_ok (map g ts)"
    and keep: "\<And>r. tc_team (g r) = tc_team r \<and> tc_task_id (g r) = tc_task_id r
      \<and> tc_assignee (g r) = tc_assignee r \<and> tc_assigner (g r) = tc_assigner r
      \<and> tc_state (g r) = tc_state r \<and> tc_position (g r) = tc_position r"
  shows "ledger_ok (map g ts)" "queue_ids team a (map g ts) = queue_ids team a ts"
proof -
  have q: "qrows t b (map g ts) = map g (qrows t b ts)" for t b
    by (rule qrows_map) (simp add: member_open_def row_open_def keep)
  have cols: "map tc_position (map g xs) = map tc_position xs" "map tc_state (map g xs) = map tc_state xs"
    "map tc_task_id (map g xs) = map tc_task_id xs" for xs
    by (simp_all add: keep)
  show "queue_ids team a (map g ts) = queue_ids team a ts" by (simp add: queue_ids_def q keep)
  have "list_all names_ok (map g ts)"
    using ok by (simp add: ledger_ok_def list_all_iff names_ok_def keep)
  then show "ledger_ok (map g ts)"
    using ok tok unfolding ledger_ok_def contiguous_def started_lead_def q cols length_map by blast
qed

lemma run_update_ledger:
  assumes run: "run_update env what P f d = Inr d'" and ok: "ledger_ok (db_tasks d)"
    and keep: "\<And>r. tc_team (f r) = tc_team r \<and> tc_task_id (f r) = tc_task_id r
      \<and> tc_assignee (f r) = tc_assignee r \<and> tc_assigner (f r) = tc_assigner r
      \<and> tc_state (f r) = tc_state r \<and> tc_position (f r) = tc_position r"
  shows "ledger_ok (db_tasks d')" "queue_ids team a (db_tasks d') = queue_ids team a (db_tasks d)"
proof -
  have tok: "tasks_ok (db_tasks d)" using ok by (simp add: ledger_ok_def)
  show "ledger_ok (db_tasks d')" "queue_ids team a (db_tasks d') = queue_ids team a (db_tasks d)"
    using ledger_ok_map[OF ok run_update_Inr(2)[OF run tok]] keep by (simp_all add: run_update_Inr(1)[OF run])
qed

lemma refresh_same_cases:
  assumes "refresh_same_assignment env record i row mid d = Inr refreshed"
  obtains (kept) r d1 p where "row = Some r" "is_open (tr_state r)" "tr_assignee r = msg_agent record"
      "refreshed = Some (d1, p)"
      "run_update env ''failed to refresh task assignment'' (is_task (msg_team record) i)
         (\<lambda>c. c\<lparr>tc_assignment_message_id := mid, tc_description := me_text (msg_envelope record),
                tc_updated_at := me_timestamp (msg_envelope record)\<rparr>) d = Inr d1"
  | (new) "refreshed = None" "row = None"
  | (closed) r where "refreshed = None" "row = Some r" "\<not> is_open (tr_state r)"
  | (other) r where "refreshed = None" "row = Some r" "is_open (tr_state r)" "tr_assignee r \<noteq> msg_agent record"
proof (cases row)
  case None
  then show thesis using assms new by (simp add: refresh_same_assignment_def)
next
  case (Some r)
  show thesis
  proof (cases "is_open (tr_state r) \<and> tr_assignee r = msg_agent record")
    case True
    with assms Some obtain d1 p where "refreshed = Some (d1, p)"
      "run_update env ''failed to refresh task assignment'' (is_task (msg_team record) i)
         (\<lambda>c. c\<lparr>tc_assignment_message_id := mid, tc_description := me_text (msg_envelope record),
                tc_updated_at := me_timestamp (msg_envelope record)\<rparr>) d = Inr d1"
      by (auto simp: refresh_same_assignment_def bindE_eq_Inr_iff simp del: append_Cons)
    then show thesis using kept Some True by blast
  next
    case False
    then have "refreshed = None" using assms Some unfolding refresh_same_assignment_def by auto
    then show thesis using closed other Some False by blast
  qed
qed

lemma transition_assigned:
  assumes "transition (map_option tr_state row) EvAssigned i actor (map_option tr_assignee row) who = Some (Inr st)"
    "\<And>r. row = Some r \<Longrightarrow> is_open (tr_state r) \<Longrightarrow> tr_assignee r \<noteq> who"
  shows "st = Assigned"
  using assms
  by (cases row) (auto simp: transition_def split: TaskState.splits if_splits)

lemma apply_task_assignment_cases:
  assumes "apply_task_assignment env record i pl d = Inr (d', applied)"
  obtains (refreshed) r mid where "load_task_row env (msg_team record) i d = Inr (Some r)"
      "is_open (tr_state r)" "tr_assignee r = msg_agent record" "ta_task_events applied = []"
      "ta_reassign_notice applied = None" "me_message_id (msg_envelope record) = Some mid"
      "run_update env ''failed to refresh task assignment'' (is_task (msg_team record) i)
         (\<lambda>c. c\<lparr>tc_assignment_message_id := mid, tc_description := me_text (msg_envelope record),
                tc_updated_at := me_timestamp (msg_envelope record)\<rparr>) d = Inr d'"
  | (placed) row mid order where "load_task_row env (msg_team record) i d = Inr row"
      "pred_option (\<lambda>r. \<not> is_open (tr_state r)) row" "me_message_id (msg_envelope record) = Some mid"
      "persist_task_assignment env record i pl row mid (me_timestamp (msg_envelope record)) Assigned d
         = Inr (d', order, ta_task_events applied)"
      "normalized_position order i = Inr (ta_queued_position applied)" "ta_reassign_notice applied = None"
  | (moved) r mid order d1 notice where "load_task_row env (msg_team record) i d = Inr (Some r)"
      "is_open (tr_state r)" "tr_assignee r \<noteq> msg_agent record"
      "me_message_id (msg_envelope record) = Some mid"
      "persist_task_assignment env record i pl (Some r) mid (me_timestamp (msg_envelope record)) Assigned d
         = Inr (d1, order, ta_task_events applied)"
      "normalized_position order i = Inr (ta_queued_position applied)"
      "insert_reassign_notice env record i (tr_assignee r) d1 = Inr (d', notice)"
      "ta_reassign_notice applied = Some notice"
proof -
  from assms obtain row st mid rf where
    row: "load_task_row env (msg_team record) i d = Inr row"
    and tr: "transition (map_option tr_state row) EvAssigned i (me_from (msg_envelope record))
               (map_option tr_assignee row) (msg_agent record) = Some (Inr st)"
    and mid: "me_message_id (msg_envelope record) = Some mid"
    and rf: "refresh_same_assignment env record i row mid d = Inr rf"
    by (auto simp: apply_task_assignment_def Let_def bindE_eq_Inr_iff run_transition_Inr
        simp del: append_Cons split: option.split_asm)
  note unf = apply_task_assignment_def Let_def row liftE_simps bindE_simps mid option.case rf
  have tr': "run_transition (transition (map_option tr_state row) EvAssigned i (me_from (msg_envelope record))
               (map_option tr_assignee row) (msg_agent record)) = Inr st"
    using tr by (simp add: run_transition_Inr)
  from rf show thesis
  proof (cases rule: refresh_same_cases)
    case (kept r d1 p)
    then show thesis using assms refreshed[of r mid] row mid tr' rf by (auto simp: unf)
  next
    case new
    then have "st = Assigned" using transition_assigned[OF tr] by simp
    then show thesis using assms placed[of row mid] row mid tr' rf new
      by (auto simp: unf bindE_eq_Inr_iff)
  next
    case (closed r)
    then have "st = Assigned" using transition_assigned[OF tr] by simp
    then show thesis using assms placed[of row mid] row mid tr' rf closed
      by (auto simp: unf bindE_eq_Inr_iff)
  next
    case (other r)
    then have "st = Assigned" using transition_assigned[OF tr] by simp
    then show thesis using assms moved[of r mid] row mid tr' rf other
      by (auto simp: unf bindE_eq_Inr_iff)
  qed
qed

lemma reassign_notice_frame:
  assumes "insert_reassign_notice env record i who d = Inr (d', notice)"
  shows "db_tasks d' = db_tasks d" "db_task_events d' = db_task_events d"
    "valid_message record \<Longrightarrow> valid_task_id i \<Longrightarrow> valid_segment who \<Longrightarrow>
       mail_ok (db_mail_messages d) \<Longrightarrow> mail_ok (db_mail_messages d')"
    "msg_agent notice = who" "msg_team notice = msg_team record"
    "me_task_id (msg_envelope notice) = Some i"
proof -
  from assms obtain ins where ins: "insert_message_canonical env notice d = Inr (d', ins)"
    and notice: "msg_team notice = msg_team record" "msg_agent notice = who"
      "me_from (msg_envelope notice) = me_from (msg_envelope record)"
      "me_task_id (msg_envelope notice) = Some i"
    by (auto simp: insert_reassign_notice_def Let_def bindE_eq_Inr_iff simp del: append_Cons split: if_splits)
  show "db_tasks d' = db_tasks d" "db_task_events d' = db_task_events d"
    by (rule insert_canonical_frame[OF ins])+
  show "msg_agent notice = who" "msg_team notice = msg_team record"
    "me_task_id (msg_envelope notice) = Some i" by (simp_all add: notice)
  assume "valid_message record" "valid_task_id i" "valid_segment who" "mail_ok (db_mail_messages d)"
  then show "mail_ok (db_mail_messages d')"
    using insert_canonical_frame(3)[OF ins] notice by (simp add: valid_message_def)
qed

lemma store_ok_log_step:
  "log_step d d' \<Longrightarrow> store_ok d \<Longrightarrow> ledger_ok (db_tasks d') \<Longrightarrow> store_ok d'"
  by (simp add: log_step_def store_ok_def)

lemma assignment_store_ok:
  assumes run: "apply_task_assignment env record i pl d = Inr (d', applied)" and ok: "store_ok d"
    and m: "valid_message record" "valid_task_id i"
  shows "store_ok d'"
  using run
proof (cases rule: apply_task_assignment_cases)
  case (refreshed r mid)
  have l: "ledger_ok (db_tasks d)" using ok by (simp add: store_ok_def)
  show ?thesis
    by (rule store_ok_log_step[OF log_step_update[OF refreshed(7)] ok])
       (rule run_update_ledger(1)[OF refreshed(7) l], simp)
next
  case (placed row mid order)
  then show ?thesis
    using store_ok_log_step[OF persist_assignment_log[OF placed(4) m] ok] ok
      assign_closed_ledger(1)[OF _ m placed(1,2,4)] by (simp add: store_ok_def)
next
  case (moved r mid order d1 notice)
  have l: "ledger_ok (db_tasks d)" using ok by (simp add: store_ok_def)
  have "store_ok d1"
    using store_ok_log_step[OF persist_assignment_log[OF moved(5) m] ok]
      reassign_ledger(1)[OF l m moved(1,2,3,5)] by simp
  then show ?thesis
    using reassign_notice_frame(1,2)[OF moved(7)] reassign_notice_frame(3)[OF moved(7) m]
      loaded_row_valid(1)[OF moved(1) l] by (simp add: store_ok_def)
qed

section \<open>Closing\<close>

lemma deliver_rejected_store_ok:
  assumes run: "deliver_rejected_close_report env record i row e d = Inr (d', r)" and ok: "store_ok d"
    and m: "valid_message record" "valid_task_id i" "valid_segment (tr_assignee row)" "holds_message record d"
  shows "store_ok d'"
proof -
  let ?d0 = "drop_task_link_from_mail record d"
  from run obtain dr ev where ev: "append_task_event env dr ?d0 = Inr (d', ev)"
    and dr: "dr_team dr = msg_team record" "dr_task_id dr = i" "dr_assignee dr = tr_assignee row"
      "dr_actor dr = me_from (msg_envelope record)"
    by (auto simp: deliver_rejected_close_report_def bindE_eq_Inr_iff simp del: append_Cons)
  have "store_ok ?d0" using ok drop_link_mail_ok[OF m(1,4)] by (simp add: store_ok_def)
  then show ?thesis
    using store_ok_log_step[OF log_step_append[OF ev]] m dr append_task_event_frame(2)[OF ev]
    by (simp add: store_ok_def draft_ok_def valid_message_def)
qed

lemma apply_task_close_open:
  assumes "load_task_row env (msg_team record) i d = Inr (Some row)" "is_open (tr_state row)"
  shows "apply_task_close env u record i outcome reason d =
     (case admit (Some row) (EvCompleted outcome) i (me_from (msg_envelope record)) of
        Inl e \<Rightarrow> liftE (deliver_rejected_close_report env record i row (into_atm_error e) d)
      | Inr _ \<Rightarrow>
      if msg_agent record \<noteq> (if me_from (msg_envelope record) = tr_assignee row then tr_assigner row
           else tr_assignee row) then
        liftE (deliver_rejected_close_report env record i row
          (task_stale_counterparty (''task '' @ i @ '': '' @ msg_agent record
            @ '' is no longer the counterparty '' @ em_dash @ '' re-run the command'')) d)
      else
      bindE (persist_task_close env u record i outcome reason row (Complete outcome) d)
        (\<lambda>(d1, event). Inr (d1, Applied None (Some (tr_assignee row)) None None [event])))"
proof -
  have tr: "run_transition (transition (Some (tr_state row)) (EvCompleted outcome) i
      (me_from (msg_envelope record)) (Some (tr_assignee row)) (tr_assignee row)) = Inr (Complete outcome)"
    using assms(2) by (cases "tr_state row") (simp_all add: transition_def run_transition_def is_open_def map_err_def)
  obtain st where st: "tr_state row = st" "st = Assigned \<or> st = Active"
    using assms(2) by (cases "tr_state row") (simp_all add: is_open_def)
  show ?thesis
    using st(2) unfolding apply_task_close_def Let_def assms(1) liftE_simps bindE_simps option.case tr
    by (elim disjE; simp only: st(1) TaskState.case)
qed

text \<open>The three ways a close request ends.\<close>

lemma apply_task_close_cases:
  assumes "apply_task_close env u record i outcome reason d = Inr (d', r)"
  obtains (already) row o' where "load_task_row env (msg_team record) i d = Inr (Some row)"
      "tr_state row = Complete o'" "d' = drop_task_link_from_mail record d"
      "r = Applied (Some o') None None None []"
  | (rejected) row e where "load_task_row env (msg_team record) i d = Inr (Some row)"
      "is_open (tr_state row)" "deliver_rejected_close_report env record i row e d = Inr (d', r)"
  | (closed) row ev where "load_task_row env (msg_team record) i d = Inr (Some row)"
      "is_open (tr_state row)" "r = Applied None (Some (tr_assignee row)) None None [ev]"
      "me_from (msg_envelope record) \<in> {tr_assignee row, tr_assigner row}"
      "msg_agent record = (if me_from (msg_envelope record) = tr_assignee row then tr_assigner row
         else tr_assignee row)"
      "persist_task_close env u record i outcome reason row (Complete outcome) d = Inr (d', ev)"
proof -
  from assms obtain ro where ro: "load_task_row env (msg_team record) i d = Inr ro"
    by (cases "load_task_row env (msg_team record) i d") (simp_all add: apply_task_close_def Let_def)
  obtain row where row: "ro = Some row"
    using assms ro by (cases ro) (simp_all add: apply_task_close_def Let_def)
  note unf = apply_task_close_def Let_def ro row liftE_simps bindE_simps option.case
  show thesis
  proof (cases "is_open (tr_state row)")
    case False
    then obtain o' where o': "tr_state row = Complete o'" by (cases "tr_state row") (simp_all add: is_open_def)
    then show thesis using assms already[of row o'] ro row unfolding unf by simp
  next
    case opn: True
    note body = assms[unfolded apply_task_close_open[OF ro[unfolded row] opn]]
    show thesis
    proof (cases "admit (Some row) (EvCompleted outcome) i (me_from (msg_envelope record))")
      case (Inl e)
      then show thesis using body rejected[of row] ro row opn by simp
    next
      case (Inr x)
      then have party: "me_from (msg_envelope record) \<in> {tr_assignee row, tr_assigner row}"
        unfolding admit_def by (auto split: if_splits)
      show thesis
        using body rejected[of row] closed[of row] ro row opn party unfolding Inr sum.case
        by (auto simp: bindE_eq_Inr_iff simp del: append_Cons split: if_splits)
    qed
  qed
qed

lemma close_store_ok:
  assumes run: "apply_task_close env (upsert_bounded env n) record i outcome reason d = Inr (d', r)"
    and ok: "store_ok d" and m: "valid_message record" "valid_task_id i" and held: "holds_message record d"
  shows "store_ok d'"
proof -
  have l: "ledger_ok (db_tasks d)" using ok by (simp add: store_ok_def)
  from run show ?thesis
  proof (cases rule: apply_task_close_cases)
    case (already row o')
    then show ?thesis using ok drop_link_mail_ok[OF m(1) held] by (simp add: store_ok_def)
  next
    case (rejected row e)
    then show ?thesis
      using deliver_rejected_store_ok[OF rejected(3) ok m _ held] loaded_row_valid(1)[OF rejected(1) l] by simp
  next
    case (closed row ev)
    have team: "valid_segment (msg_team record)" using m by (simp add: valid_message_def)
    show ?thesis
      using store_ok_log_step[OF persist_close_log[OF closed(6) m] ok] loaded_row_valid(1)[OF closed(1) l]
        close_ledger(1)[OF l team closed(1,2,6)] by simp
  qed
qed

section \<open>Admission\<close>

lemma message_store_ok:
  assumes run: "apply_task_message env (upsert_bounded env n) record d = Inr (d', r)"
    and ok: "store_ok d" and m: "valid_message record" and held: "holds_message record d"
  shows "store_ok d'"
proof (cases "me_task_id (msg_envelope record)")
  case None
  then show ?thesis using run ok by (simp add: apply_task_message_def Let_def)
next
  case (Some i)
  then have i: "valid_task_id i" using m by (simp add: valid_message_def)
  have l: "ledger_ok (db_tasks d)" using ok by (simp add: store_ok_def)
  show ?thesis
  proof (cases "me_task_op (msg_envelope record)")
    case None
    with run Some obtain report where
      "report \<and> d' = d \<or> (\<exists>a. apply_task_assignment env record i (me_placement (msg_envelope record)) d = Inr (d', a))"
      by (auto simp: apply_task_message_def Let_def bindE_eq_Inr_iff split: if_splits)
    then show ?thesis using ok assignment_store_ok[OF _ ok m i] by blast
  next
    case op: (Some op)
    show ?thesis
    proof (cases op)
      case Start
      with run Some op obtain who ev where "apply_task_start env record i d = Inr (d', who, ev)"
        by (auto simp: apply_task_message_def Let_def bindE_eq_Inr_iff)
      then show ?thesis using store_ok_log_step[OF start_log] start_ledger(1) ok l by blast
    next
      case (Close outcome reason)
      with run Some op show ?thesis using close_store_ok[OF _ ok m i held]
        by (simp add: apply_task_message_def Let_def)
    qed
  qed
qed

lemma upsert_body_store_ok:
  assumes run: "upsert_body env (upsert_bounded env n) record p d = Inr (d', r)"
    and ok: "store_ok d" and m: "valid_message record"
  shows "store_ok d'"
proof -
  from run obtain d1 ins where ins: "insert_message_canonical env record d = Inr (d1, ins)"
    and cs: "d' = d1 \<or> ins \<and> (\<exists>r. apply_task_message env (upsert_bounded env n) record d1 = Inr (d', r))"
    by (auto simp: upsert_body_def bindE_eq_Inr_iff split: if_splits)
  have "store_ok d1" using insert_canonical_frame[OF ins] ok m by (simp add: store_ok_def)
  then show ?thesis using cs message_store_ok m insert_canonical_frame(4)[OF ins] by blast
qed

lemma upsert_store_ok:
  assumes "execute_upsert_message env record p d = Inr (d', r)" "store_ok d" "valid_message record"
  shows "store_ok d'"
  using assms upsert_body_store_ok[of env 1] by (simp add: execute_upsert_message_def numeral_2_eq_2)

lemma upserts_store_ok:
  "execute_upsert_messages env records d = Inr d' \<Longrightarrow> store_ok d \<Longrightarrow> list_all valid_message records
   \<Longrightarrow> store_ok d'"
  by (induction records arbitrary: d) (auto simp: bindE_eq_Inr_iff dest: upsert_store_ok)

lemma acknowledgement_store_ok:
  assumes run: "execute_acknowledgement env src build d = Inr (d', c)" and ok: "store_ok d"
    and b: "\<And>m r. valid_message m \<Longrightarrow> build m = Inr r \<Longrightarrow> valid_message r"
  shows "store_ok d'"
proof -
  from run obtain m reply d1 r1 r2 where m: "load_pending_ack_source env src d = Inr m"
    and reply: "build m = Inr reply" "execute_upsert_message env reply Local d = Inr (d1, r1)"
    and ack: "execute_upsert_message env (mark_source_acknowledged (env_now env) m) Local d1 = Inr (d', r2)"
    by (auto simp: execute_acknowledgement_def Let_def bindE_eq_Inr_iff)
  have vm: "valid_message m" using pending_source_valid[OF m] ok by (simp add: store_ok_def)
  then have "store_ok d1" using upsert_store_ok[OF reply(2) ok] b reply(1) by blast
  then show ?thesis
    using upsert_store_ok[OF ack] vm by (simp add: valid_message_def mark_source_acknowledged_def)
qed

section \<open>Every operation\<close>

lemma mark_all_read_frame:
  "mark_all_read env team agent keys d = Inr d' \<Longrightarrow> \<exists>st. d' = d\<lparr>db_mail_states := st\<rparr>"
proof (induction keys arbitrary: d)
  case Nil
  then show ?case by (auto intro: exI[of _ "db_mail_states d"])
next
  case (Cons k keys)
  obtain d1 n where d1: "mark_message_read team agent k (env_now env) (next_reminder_due (env_now env)) d = (d1, n)"
    by fastforce
  then obtain st where "d1 = d\<lparr>db_mail_states := st\<rparr>" by (auto simp: mark_message_read_def Let_def)
  moreover have "mark_all_read env team agent keys d1 = Inr d'"
    using Cons.prems d1 by (simp del: append_Cons split: if_splits)
  ultimately show ?case using Cons.IH by fastforce
qed

lemma read_display_store_ok:
  assumes "execute_read_display_state env team agent keys w p d = Inr d'" "store_ok d"
  shows "store_ok d'"
  using assms mark_all_read_frame
  by (fastforce simp: execute_read_display_state_def bindE_eq_Inr_iff store_ok_def split: option.splits)

lemma delete_store_ok:
  assumes "execute_delete_message key p d = Inr d'" "store_ok d"
  shows "store_ok d'"
  using assms
  by (auto simp: execute_delete_message_def Let_def bindE_eq_Inr_iff store_ok_def mail_ok_def
      list_all_iff delete_message_projection_def intro: mailboxes.table_filter)

lemma execute_store_ok:
  assumes run: "execute env op d = Inr (d', r)" and ok: "store_ok d" and op: "op_ok op"
  shows "store_ok d'"
proof (cases op)
  case (Acknowledge src build p)
  then show ?thesis using run op acknowledgement_store_ok[OF _ ok]
    by (auto simp: execute_def execute_acknowledgement_with_fence_def bindE_eq_Inr_iff op_ok_def)
next
  case (TaskMove team i actor tgt at p)
  with run obtain rec where "apply_task_move env team i actor tgt at d = Inr (d', rec)"
    by (auto simp: execute_def execute_task_move_with_fence_def bindE_eq_Inr_iff)
  then show ?thesis
    using store_ok_log_step[OF move_log] move_ledger ok op TaskMove
    by (auto simp: op_ok_def store_ok_def)
qed (use run op ok read_display_store_ok delete_store_ok upsert_store_ok upserts_store_ok in
  \<open>auto simp: execute_def bindE_eq_Inr_iff op_ok_def\<close>)

lemma rejected_subject_valid:
  assumes sub: "rejected_event_subject env op d = Inr (Some (team, i, requested, actor, mid))"
    and ok: "store_ok d" and op: "op_ok op"
  shows "valid_segment team" "valid_task_id i" "valid_segment requested" "valid_segment actor"
proof -
  have "valid_segment team \<and> valid_task_id i \<and> valid_segment requested \<and> valid_segment actor"
  proof (cases op)
    case (UpsertMessage m p)
    then show ?thesis using sub op
      by (auto simp: rejected_event_subject_def op_ok_def valid_message_def split: if_splits option.splits)
  next
    case (Acknowledge src build p)
    then obtain m where "load_pending_ack_source env src d = Inr m"
      using sub by (auto simp: rejected_event_subject_def bindE_eq_Inr_iff)
    moreover from this have "valid_message m"
      using pending_source_valid ok by (simp add: store_ok_def)
    ultimately show ?thesis using sub Acknowledge
      by (auto simp: rejected_event_subject_def valid_message_def split: option.splits)
  qed (use sub op in \<open>auto simp: rejected_event_subject_def op_ok_def\<close>)
  then show "valid_segment team" "valid_task_id i" "valid_segment requested" "valid_segment actor" by auto
qed

lemma audit_store_ok:
  assumes run: "append_rejected_task_event env op e d = Inr (d', ev)" and ok: "store_ok d" and op: "op_ok op"
  shows "store_ok d'"
proof (cases "d' = d")
  case True
  then show ?thesis using ok by simp
next
  case False
  then have body: "bindE (rejected_event_subject env op d) (\<lambda>subject.
        case subject of
          None \<Rightarrow> Inr (d, None)
        | Some (team, task_id, requested, actor, message_id) \<Rightarrow>
            bindE (load_task_row env team task_id d) (\<lambda>row.
            bindE (append_task_event env
              \<lparr>dr_team = team, dr_task_id = task_id,
               dr_assignee = (case row of Some r \<Rightarrow> tr_assignee r | None \<Rightarrow> requested),
               dr_at = env_now env, dr_event = KRejected,
               dr_from_state = map_option (\<lambda>r. TaskState_tag (tr_state r)) row,
               dr_to_state = map_option (\<lambda>r. TaskState_tag (tr_state r)) row,
               dr_close_outcome = Option.bind row (\<lambda>r. close_outcome (tr_state r)),
               dr_actor = actor, dr_message_id = message_id, dr_outcome = None,
               dr_marker = None, dr_detail = Some (rejection_text e)\<rparr> d) (\<lambda>(d1, event).
            Inr (d1, Some event)))) = Inr (d', ev)"
    using run unfolding append_rejected_task_event_def by (auto split: if_splits)
  then obtain subj where subj: "rejected_event_subject env op d = Inr subj"
    by (cases "rejected_event_subject env op d") simp_all
  obtain team i requested actor mid where sub: "subj = Some (team, i, requested, actor, mid)"
    using body False subj by (cases subj) auto
  obtain row dr ev' where row: "load_task_row env team i d = Inr row"
    and app: "append_task_event env dr d = Inr (d', ev')"
    and dr: "dr_team dr = team" "dr_task_id dr = i" "dr_actor dr = actor"
      "dr_assignee dr = (case row of Some r \<Rightarrow> tr_assignee r | None \<Rightarrow> requested)"
    using body unfolding subj sub bindE_simps option.case prod.case by (auto simp: bindE_eq_Inr_iff)
  have l: "ledger_ok (db_tasks d)" using ok by (simp add: store_ok_def)
  have "draft_ok dr"
    using rejected_subject_valid[OF subj[unfolded sub] ok op] loaded_row_valid(1)[OF _ l] row dr
    by (cases row) (auto simp: draft_ok_def)
  then show ?thesis
    using store_ok_log_step[OF log_step_append[OF app] ok] l append_task_event_frame(2)[OF app] by simp
qed

section \<open>No panic and no unbounded admission\<close>

text \<open>A computation that fails, if it fails, with an error value.\<close>

definition sane :: "fault + 'a \<Rightarrow> bool" where
  "sane m \<longleftrightarrow> m \<noteq> Inl Panic \<and> m \<noteq> Inl Unbounded"

lemma sane_simps [simp]: "sane (Inr x)" "sane (Inl (Fail e))" "sane (liftE m)"
  by (cases m; simp add: sane_def liftE_def)+

lemma sane_bindE: "sane m \<Longrightarrow> (\<And>x. m = Inr x \<Longrightarrow> sane (k x)) \<Longrightarrow> sane (bindE m k)"
  by (cases m) (auto simp: sane_def)

lemma sane_run_transition: "t \<noteq> None \<Longrightarrow> sane (run_transition t)"
  by (cases t) (auto simp: run_transition_def map_err_def sane_def split: sum.splits)

lemma transition_open: "is_open st \<Longrightarrow> transition (Some st) ev i a c r \<noteq> None"
  by (cases st; cases ev) (simp_all add: transition_def)

lemma transition_assign: "transition st EvAssigned i a c r \<noteq> None"
  by (auto simp: transition_def split: option.splits TaskState.splits)

lemma start_sane:
  assumes ok: "ledger_ok (db_tasks d)"
  shows "sane (apply_task_start env record i d)"
proof -
  have ins: "sane (vec_insert n i (filter (\<lambda>j. j \<noteq> i) order0))"
    if n: "reject_over_max_tasks env record i row d = Inr n"
      and q: "queue_order (msg_team record) (tr_assignee row) d = Inr order0" for row n order0
  proof -
    have n: "n \<le> other_active_count (msg_team record) (tr_assignee row) i d"
      using n by (auto simp: reject_over_max_tasks_def Let_def bindE_eq_Inr_iff split: if_splits)
    have order: "order0 = queue_ids (msg_team record) (tr_assignee row) (db_tasks d)"
      using q queue_order_ok ok by (simp add: ledger_ok_def)
    have t: "tasks_ok (db_tasks d)" "queue_ok (msg_team record) (tr_assignee row) (db_tasks d)"
      using ok by (simp_all add: ledger_ok_alt)
    show ?thesis
      using le_trans[OF n other_active_prefix(1)[OF t refl]] by (simp add: vec_insert_def order)
  qed
  show ?thesis unfolding apply_task_start_def Let_def
    by (rule sane_bindE, simp)
       (auto intro!: sane_bindE ins sane_run_transition transition_open
         dest: load_startable_task_Inr(2) split: prod.splits simp del: append_Cons)
qed

lemma move_sane:
  assumes "ledger_ok (db_tasks d)"
  shows "sane (apply_task_move env team i actor tgt at d)"
  unfolding apply_task_move_def
  by (rule sane_bindE, simp)
     (auto intro!: sane_bindE sane_run_transition transition_open split: option.splits prod.splits
       simp del: append_Cons)

lemma assignment_sane: "sane (apply_task_assignment env record i pl d)"
  unfolding apply_task_assignment_def Let_def
  by (rule sane_bindE, simp)
     (auto intro!: sane_bindE sane_run_transition transition_assign split: option.splits prod.splits
       simp del: append_Cons)

text \<open>An admission of a stored message does not reach the recursive call.\<close>

lemma upsert_body_stored_any:
  assumes "stored m d"
  shows "upsert_body env u m p d = upsert_body env u' m p d"
proof (cases "insert_message_canonical env m d")
  case (Inl e)
  then show ?thesis by (simp add: upsert_body_def)
next
  case (Inr x)
  obtain d1 ins where x: "x = (d1, ins)" by (cases x)
  then have "\<not> ins" using insert_canonical_stored(1)[OF assms] Inr by simp
  then show ?thesis using Inr x by (simp add: upsert_body_def)
qed

lemma upsert_body_stored_sane:
  assumes "stored m d"
  shows "sane (upsert_body env u m p d)"
  unfolding upsert_body_def
  by (rule sane_bindE, simp, rule sane_bindE, simp)
     (auto intro!: sane_bindE dest: insert_canonical_stored(1)[OF assms] split: prod.splits)

lemma upsert_bounded_stored_sane:
  "stored m d \<Longrightarrow> sane (upsert_bounded env (Suc n) m p d)"
  "stored m d \<Longrightarrow> upsert_bounded env (Suc n) m p d = upsert_bounded env (Suc k) m p d"
  using upsert_body_stored_sane upsert_body_stored_any by auto

lemma acknowledge_sane:
  assumes v: "valid_segment (msg_team record)" "valid_segment (tr_assignee row)"
  shows "sane (acknowledge_assignment (upsert_bounded env (Suc n)) record row d)"
    "acknowledge_assignment (upsert_bounded env (Suc n)) record row d
       = acknowledge_assignment (upsert_bounded env (Suc k)) record row d"
proof -
  have st: "stored (mark_source_acknowledged at m) d"
    if "load_existing_message \<lparr>msg_team = msg_team record, msg_agent = tr_assignee row,
          msg_message_key = key, msg_envelope = msg_envelope record\<rparr> d = Inr m" for m key at
    using load_existing_message_key(4)[OF that] v by (simp add: stored_def)
  show "sane (acknowledge_assignment (upsert_bounded env (Suc n)) record row d)"
    unfolding acknowledge_assignment_def
    by (auto intro!: sane_bindE upsert_bounded_stored_sane(1) st split: option.splits prod.splits
        simp del: append_Cons upsert_bounded.simps)
  show "acknowledge_assignment (upsert_bounded env (Suc n)) record row d
       = acknowledge_assignment (upsert_bounded env (Suc k)) record row d"
    unfolding acknowledge_assignment_def
    by (intro option.case_cong refl bindE_cong if_cong)
       (auto dest!: st intro: upsert_bounded_stored_sane(2) simp del: upsert_bounded.simps)
qed

lemma close_sane:
  assumes ok: "ledger_ok (db_tasks d)" and team: "valid_segment (msg_team record)"
  shows "sane (apply_task_close env (upsert_bounded env (Suc n)) record i outcome reason d)"
    "apply_task_close env (upsert_bounded env (Suc n)) record i outcome reason d
       = apply_task_close env (upsert_bounded env (Suc k)) record i outcome reason d"
proof -
  have "sane (apply_task_close env (upsert_bounded env (Suc n)) record i outcome reason d)
      \<and> apply_task_close env (upsert_bounded env (Suc n)) record i outcome reason d
       = apply_task_close env (upsert_bounded env (Suc k)) record i outcome reason d"
  proof (cases "\<exists>row. load_task_row env (msg_team record) i d = Inr (Some row) \<and> is_open (tr_state row)")
    case True
    then obtain row where row: "load_task_row env (msg_team record) i d = Inr (Some row)" "is_open (tr_state row)"
      by blast
    note a = acknowledge_sane[OF team loaded_row_valid(1)[OF row(1) ok]]
    have s: "sane (persist_task_close env (upsert_bounded env (Suc n)) record i outcome reason row (Complete outcome) d)"
      unfolding persist_task_close_def Let_def by (auto intro!: sane_bindE a(1) simp del: upsert_bounded.simps)
    have e: "persist_task_close env (upsert_bounded env (Suc n)) record i outcome reason row (Complete outcome) d
        = persist_task_close env (upsert_bounded env (Suc k)) record i outcome reason row (Complete outcome) d"
      unfolding persist_task_close_def a(2)[of env n d k] ..
    show ?thesis unfolding apply_task_close_open[OF row] e
      by (auto intro!: sane_bindE s[unfolded e] split: sum.splits prod.splits simp del: append_Cons upsert_bounded.simps)
  next
    case False
    then show ?thesis unfolding apply_task_close_def Let_def
      by (cases "load_task_row env (msg_team record) i d")
         (auto simp: is_open_def simp del: append_Cons split: option.splits TaskState.splits)
  qed
  then show "sane (apply_task_close env (upsert_bounded env (Suc n)) record i outcome reason d)"
    "apply_task_close env (upsert_bounded env (Suc n)) record i outcome reason d
       = apply_task_close env (upsert_bounded env (Suc k)) record i outcome reason d" by auto
qed

lemma message_sane:
  assumes ok: "ledger_ok (db_tasks d)" and team: "valid_segment (msg_team record)"
  shows "sane (apply_task_message env (upsert_bounded env (Suc n)) record d)"
    "apply_task_message env (upsert_bounded env (Suc n)) record d
       = apply_task_message env (upsert_bounded env (Suc k)) record d"
  unfolding apply_task_message_def Let_def
  by (auto intro!: sane_bindE start_sane[OF ok] assignment_sane close_sane(1)[OF ok team]
      close_sane(2)[OF ok team] split: option.splits TaskOp.splits prod.splits
      simp del: upsert_bounded.simps)

lemma upsert_sane:
  assumes ok: "store_ok d" and m: "valid_message record"
  shows "sane (upsert_bounded env (n + 2) record p d)"
    "upsert_bounded env (n + 2) record p d = upsert_bounded env (k + 2) record p d"
proof -
  have l: "ledger_ok (db_tasks d1)" if "insert_message_canonical env record d = Inr (d1, ins)" for d1 ins
    using insert_canonical_frame(1)[OF that] ok by (simp add: store_ok_def)
  have team: "valid_segment (msg_team record)" using m by (simp add: valid_message_def)
  have "sane (upsert_body env (upsert_bounded env (Suc n)) record p d)"
    unfolding upsert_body_def
    by (auto intro!: sane_bindE message_sane(1) team split: prod.splits dest: l
        simp del: upsert_bounded.simps)
  moreover have "upsert_body env (upsert_bounded env (Suc n)) record p d
      = upsert_body env (upsert_bounded env (Suc k)) record p d"
    unfolding upsert_body_def
    by (intro bindE_cong refl) (auto intro!: bindE_cong message_sane(2)[OF l team]
        split: prod.splits simp del: upsert_bounded.simps)
  ultimately show "sane (upsert_bounded env (n + 2) record p d)"
    "upsert_bounded env (n + 2) record p d = upsert_bounded env (k + 2) record p d" by simp_all
qed

lemma execute_upsert_sane:
  "store_ok d \<Longrightarrow> valid_message record \<Longrightarrow> sane (execute_upsert_message env record p d)"
  using upsert_sane(1)[where n = 0] by (simp add: execute_upsert_message_def numeral_2_eq_2)

lemma execute_upserts_sane:
  "store_ok d \<Longrightarrow> list_all valid_message records \<Longrightarrow> sane (execute_upsert_messages env records d)"
  by (induction records arbitrary: d)
     (auto intro!: sane_bindE execute_upsert_sane dest: upsert_store_ok)

lemma acknowledgement_sane:
  assumes ok: "store_ok d" and b: "\<And>m r. valid_message m \<Longrightarrow> build m = Inr r \<Longrightarrow> valid_message r"
  shows "sane (execute_acknowledgement env src build d)"
proof -
  have v: "valid_message m" if "load_pending_ack_source env src d = Inr m" for m
    using pending_source_valid[OF that] ok by (simp add: store_ok_def)
  have v': "valid_message m \<Longrightarrow> valid_message (mark_source_acknowledged at m)" for m at
    by (simp add: valid_message_def mark_source_acknowledged_def)
  have r: "valid_message r" "execute_upsert_message env r Local d = Inr (d', x) \<Longrightarrow> store_ok d'"
    if "load_pending_ack_source env src d = Inr m" "build m = Inr r" for m r d' x
    using b[OF v[OF that(1)] that(2)] upsert_store_ok[OF _ ok] by auto
  show ?thesis unfolding execute_acknowledgement_def Let_def
    by (auto intro!: sane_bindE execute_upsert_sane ok v' intro: v r)
qed

lemma execute_sane:
  assumes ok: "store_ok d" and op: "op_ok op"
  shows "sane (execute env op d)"
proof -
  have l: "ledger_ok (db_tasks d)" using ok by (simp add: store_ok_def)
  show ?thesis
    using op unfolding execute_def execute_acknowledgement_with_fence_def execute_task_move_with_fence_def
    by (auto simp: op_ok_def intro!: sane_bindE execute_upsert_sane execute_upserts_sane
        acknowledgement_sane move_sane l ok split: WriteOp.splits)
qed

end
