(* ===== verification/Writer_Batch.thy ===== *)
theory Writer_Batch
  imports Writer_Safety
begin

text \<open>
  A batch of queued writes (\<^verbatim>\<open>writer/batch.rs\<close>): one transaction per batch, one savepoint
  per write, one shared savepoint for a run of message admissions, the audit of a rejected
  write, and the replies after the commit.
\<close>

section \<open>Queued writes\<close>

text \<open>
  \<open>qw_reply\<close> names the reply channel. What the environment and SQLite answer while a write is
  processed belongs to the write: \<open>qw_env\<close> in the first attempt and \<open>qw_again\<close> in a replay,
  \<open>qw_open\<close> and \<open>qw_commit\<close> the outcome of opening and releasing its own savepoint,
  \<open>qw_group_open\<close> and \<open>qw_group_commit\<close> those of the shared savepoint of a group it heads.
\<close>

record QueuedWrite =
  qw_op :: WriteOp
  qw_reply :: nat
  qw_env :: env
  qw_again :: env
  qw_open :: "sql_error option"
  qw_commit :: "sql_error option"
  qw_group_open :: "sql_error option"
  qw_group_commit :: "sql_error option"

record CommittedTaskWrite =
  cw_operation :: "AtmError + WriteOpResult"
  cw_task_events :: "TaskEventRow list"

type_synonym write_reply = "nat \<times> (AtmError + CommittedTaskWrite)"

text \<open>The two functions the batch calls: \<^verbatim>\<open>ops::execute\<close> and
  \<^verbatim>\<open>task_ops::append_rejected_task_event\<close>.\<close>

type_synonym executor = "env \<Rightarrow> WriteOp \<Rightarrow> db \<Rightarrow> fault + (db \<times> WriteOpResult)"

type_synonym auditor = "env \<Rightarrow> WriteOp \<Rightarrow> AtmError \<Rightarrow> db \<Rightarrow> AtmError + (db \<times> TaskEventRow option)"

definition is_batchable_message_admission :: "QueuedWrite \<Rightarrow> bool" where
  "is_batchable_message_admission queued \<longleftrightarrow>
     (case qw_op queued of UpsertMessage _ _ \<Rightarrow> True | _ \<Rightarrow> False)"

section \<open>One write\<close>

text \<open>A savepoint that is dropped or fails to release is rolled back: the store is again the
  one it was opened on.\<close>

definition commit_savepoint ::
  "QueuedWrite \<Rightarrow> db \<Rightarrow> db \<Rightarrow> WriteOpResult \<Rightarrow> db \<times> (AtmError + WriteOpResult)" where
  "commit_savepoint queued before after op_result =
     (case qw_commit queued of
        None \<Rightarrow> (after, Inr op_result)
      | Some error \<Rightarrow> (before, Inl (sqlite_error (qw_env queued)
          ''failed to commit sqlite writer savepoint'' error)))"

definition finalize_queued_write ::
  "QueuedWrite \<Rightarrow> db \<Rightarrow> fault + (db \<times> WriteOpResult) \<Rightarrow> db \<times> (AtmError + WriteOpResult)" where
  "finalize_queued_write queued before result =
     (case result of
        Inr (after, op_result) \<Rightarrow> commit_savepoint queued before after op_result
      | Inl (Fail error) \<Rightarrow> (before, Inl error)
      | Inl _ \<Rightarrow> (before, Inl (err_daemon_unavailable ''sqlite writer operation panicked'')))"

definition process_queued_write ::
  "executor \<Rightarrow> auditor \<Rightarrow> QueuedWrite \<Rightarrow> db \<Rightarrow> db \<times> write_reply" where
  "process_queued_write exec audit queued d =
     (case qw_open queued of
        Some error \<Rightarrow> (d, qw_reply queued, Inl (sqlite_error (qw_env queued)
          ''failed to open sqlite writer savepoint'' error))
      | None \<Rightarrow>
     (case exec (qw_env queued) (qw_op queued) d of
        Inl (Fail error) \<Rightarrow>
          (case audit (qw_env queued) (qw_op queued) error d of
             Inr (d1, event) \<Rightarrow> (d1, qw_reply queued,
               Inr \<lparr>cw_operation = Inl error,
                    cw_task_events = (case event of Some e \<Rightarrow> [e] | None \<Rightarrow> [])\<rparr>)
           | Inl audit_error \<Rightarrow> (d, qw_reply queued, Inl audit_error))
      | result \<Rightarrow>
          (case finalize_queued_write queued d result of
             (d1, Inr operation) \<Rightarrow> (d1, qw_reply queued,
               Inr \<lparr>cw_operation = Inr operation, cw_task_events = []\<rparr>)
           | (d1, Inl error) \<Rightarrow> (d1, qw_reply queued, Inl error))))"

fun process_each ::
  "executor \<Rightarrow> auditor \<Rightarrow> QueuedWrite list \<Rightarrow> db \<Rightarrow> db \<times> write_reply list" where
  "process_each exec audit [] d = (d, [])"
| "process_each exec audit (queued # rest) d =
     (let (d1, reply) = process_queued_write exec audit queued d;
          (d2, replies) = process_each exec audit rest d1
      in (d2, reply # replies))"

section \<open>A group of admissions\<close>

text \<open>All members in one savepoint: \<open>None\<close> as soon as one fails or panics.\<close>

fun execute_group :: "executor \<Rightarrow> QueuedWrite list \<Rightarrow> db \<Rightarrow> (db \<times> WriteOpResult list) option" where
  "execute_group exec [] d = Some (d, [])"
| "execute_group exec (queued # rest) d =
     (case exec (qw_env queued) (qw_op queued) d of
        Inl _ \<Rightarrow> None
      | Inr (d1, result) \<Rightarrow>
          (case execute_group exec rest d1 of
             None \<Rightarrow> None
           | Some (d2, results) \<Rightarrow> Some (d2, result # results)))"

definition replayed :: "QueuedWrite \<Rightarrow> QueuedWrite" where
  "replayed queued = queued\<lparr>qw_env := qw_again queued\<rparr>"

definition process_message_admission_group ::
  "executor \<Rightarrow> auditor \<Rightarrow> QueuedWrite list \<Rightarrow> db \<Rightarrow> db \<times> write_reply list" where
  "process_message_admission_group exec audit admissions d =
     (let first = hd admissions;
          refuse = (\<lambda>what error. (d, map (\<lambda>queued. (qw_reply queued,
             Inl (sqlite_error (qw_env first) what error))) admissions))
      in case qw_group_open first of
           Some error \<Rightarrow> refuse ''failed to open sqlite writer message-admission savepoint'' error
         | None \<Rightarrow>
         (case execute_group exec admissions d of
            None \<Rightarrow> process_each exec audit (map replayed admissions) d
          | Some (d1, results) \<Rightarrow>
          (case qw_group_commit first of
             None \<Rightarrow> (d1, map (\<lambda>(queued, result). (qw_reply queued,
               Inr \<lparr>cw_operation = Inr result, cw_task_events = []\<rparr>)) (zip admissions results))
           | Some error \<Rightarrow>
               refuse ''failed to commit sqlite writer message-admission savepoint'' error)))"

section \<open>A batch\<close>

function process_writes ::
  "executor \<Rightarrow> auditor \<Rightarrow> QueuedWrite list \<Rightarrow> db \<Rightarrow> db \<times> write_reply list" where
  "process_writes exec audit [] d = (d, [])"
| "process_writes exec audit (queued # rest) d =
     (if \<not> is_batchable_message_admission queued then
        let (d1, reply) = process_queued_write exec audit queued d;
            (d2, replies) = process_writes exec audit rest d1
        in (d2, reply # replies)
      else
        let admissions = queued # takeWhile is_batchable_message_admission rest;
            (d1, replies1) =
              (if length admissions = 1 then
                 (let (d', reply) = process_queued_write exec audit queued d in (d', [reply]))
               else process_message_admission_group exec audit admissions d);
            (d2, replies2) =
              process_writes exec audit (dropWhile is_batchable_message_admission rest) d1
        in (d2, replies1 @ replies2))"
  by pat_completeness auto
termination
  by (relation "measure (\<lambda>(_, _, ws, _). length ws)") (auto simp: le_imp_less_Suc length_dropWhile_le)

definition finalize_committed_reply ::
  "AtmError + CommittedTaskWrite \<Rightarrow> AtmError option \<Rightarrow> AtmError + CommittedTaskWrite" where
  "finalize_committed_reply result commit_error =
     (case commit_error of
        None \<Rightarrow> result
      | Some error \<Rightarrow>
          (case result of
             Inr committed \<Rightarrow> Inl (case cw_operation committed of Inl e \<Rightarrow> e | Inr _ \<Rightarrow> error)
           | Inl existing \<Rightarrow> Inl existing))"

text \<open>
  \<open>opened\<close> and \<open>committed\<close> are the outcomes of opening and committing the transaction of the
  batch; a transaction that does not commit is rolled back.
\<close>

definition process_batch ::
  "executor \<Rightarrow> auditor \<Rightarrow> env \<Rightarrow> sql_error option \<Rightarrow> sql_error option \<Rightarrow> QueuedWrite list \<Rightarrow> db
   \<Rightarrow> db \<times> write_reply list" where
  "process_batch exec audit env opened committed batch d =
     (case opened of
        Some error \<Rightarrow> (d, map (\<lambda>queued. (qw_reply queued,
          Inl (sqlite_error env ''failed to open sqlite writer batch transaction'' error))) batch)
      | None \<Rightarrow>
        let (d1, replies) = process_writes exec audit batch d;
            commit_error = map_option
              (sqlite_error env ''failed to commit sqlite writer batch transaction'') committed
        in (if commit_error = None then d1 else d,
            map (\<lambda>(reply, result). (reply, finalize_committed_reply result commit_error)) replies))"

section \<open>Replies\<close>

lemma queued_reply: "fst (snd (process_queued_write exec audit q d)) = qw_reply q"
  by (auto simp: process_queued_write_def split: option.splits sum.splits fault.splits prod.splits)

lemma process_queued_write_pair:
  obtains d1 r where "process_queued_write exec audit q d = (d1, qw_reply q, r)"
  using queued_reply[of exec audit q d] by (metis prod.collapse)

lemma each_replies: "map fst (snd (process_each exec audit ws d)) = map qw_reply ws"
proof (induction ws arbitrary: d)
  case (Cons q ws)
  obtain d1 r where "process_queued_write exec audit q d = (d1, qw_reply q, r)"
    by (rule process_queued_write_pair)
  then show ?case using Cons.IH[of d1] by (simp add: case_prod_beta)
qed simp

lemma execute_group_length: "execute_group exec ws d = Some (d', rs) \<Longrightarrow> length rs = length ws"
  by (induction ws arbitrary: d rs) (auto split: sum.splits option.splits)

lemma group_replies:
  "map fst (snd (process_message_admission_group exec audit ws d)) = map qw_reply ws"
proof -
  have "map fst (map (\<lambda>(queued, result). (qw_reply queued, f result)) (zip ws rs)) = map qw_reply ws"
    if "length rs = length ws" for rs :: "WriteOpResult list" and f :: "WriteOpResult \<Rightarrow> AtmError + CommittedTaskWrite"
    using that by (induction rs ws rule: list_induct2) auto
  moreover have "map qw_reply (map replayed ws) = map qw_reply ws" by (simp add: replayed_def)
  ultimately show ?thesis
    using each_replies[of exec audit "map replayed ws" d] execute_group_length[of exec ws d]
    by (auto simp: process_message_admission_group_def Let_def split: option.splits)
qed

text \<open>The replies of a run of admissions, alone or as a group.\<close>

definition admission_run ::
  "executor \<Rightarrow> auditor \<Rightarrow> QueuedWrite \<Rightarrow> QueuedWrite list \<Rightarrow> db \<Rightarrow> db \<times> write_reply list" where
  "admission_run exec audit q others d =
     (if length (q # others) = 1
      then (let (d', reply) = process_queued_write exec audit q d in (d', [reply]))
      else process_message_admission_group exec audit (q # others) d)"

lemma admission_run_replies: "map fst (snd (admission_run exec audit q others d)) = map qw_reply (q # others)"
  using group_replies[of exec audit "q # others" d] queued_reply[of exec audit q d]
  by (auto simp: admission_run_def Let_def case_prod_beta)

lemma process_writes_run:
  assumes "is_batchable_message_admission q"
  shows "process_writes exec audit (q # rest) d =
     (let (d1, r1) = admission_run exec audit q (takeWhile is_batchable_message_admission rest) d;
          (d2, r2) = process_writes exec audit (dropWhile is_batchable_message_admission rest) d1
      in (d2, r1 @ r2))"
  using assms by (simp add: admission_run_def Let_def)

lemma process_writes_single:
  assumes "\<not> is_batchable_message_admission q"
  shows "process_writes exec audit (q # rest) d =
     (let (d1, r) = process_queued_write exec audit q d; (d2, rs) = process_writes exec audit rest d1
      in (d2, r # rs))"
  using assms by simp

declare process_writes.simps(2) [simp del]

lemma writes_induct [case_names nil single run]:
  assumes "\<And>d. P [] d"
    and "\<And>q rest d. \<not> is_batchable_message_admission q \<Longrightarrow>
           P rest (fst (process_queued_write exec audit q d)) \<Longrightarrow> P (q # rest) d"
    and "\<And>q rest d. is_batchable_message_admission q \<Longrightarrow>
           P (dropWhile is_batchable_message_admission rest)
             (fst (admission_run exec audit q (takeWhile is_batchable_message_admission rest) d)) \<Longrightarrow>
           P (q # rest) d"
  shows "P ws d"
proof (induction "length ws" arbitrary: ws d rule: less_induct)
  case less
  show ?case
  proof (cases ws)
    case (Cons q rest)
    have "length (dropWhile is_batchable_message_admission rest) < length ws"
      using Cons length_dropWhile_le[of is_batchable_message_admission rest] by simp
    then show ?thesis using less Cons assms(2,3)
      by (cases "is_batchable_message_admission q") simp_all
  qed (use assms(1) in simp)
qed

lemma writes_replies: "map fst (snd (process_writes exec audit ws d)) = map qw_reply ws"
proof (induction ws d rule: writes_induct[where exec = exec and audit = audit])
  case (single q rest d)
  then show ?case using queued_reply[of exec audit q d]
    by (simp add: process_writes_single case_prod_beta)
next
  case (run q rest d)
  then show ?case
    using admission_run_replies[of exec audit q "takeWhile is_batchable_message_admission rest" d]
    by (simp add: process_writes_run case_prod_beta) (simp flip: map_append)
qed simp

lemma batch_replies:
  "map fst (snd (process_batch exec audit env opened committed batch d)) = map qw_reply batch"
  using writes_replies[of exec audit batch d]
  by (auto simp: process_batch_def Let_def comp_def case_prod_beta split: option.splits)

section \<open>Grouping changes nothing but the savepoints\<close>

definition no_sql_fault :: "QueuedWrite \<Rightarrow> bool" where
  "no_sql_fault q \<longleftrightarrow> qw_open q = None \<and> qw_commit q = None \<and> qw_group_open q = None
     \<and> qw_group_commit q = None"

lemma execute_group_each:
  assumes "execute_group exec ws d = Some (d', rs)" "list_all no_sql_fault ws"
  shows "process_each exec audit ws d = (d', map (\<lambda>(queued, result). (qw_reply queued,
           Inr \<lparr>cw_operation = Inr result, cw_task_events = []\<rparr>)) (zip ws rs))"
  using assms
  by (induction ws arbitrary: d rs)
     (auto simp: process_queued_write_def finalize_queued_write_def commit_savepoint_def no_sql_fault_def
       split: sum.splits option.splits)

lemma group_each:
  assumes "list_all no_sql_fault ws" "ws \<noteq> []"
  shows "process_message_admission_group exec audit ws d =
     process_each exec audit (if execute_group exec ws d = None then map replayed ws else ws) d"
proof -
  have "no_sql_fault (hd ws)" using assms by (cases ws) auto
  then show ?thesis
    using execute_group_each[of exec ws d _ _ audit] assms(1)
    by (auto simp: process_message_admission_group_def Let_def no_sql_fault_def split: option.splits)
qed

lemma each_append:
  "process_each exec audit (xs @ ys) d =
     (let (d1, r1) = process_each exec audit xs d; (d2, r2) = process_each exec audit ys d1
      in (d2, r1 @ r2))"
  by (induction xs arbitrary: d) (simp_all add: Let_def case_prod_beta)

text \<open>A write as submitted, or its replay.\<close>

definition attempt :: "QueuedWrite \<Rightarrow> QueuedWrite \<Rightarrow> bool" where
  "attempt q q' \<longleftrightarrow> q' = q \<or> q' = replayed q"

lemma attempt_refl [simp]: "attempt q q"
  by (simp add: attempt_def)

lemma attempts: "list_all2 attempt ws ws" "list_all2 attempt ws (map replayed ws)"
  by (auto simp: attempt_def list_all2_map2 list_all2_same)

lemma admission_run_each:
  assumes "list_all no_sql_fault (q # others)"
  shows "\<exists>xs. list_all2 attempt (q # others) xs \<and> admission_run exec audit q others d = process_each exec audit xs d"
proof (cases "others = []")
  case True
  then show ?thesis by (intro exI[of _ "[q]"]) (simp add: admission_run_def case_prod_beta)
next
  case False
  then have "admission_run exec audit q others d = process_each exec audit
      (if execute_group exec (q # others) d = None then map replayed (q # others) else q # others) d"
    using group_each[OF assms, of exec audit d] by (simp add: admission_run_def del: list.map process_each.simps)
  then show ?thesis using attempts[of "q # others"] by metis
qed

lemma writes_each:
  assumes "list_all no_sql_fault ws"
  shows "\<exists>ws'. list_all2 attempt ws ws' \<and> process_writes exec audit ws d = process_each exec audit ws' d"
  using assms
proof (induction ws d rule: writes_induct[where exec = exec and audit = audit])
  case (single q rest d)
  then obtain ws' where "list_all2 attempt rest ws'"
    "process_writes exec audit rest (fst (process_queued_write exec audit q d))
       = process_each exec audit ws' (fst (process_queued_write exec audit q d))"
    by auto
  then show ?case using single(1)
    by (intro exI[of _ "q # ws'"]) (simp add: process_writes_single case_prod_beta)
next
  case (run q rest d)
  let ?take = "takeWhile is_batchable_message_admission rest"
  let ?drop = "dropWhile is_batchable_message_admission rest"
  have split: "q # rest = (q # ?take) @ ?drop" by simp
  have nf: "list_all no_sql_fault (q # ?take)" "list_all no_sql_fault ?drop"
    using run(3) unfolding split list_all_append by auto
  obtain xs where xs: "list_all2 attempt (q # ?take) xs"
    "admission_run exec audit q ?take d = process_each exec audit xs d"
    using admission_run_each[OF nf(1)] by blast
  obtain ys where ys: "list_all2 attempt ?drop ys"
    "process_writes exec audit ?drop (fst (process_each exec audit xs d))
       = process_each exec audit ys (fst (process_each exec audit xs d))"
    using run(2)[OF nf(2)] xs(2) by auto
  have "process_writes exec audit (q # rest) d = process_each exec audit (xs @ ys) d"
    using xs(2) ys(2) run(1) by (simp add: process_writes_run each_append case_prod_beta)
  then show ?case using list_all2_appendI[OF xs(1) ys(1)] split by metis
qed simp

section \<open>What a reply carries\<close>

text \<open>A successful write carries no audit rows.\<close>

definition carriers_exclusive :: "AtmError + CommittedTaskWrite \<Rightarrow> bool" where
  "carriers_exclusive r \<longleftrightarrow>
     (case r of Inl _ \<Rightarrow> True
      | Inr c \<Rightarrow> (case cw_operation c of Inr _ \<Rightarrow> cw_task_events c = []
          | Inl _ \<Rightarrow> length (cw_task_events c) \<le> 1))"

lemma queued_carriers: "carriers_exclusive (snd (snd (process_queued_write exec audit q d)))"
  by (auto simp: process_queued_write_def carriers_exclusive_def
      split: option.splits sum.splits fault.splits prod.splits)

lemma each_carriers:
  "list_all (\<lambda>r. carriers_exclusive (snd r)) (snd (process_each exec audit ws d))"
  using queued_carriers by (induction ws arbitrary: d) (simp_all add: case_prod_beta)

lemma group_carriers:
  "list_all (\<lambda>r. carriers_exclusive (snd r)) (snd (process_message_admission_group exec audit ws d))"
  using each_carriers
  by (auto simp: process_message_admission_group_def Let_def carriers_exclusive_def list_all_iff
      split: option.splits dest: set_zip_leftD)

lemma writes_carriers:
  "list_all (\<lambda>r. carriers_exclusive (snd r)) (snd (process_writes exec audit ws d))"
proof (induction ws d rule: writes_induct[where exec = exec and audit = audit])
  case (run q rest d)
  have "list_all (\<lambda>r. carriers_exclusive (snd r))
      (snd (admission_run exec audit q (takeWhile is_batchable_message_admission rest) d))"
    using group_carriers queued_carriers by (simp add: admission_run_def Let_def case_prod_beta)
  then show ?case using run by (simp add: process_writes_run case_prod_beta)
qed (simp_all add: process_writes_single queued_carriers case_prod_beta)

lemma batch_carriers:
  "list_all (\<lambda>r. carriers_exclusive (snd r)) (snd (process_batch exec audit env opened committed batch d))"
  using writes_carriers[of exec audit batch d]
  by (auto simp: process_batch_def Let_def case_prod_beta list_all_iff finalize_committed_reply_def
      carriers_exclusive_def[of "Inl _"] split: option.splits sum.splits)

text \<open>A batch that is not committed leaves the store as it was and reports no success.\<close>

lemma batch_uncommitted:
  assumes "opened \<noteq> None \<or> committed \<noteq> None"
  shows "fst (process_batch exec audit env opened committed batch d) = d"
    "list_all (\<lambda>r. \<exists>e. snd r = Inl e) (snd (process_batch exec audit env opened committed batch d))"
  using assms
  by (auto simp: process_batch_def Let_def case_prod_beta list_all_iff finalize_committed_reply_def
      split: option.splits sum.splits)

section \<open>The contract of the operations\<close>

locale write_lane =
  fixes exec :: executor and audit :: auditor and inv :: "db \<Rightarrow> bool" and admissible :: "WriteOp \<Rightarrow> bool"
  assumes exec_inv: "exec env op d = Inr (d', r) \<Longrightarrow> inv d \<Longrightarrow> admissible op \<Longrightarrow> inv d'"
    and audit_inv: "audit env op e d = Inr (d', ev) \<Longrightarrow> inv d \<Longrightarrow> admissible op \<Longrightarrow> inv d'"
    and exec_sane: "inv d \<Longrightarrow> admissible op \<Longrightarrow> sane (exec env op d)"
begin

lemma queued_inv:
  assumes "inv d" "admissible (qw_op q)"
  shows "inv (fst (process_queued_write exec audit q d))"
proof (cases "exec (qw_env q) (qw_op q) d")
  case (Inl f)
  then show ?thesis
    using assms audit_inv[OF _ assms]
    by (auto simp: process_queued_write_def finalize_queued_write_def
        split: option.splits sum.splits fault.splits prod.splits)
next
  case (Inr x)
  then show ?thesis
    using assms exec_inv[OF _ assms]
    by (auto simp: process_queued_write_def finalize_queued_write_def commit_savepoint_def
        split: option.splits prod.splits)
qed

lemma each_inv:
  "inv d \<Longrightarrow> list_all (\<lambda>q. admissible (qw_op q)) ws \<Longrightarrow> inv (fst (process_each exec audit ws d))"
  by (induction ws arbitrary: d) (simp_all add: case_prod_beta queued_inv)

lemma execute_group_inv:
  "execute_group exec ws d = Some (d', rs) \<Longrightarrow> inv d \<Longrightarrow> list_all (\<lambda>q. admissible (qw_op q)) ws \<Longrightarrow> inv d'"
proof (induction ws arbitrary: d rs)
  case (Cons q ws)
  then obtain d1 r rs' where "exec (qw_env q) (qw_op q) d = Inr (d1, r)"
    "execute_group exec ws d1 = Some (d', rs')"
    by (auto split: sum.splits option.splits)
  then show ?case using Cons exec_inv by simp
qed simp

lemma group_inv:
  assumes "inv d" "list_all (\<lambda>q. admissible (qw_op q)) ws"
  shows "inv (fst (process_message_admission_group exec audit ws d))"
proof -
  have "list_all (\<lambda>q. admissible (qw_op q)) (map replayed ws)"
    using assms(2) by (simp add: list_all_iff replayed_def)
  then show ?thesis
    using assms each_inv execute_group_inv[of ws d]
    by (auto simp: process_message_admission_group_def Let_def split: option.splits)
qed

lemma writes_inv:
  "inv d \<Longrightarrow> list_all (\<lambda>q. admissible (qw_op q)) ws \<Longrightarrow> inv (fst (process_writes exec audit ws d))"
proof (induction ws d rule: writes_induct[where exec = exec and audit = audit])
  case (single q rest d)
  then show ?case by (simp add: process_writes_single case_prod_beta queued_inv)
next
  case (run q rest d)
  have ok: "list_all (\<lambda>q. admissible (qw_op q)) (takeWhile is_batchable_message_admission rest)"
    "list_all (\<lambda>q. admissible (qw_op q)) (dropWhile is_batchable_message_admission rest)"
    using run.prems(2) by (auto simp: list_all_iff dest: set_takeWhileD set_dropWhileD)
  then have "inv (fst (admission_run exec audit q (takeWhile is_batchable_message_admission rest) d))"
    using run.prems queued_inv group_inv by (simp add: admission_run_def Let_def case_prod_beta)
  then show ?case using run ok(2) by (simp add: process_writes_run case_prod_beta)
qed simp

lemma batch_inv:
  assumes "inv d" "list_all (\<lambda>q. admissible (qw_op q)) batch"
  shows "inv (fst (process_batch exec audit env opened committed batch d))"
  using assms writes_inv[OF assms]
  by (auto simp: process_batch_def Let_def case_prod_beta split: option.splits)

text \<open>The reply of one write without SQLite faults: its result, or its error with the store of
  before and the audit row.\<close>

lemma queued_outcome:
  assumes "inv d" "admissible (qw_op q)" "no_sql_fault q"
  shows "process_queued_write exec audit q d =
    (case exec (qw_env q) (qw_op q) d of
       Inr (d', r) \<Rightarrow> (d', qw_reply q, Inr \<lparr>cw_operation = Inr r, cw_task_events = []\<rparr>)
     | Inl f \<Rightarrow>
        (case audit (qw_env q) (qw_op q) (case f of Fail e \<Rightarrow> e) d of
           Inr (d1, ev) \<Rightarrow> (d1, qw_reply q,
             Inr \<lparr>cw_operation = Inl (case f of Fail e \<Rightarrow> e),
                  cw_task_events = (case ev of Some e \<Rightarrow> [e] | None \<Rightarrow> [])\<rparr>)
         | Inl ae \<Rightarrow> (d, qw_reply q, Inl ae)))"
  using exec_sane[OF assms(1,2), of "qw_env q"] assms(3)
  by (auto simp: process_queued_write_def finalize_queued_write_def commit_savepoint_def
      no_sql_fault_def sane_def split: option.splits sum.splits fault.splits prod.splits)

end

interpretation lane: write_lane execute append_rejected_task_event store_ok op_ok
  by unfold_locales (rule execute_store_ok audit_store_ok execute_sane; assumption)+

end
