(* ===== verification/Writer_Lane.thy ===== *)
theory Writer_Lane
  imports Writer_Batch
begin

text \<open>
  The writer thread and its bounded channel (\<^verbatim>\<open>writer/batch.rs\<close>, \<^verbatim>\<open>writer/mod.rs\<close>,
  \<^verbatim>\<open>writer/shutdown_support.rs\<close>) as a step relation: producers send, the thread receives,
  collects a batch, processes it, and drains the channel on shutdown.
\<close>

section \<open>The channel\<close>

datatype WriterMessage = Submit QueuedWrite | Shutdown

datatype TryRecv = Received WriterMessage | Empty | Disconnected

definition CHANNEL_CAPACITY :: nat where
  "CHANNEL_CAPACITY = 256"

text \<open>What the thread is doing: waiting for work, collecting a batch, answering what is left in
  the channel, or gone.\<close>

datatype Phase = Receiving | Collecting "QueuedWrite list" | Draining | Stopped

record lane =
  ln_queue :: "WriterMessage list"
  ln_closed :: bool
  ln_shutting_down :: bool
  ln_phase :: Phase
  ln_db :: db
  ln_replies :: "write_reply list"

definition try_recv :: "lane \<Rightarrow> TryRecv" where
  "try_recv s = (case ln_queue s of
      m # _ \<Rightarrow> Received m
    | [] \<Rightarrow> if ln_closed s then Disconnected else Empty)"

definition pop :: "lane \<Rightarrow> lane" where
  "pop s = s\<lparr>ln_queue := tl (ln_queue s)\<rparr>"

section \<open>The thread\<close>

text \<open>\<open>None\<close> is a thread that waits: an empty channel with a sender.\<close>

definition receive_next_work :: "lane \<Rightarrow> lane option" where
  "receive_next_work s =
     (case try_recv s of
        Received (Submit queued) \<Rightarrow> Some ((pop s)\<lparr>ln_phase := Collecting [queued]\<rparr>)
      | Received Shutdown \<Rightarrow> Some ((pop s)\<lparr>ln_phase := Draining\<rparr>)
      | Disconnected \<Rightarrow> Some (s\<lparr>ln_phase := Stopped\<rparr>)
      | Empty \<Rightarrow> if ln_shutting_down s then Some (s\<lparr>ln_phase := Stopped\<rparr>) else None)"

definition writer_unavailable_reply_error :: AtmError where
  "writer_unavailable_reply_error = err_daemon_unavailable ''sqlite writer is unavailable during shutdown''"

definition drain_submit_replies :: "lane \<Rightarrow> lane" where
  "drain_submit_replies s =
     (case try_recv s of
        Received (Submit queued) \<Rightarrow>
          (pop s)\<lparr>ln_replies := ln_replies s @ [(qw_reply queued, Inl writer_unavailable_reply_error)]\<rparr>
      | Received Shutdown \<Rightarrow> pop s
      | _ \<Rightarrow> s\<lparr>ln_phase := Stopped\<rparr>)"

text \<open>One batch is processed with the connection held, so nothing interleaves with it.
  \<open>opened\<close> and \<open>committed\<close> are SQLite's answers.\<close>

definition run_batch ::
  "env \<Rightarrow> sql_error option \<Rightarrow> sql_error option \<Rightarrow> QueuedWrite list \<Rightarrow> lane \<Rightarrow> lane" where
  "run_batch env opened committed batch s =
     (let (d1, replies) = process_batch execute append_rejected_task_event env opened committed batch (ln_db s)
      in s\<lparr>ln_db := d1, ln_replies := ln_replies s @ replies, ln_phase := Receiving\<rparr>)"

text \<open>One iteration of the collecting loop; \<open>expired\<close> says whether the deadline has passed.\<close>

definition collect_batch ::
  "env \<Rightarrow> sql_error option \<Rightarrow> sql_error option \<Rightarrow> bool \<Rightarrow> QueuedWrite list \<Rightarrow> lane \<Rightarrow> lane" where
  "collect_batch env opened committed expired batch s =
     (case try_recv s of
        Received (Submit queued) \<Rightarrow> (pop s)\<lparr>ln_phase := Collecting (batch @ [queued])\<rparr>
      | Received Shutdown \<Rightarrow> (pop s)\<lparr>ln_shutting_down := True\<rparr>
      | Disconnected \<Rightarrow> run_batch env opened committed batch (s\<lparr>ln_shutting_down := True\<rparr>)
      | Empty \<Rightarrow>
          if ln_shutting_down s \<or> expired then run_batch env opened committed batch s else s)"

definition writer_loop ::
  "env \<Rightarrow> sql_error option \<Rightarrow> sql_error option \<Rightarrow> bool \<Rightarrow> lane \<Rightarrow> lane option" where
  "writer_loop env opened committed expired s =
     (case ln_phase s of
        Receiving \<Rightarrow> receive_next_work s
      | Collecting batch \<Rightarrow> Some (collect_batch env opened committed expired batch s)
      | Draining \<Rightarrow> Some (drain_submit_replies s)
      | Stopped \<Rightarrow> None)"

section \<open>Producers and the step relation\<close>

text \<open>\<^verbatim>\<open>try_send\<close>: refused when the channel is full or has no sender.\<close>

definition try_send :: "WriterMessage \<Rightarrow> lane \<Rightarrow> lane option" where
  "try_send m s =
     (if ln_closed s \<or> length (ln_queue s) \<ge> CHANNEL_CAPACITY then None
      else Some (s\<lparr>ln_queue := ln_queue s @ [m]\<rparr>))"

text \<open>Dropping the writer: a shutdown signal when there is room, then the sender goes.\<close>

definition drop_writer :: "lane \<Rightarrow> lane" where
  "drop_writer s = (case try_send Shutdown s of Some s' \<Rightarrow> s' | None \<Rightarrow> s)\<lparr>ln_closed := True\<rparr>"

inductive lane_run :: "lane \<Rightarrow> QueuedWrite list \<Rightarrow> lane \<Rightarrow> bool" for s0 where
  start: "lane_run s0 [] s0"
| submit: "lane_run s0 ws s \<Longrightarrow> try_send (Submit q) s = Some s' \<Longrightarrow> lane_run s0 (ws @ [q]) s'"
| close: "lane_run s0 ws s \<Longrightarrow> lane_run s0 ws (drop_writer s)"
| work: "lane_run s0 ws s \<Longrightarrow> writer_loop env opened committed expired s = Some s' \<Longrightarrow> lane_run s0 ws s'"

definition initial_lane :: "db \<Rightarrow> lane" where
  "initial_lane d = \<lparr>ln_queue = [], ln_closed = False, ln_shutting_down = False,
     ln_phase = Receiving, ln_db = d, ln_replies = []\<rparr>"

section \<open>Every accepted write is answered once, in order\<close>

fun submits :: "WriterMessage list \<Rightarrow> QueuedWrite list" where
  "submits [] = []"
| "submits (Submit q # ms) = q # submits ms"
| "submits (Shutdown # ms) = submits ms"

lemma submits_append [simp]: "submits (xs @ ys) = submits xs @ submits ys"
  by (induction xs rule: submits.induct) simp_all

definition collected :: "lane \<Rightarrow> QueuedWrite list" where
  "collected s = (case ln_phase s of Collecting batch \<Rightarrow> batch | _ \<Rightarrow> [])"

text \<open>The answered writes, those of the batch and those in the channel, in the order accepted.\<close>

definition answered :: "lane \<Rightarrow> nat list" where
  "answered s = map fst (ln_replies s) @ map qw_reply (collected s) @ map qw_reply (submits (ln_queue s))"

lemma answered_send: "try_send (Submit q) s = Some s' \<Longrightarrow> answered s' = answered s @ [qw_reply q]"
  by (auto simp: try_send_def answered_def collected_def split: if_splits)

lemma answered_drop [simp]: "answered (drop_writer s) = answered s"
  by (auto simp: drop_writer_def try_send_def answered_def collected_def)

lemma answered_batch:
  "ln_phase s = Collecting batch \<Longrightarrow> answered (run_batch env opened committed batch s) = answered s"
  using batch_replies[of execute append_rejected_task_event env opened committed batch "ln_db s"]
  by (auto simp: run_batch_def answered_def collected_def split: prod.splits)

lemma answered_shutting [simp]: "answered (s\<lparr>ln_shutting_down := b\<rparr>) = answered s"
  by (simp add: answered_def collected_def)

lemma answered_work:
  assumes "writer_loop env opened committed expired s = Some s'"
  shows "answered s' = answered s"
proof (cases "ln_phase s")
  case Receiving
  then show ?thesis using assms
    by (auto simp: writer_loop_def receive_next_work_def try_recv_def pop_def answered_def collected_def
        split: list.splits WriterMessage.splits if_splits)
next
  case (Collecting batch)
  then show ?thesis
    using assms answered_batch[of s batch] answered_batch[of "s\<lparr>ln_shutting_down := True\<rparr>" batch]
    by (auto simp: writer_loop_def collect_batch_def try_recv_def pop_def
        split: list.splits WriterMessage.splits if_splits)
       (auto simp: answered_def collected_def)
next
  case Draining
  then show ?thesis using assms
    by (auto simp: writer_loop_def drain_submit_replies_def try_recv_def pop_def answered_def collected_def
        split: list.splits WriterMessage.splits if_splits)
qed (use assms in \<open>simp add: writer_loop_def\<close>)

lemma answered_initial [simp]: "answered (initial_lane d) = []"
  by (simp add: initial_lane_def answered_def collected_def)

lemma lane_answered: "lane_run (initial_lane d) ws s \<Longrightarrow> answered s = map qw_reply ws"
  by (induction rule: lane_run.induct) (simp_all add: answered_send answered_work)

text \<open>The thread stops on an empty channel only.\<close>

lemma stop_empty:
  assumes "writer_loop env opened committed expired s = Some s'" "ln_phase s' = Stopped"
  shows "ln_queue s' = []" "collected s' = []"
proof -
  have "ln_phase (run_batch env opened committed batch x) \<noteq> Stopped" for batch x
    by (simp add: run_batch_def split: prod.splits)
  then show "ln_queue s' = []"
    using assms
    by (auto simp: writer_loop_def receive_next_work_def collect_batch_def drain_submit_replies_def
        try_recv_def pop_def split: Phase.splits list.splits WriterMessage.splits if_splits)
  show "collected s' = []" using assms(2) by (simp add: collected_def)
qed

lemma lane_stop_replies:
  assumes "lane_run (initial_lane d) ws s" "writer_loop env opened committed expired s = Some s'"
    "ln_phase s' = Stopped"
  shows "map fst (ln_replies s') = map qw_reply ws"
  using lane_answered[OF lane_run.work[OF assms(1,2)]] stop_empty[OF assms(2,3)]
  by (simp add: answered_def)

section \<open>Bounds and the store\<close>

lemma run_batch_queue [simp]: "ln_queue (run_batch env opened committed batch s) = ln_queue s"
  "ln_closed (run_batch env opened committed batch s) = ln_closed s"
  by (simp_all add: run_batch_def split: prod.splits)

lemma work_queue:
  assumes "writer_loop env opened committed expired s = Some s'"
  shows "ln_queue s' = ln_queue s \<or> ln_queue s' = tl (ln_queue s)" "ln_closed s' = ln_closed s"
  using assms
  by (auto simp: writer_loop_def receive_next_work_def collect_batch_def drain_submit_replies_def
      try_recv_def pop_def split: Phase.splits list.splits WriterMessage.splits if_splits)

lemma lane_capacity:
  "lane_run (initial_lane d) ws s \<Longrightarrow> length (ln_queue s) \<le> CHANNEL_CAPACITY"
proof (induction rule: lane_run.induct)
  case (work ws s env opened committed expired s')
  then show ?case using work_queue(1)[OF work(2)] by auto
qed (auto simp: initial_lane_def try_send_def drop_writer_def split: if_splits)

definition writes_ok :: "lane \<Rightarrow> bool" where
  "writes_ok s \<longleftrightarrow> list_all (\<lambda>q. op_ok (qw_op q)) (collected s @ submits (ln_queue s))"

lemma run_batch_ok:
  assumes "store_ok (ln_db s)" "writes_ok s" "ln_phase s = Collecting batch"
  shows "store_ok (ln_db (run_batch env opened committed batch s))"
    "writes_ok (run_batch env opened committed batch s)"
  using assms lane.batch_inv[of "ln_db s" batch env opened committed]
  by (auto simp: run_batch_def writes_ok_def collected_def split: prod.splits)

lemma work_ok:
  assumes "writer_loop env opened committed expired s = Some s'" "store_ok (ln_db s)" "writes_ok s"
  shows "store_ok (ln_db s') \<and> writes_ok s'"
proof (cases "ln_phase s")
  case (Collecting batch)
  let ?t = "s\<lparr>ln_shutting_down := True\<rparr>"
  have "writes_ok ?t" using assms(3) by (simp add: writes_ok_def collected_def)
  then show ?thesis
    using assms Collecting run_batch_ok[of s batch] run_batch_ok[of ?t batch]
    by (auto simp: writer_loop_def collect_batch_def try_recv_def pop_def
        split: list.splits WriterMessage.splits if_splits)
       (auto simp: writes_ok_def collected_def)
qed (use assms in \<open>auto simp: writer_loop_def receive_next_work_def drain_submit_replies_def try_recv_def
    pop_def writes_ok_def collected_def split: list.splits WriterMessage.splits if_splits\<close>)

lemma lane_store_ok:
  "lane_run (initial_lane d) ws s \<Longrightarrow> store_ok d \<Longrightarrow> list_all (\<lambda>q. op_ok (qw_op q)) ws \<Longrightarrow>
   store_ok (ln_db s) \<and> writes_ok s"
proof (induction rule: lane_run.induct)
  case (submit ws s q s')
  then show ?case by (auto simp: try_send_def writes_ok_def collected_def split: if_splits)
next
  case (work ws s env opened committed expired s')
  then show ?case using work_ok[OF work(2)] by blast
qed (auto simp: initial_lane_def drop_writer_def try_send_def writes_ok_def collected_def)

section \<open>Shutdown\<close>

type_synonym turn = "env \<times> sql_error option \<times> sql_error option \<times> bool"

fun run_thread :: "turn list \<Rightarrow> lane \<Rightarrow> lane" where
  "run_thread [] s = s"
| "run_thread ((env, opened, committed, expired) # turns) s =
     (case writer_loop env opened committed expired s of
        Some s' \<Rightarrow> run_thread turns s'
      | None \<Rightarrow> s)"

text \<open>The turns a closed lane still takes.\<close>

definition lane_work :: "lane \<Rightarrow> nat" where
  "lane_work s = 2 * length (ln_queue s) + (case ln_phase s of
     Receiving \<Rightarrow> 1 | Collecting _ \<Rightarrow> 2 | Draining \<Rightarrow> 1 | Stopped \<Rightarrow> 0)"

lemma closed_progress:
  assumes "ln_closed s" "ln_phase s \<noteq> Stopped"
  obtains s' where "writer_loop env opened committed expired s = Some s'" "lane_work s' < lane_work s"
proof -
  have b: "lane_work (run_batch env opened committed batch x) = 2 * length (ln_queue x) + 1" for batch x
    by (simp add: run_batch_def lane_work_def split: prod.splits)
  have "receive_next_work s \<noteq> None"
    using assms(1) by (auto simp: receive_next_work_def try_recv_def split: list.split WriterMessage.split)
  then obtain s' where s': "writer_loop env opened committed expired s = Some s'"
    using assms(2) by (cases "ln_phase s") (auto simp: writer_loop_def)
  moreover have "lane_work s' < lane_work s"
    using s' assms
    by (auto simp: writer_loop_def receive_next_work_def collect_batch_def drain_submit_replies_def
        try_recv_def pop_def b split: Phase.splits list.splits WriterMessage.splits if_splits)
       (simp_all add: lane_work_def)
  ultimately show thesis by (rule that)
qed

lemma closed_stops:
  "ln_closed s \<Longrightarrow> lane_work s \<le> length turns \<Longrightarrow> ln_phase (run_thread turns s) = Stopped"
proof (induction turns arbitrary: s)
  case Nil
  then show ?case by (auto simp: lane_work_def split: Phase.splits)
next
  case (Cons t turns)
  obtain env opened committed expired where t: "t = (env, opened, committed, expired)" by (cases t)
  show ?case
  proof (cases "ln_phase s = Stopped")
    case True
    then show ?thesis by (simp add: t writer_loop_def)
  next
    case False
    then obtain s' where "writer_loop env opened committed expired s = Some s'" "lane_work s' < lane_work s"
      using closed_progress Cons.prems(1) by blast
    then show ?thesis using Cons work_queue(2) by (auto simp: t)
  qed
qed

lemma run_thread_run:
  "lane_run s0 ws s \<Longrightarrow> lane_run s0 ws (run_thread turns s)"
  by (induction turns s rule: run_thread.induct) (auto split: option.splits intro: lane_run.work)

lemma run_thread_stopped: "ln_phase s = Stopped \<Longrightarrow> run_thread turns s = s"
  by (cases turns) (auto simp: writer_loop_def)

text \<open>A thread that ran into its end found the channel empty.\<close>

lemma run_thread_stop:
  "ln_phase s \<noteq> Stopped \<Longrightarrow> ln_phase (run_thread turns s) = Stopped \<Longrightarrow> ln_queue (run_thread turns s) = []"
proof (induction turns arbitrary: s)
  case (Cons t turns)
  obtain env opened committed expired where t: "t = (env, opened, committed, expired)" by (cases t)
  show ?case
  proof (cases "writer_loop env opened committed expired s")
    case None
    then show ?thesis using Cons.prems by (simp add: t)
  next
    case (Some s')
    then show ?thesis
      using Cons stop_empty(1)[OF Some] run_thread_stopped[of s' turns]
      by (cases "ln_phase s' = Stopped") (simp_all add: t)
  qed
qed simp

end
