(* ===== verification/Scenario.thy ===== *)
theory Scenario
  imports Writer_Lane "HOL-Library.Code_Target_Nat"
begin

text \<open>
  A concrete store on which the properties are instantiated: the lead \<open>L\<close> assigns the tasks
  \<open>a\<close> and \<open>b\<close> to the worker \<open>W\<close>, who starts and closes \<open>b\<close>.
\<close>

definition env0 :: env where
  "env0 = \<lparr>env_now = 100, env_new_id = 9, env_id_time = (\<lambda>i. int i), env_ulid_str = (\<lambda>i. ''n''),
     env_json_len = (\<lambda>_. 1), env_parse_json = (\<lambda>_. None), env_sql_display = (\<lambda>_. ''sql'')\<rparr>"

definition empty_db :: db where
  "empty_db = \<lparr>db_tasks = [], db_task_events = [], db_mail_messages = [], db_mail_states = [],
     db_search = [], db_watermarks = [], db_roster = [], db_cron_schedule = []\<rparr>"

definition letter :: "string \<Rightarrow> string \<Rightarrow> nat \<Rightarrow> TaskId \<Rightarrow> TaskOp option \<Rightarrow> Message" where
  "letter from to n i op = \<lparr>msg_team = ''t'', msg_agent = to, msg_message_key = ''atm:'' @ nat_str n,
     msg_envelope = \<lparr>me_from = from, me_source_chat_id = None, me_text = ''x'', me_timestamp = int n,
       me_read = False, me_source_team = None, me_destination_chat_id = None, me_summary = None,
       me_message_id = Some n, me_requires_ack = False, me_pending_ack_at = None,
       me_acknowledged_at = None, me_acknowledges_message_id = None, me_parent_message_id = None,
       me_thread_mode = None, me_expires_at = None, me_task_id = Some i, me_placement = None,
       me_task_op = op, me_task_complete = None, me_extra = []\<rparr>\<rparr>"

definition db_after :: "WriteOp \<Rightarrow> db \<Rightarrow> db" where
  "db_after op d = (case execute env0 op d of Inr (d1, _) \<Rightarrow> d1 | Inl _ \<Rightarrow> d)"

definition letter_a :: Message where "letter_a = letter ''L'' ''W'' 1 ''a'' None"
definition letter_b :: Message where "letter_b = letter ''L'' ''W'' 2 ''b'' None"
definition start_b :: Message where "start_b = letter ''W'' ''L'' 3 ''b'' (Some Start)"
definition close_b :: Message where "close_b = letter ''W'' ''L'' 4 ''b'' (Some (Close Completed None))"

definition db1 :: db where "db1 = db_after (UpsertMessage letter_a Local) empty_db"
definition db2 :: db where "db2 = db_after (UpsertMessage letter_b Local) db1"
definition db3 :: db where "db3 = db_after (UpsertMessage start_b Local) db2"
definition db4 :: db where "db4 = db_after (UpsertMessage close_b Local) db3"

lemma op_ok_upsert [simp]: "op_ok (UpsertMessage m p) = valid_message m"
  by (simp add: op_ok_def)

lemma pred_option_code [code]: "pred_option P None = True" "pred_option P (Some x) = P x"
  by simp_all

lemma letters_valid [simp]:
  "valid_message letter_a" "valid_message letter_b" "valid_message start_b" "valid_message close_b"
  by code_simp+

text \<open>Evaluating whether a computation succeeds, without its result.\<close>

definition runs :: "'e + 'a \<Rightarrow> bool" where
  "runs m = (case m of Inr _ \<Rightarrow> True | Inl _ \<Rightarrow> False)"

lemma runs_Inr: "runs m \<Longrightarrow> \<exists>x. m = Inr x"
  by (cases m) (simp_all add: runs_def)

lemma empty_db_ok [simp]: "store_ok empty_db"
  by (simp add: store_ok_def empty_db_def ledger_ok_def events_ok_def mail_ok_def table_ok_def tasks_ok_def
      contiguous_def started_lead_def positions_upto_def qrows_def task_seqs_def)

lemma db_after_ok: "store_ok d \<Longrightarrow> op_ok op \<Longrightarrow> store_ok (db_after op d)"
  by (auto simp: db_after_def split: sum.splits dest: execute_store_ok)

lemma dbs_ok [simp]: "store_ok db1" "store_ok db2" "store_ok db3" "store_ok db4"
  by (simp_all add: db1_def db2_def db3_def db4_def db_after_ok)

end
