(* ===== verification/Ledger_Properties.thy ===== *)
theory Ledger_Properties
  imports Scenario
begin

text \<open>
  The properties of the task ledger and of the operations of the writer: the invariant of the
  store, the limit on active tasks, the queue after each operation, the event log and the error
  paths.
\<close>

section \<open>The number of active tasks\<close>

definition active_count :: "TeamName \<Rightarrow> AgentName \<Rightarrow> TaskCols list \<Rightarrow> nat" where
  "active_count team a ts =
     length (filter (\<lambda>r. tc_team r = team \<and> tc_assignee r = a \<and> tc_state r = ''active'') ts)"

lemma state_rows:
  assumes "tasks_ok ts"
  shows "length (filter (\<lambda>r. tc_state r = s \<and> P (tc_task_id r)) (qrows team a ts))
    = length (filter (\<lambda>j. state_of ts team j = s \<and> P j) (queue_ids team a ts))"
proof -
  have "tc_state r = state_of ts team (tc_task_id r)" if "r \<in> set (qrows team a ts)" for r
    using state_of_eqI[OF assms, of r team "tc_task_id r"] that by (auto simp: member_open_def is_task_def)
  then have "filter (\<lambda>r. tc_state r = s \<and> P (tc_task_id r)) (qrows team a ts)
      = filter ((\<lambda>j. state_of ts team j = s \<and> P j) \<circ> tc_task_id) (qrows team a ts)"
    by (intro filter_cong) simp_all
  then show ?thesis unfolding queue_ids_def filter_map by (simp only: length_map)
qed

lemma active_rows:
  assumes "tasks_ok ts"
  shows "length (filter (\<lambda>r. tc_team r = team \<and> tc_assignee r = a \<and> tc_state r = ''active'' \<and> P (tc_task_id r)) ts)
    = length (filter (\<lambda>j. state_of ts team j = ''active'' \<and> P j) (queue_ids team a ts))"
proof -
  have rows: "filter (\<lambda>r. tc_team r = team \<and> tc_assignee r = a \<and> tc_state r = ''active'' \<and> P (tc_task_id r)) ts
      = filter (\<lambda>r. tc_state r = ''active'' \<and> P (tc_task_id r)) (filter (member_open team a) ts)"
    unfolding filter_filter by (rule filter_cong) (auto simp: member_open_def row_open_def)
  have "length (filter (\<lambda>r. tc_state r = ''active'' \<and> P (tc_task_id r)) (filter (member_open team a) ts))
      = length (filter (\<lambda>r. tc_state r = ''active'' \<and> P (tc_task_id r)) (qrows team a ts))"
    unfolding qrows_def filter_sort by simp
  then show ?thesis unfolding rows state_rows[OF assms, of "''active''" P team a, symmetric] .
qed

lemma length_filter_insert_at:
  "length (filter P (insert_at k x xs)) = length (filter P xs) + (if P x then 1 else 0)"
proof -
  have "length (filter P (take k xs)) + length (filter P (drop k xs)) = length (filter P xs)"
    by (metis append_take_drop_id filter_append length_append)
  then show ?thesis by (simp add: insert_at_def)
qed

lemma start_active_count:
  assumes ok: "ledger_ok (db_tasks d)" and run: "apply_task_start env record i d = Inr (d', who, event)"
  shows "active_count (msg_team record) who (db_tasks d') = other_active_count (msg_team record) who i d + 1"
proof -
  let ?team = "msg_team record" and ?f = "state_of (db_tasks d) (msg_team record)"
  note s = start_ledger[OF ok run]
  have tok: "tasks_ok (db_tasks d)" "tasks_ok (db_tasks d')" using ok s(1) by (simp_all add: ledger_ok_def)
  let ?rest = "filter (\<lambda>j. j \<noteq> i) (queue_ids ?team who (db_tasks d))"
  have rest: "filter (\<lambda>j. state_of (db_tasks d') ?team j = ''active'') ?rest
      = filter (\<lambda>j. ?f j = ''active'' \<and> j \<noteq> i) (queue_ids ?team who (db_tasks d))"
    unfolding filter_filter by (intro filter_cong refl) (auto simp: s(3))
  have "active_count ?team who (db_tasks d')
      = length (filter (\<lambda>j. state_of (db_tasks d') ?team j = ''active'') (queue_ids ?team who (db_tasks d')))"
    using active_rows[OF tok(2), of ?team who "\<lambda>_. True"] by (simp add: active_count_def)
  also have "\<dots> = length (filter (\<lambda>j. state_of (db_tasks d') ?team j = ''active'') ?rest) + 1"
    unfolding s(2) length_filter_insert_at by (simp add: s(3))
  also have "\<dots> = other_active_count ?team who i d + 1"
    unfolding rest using active_rows[OF tok(1), of ?team who "\<lambda>j. j \<noteq> i"] by (simp add: other_active_count_def)
  finally show ?thesis .
qed

section \<open>The invariant of the store\<close>

lemma audit_frame:
  assumes "append_rejected_task_event env op e d = Inr (d', ev)"
  shows "db_tasks d' = db_tasks d" "db_mail_messages d' = db_mail_messages d"
  using assms append_task_event_frame(2,3)
  by (auto simp: append_rejected_task_event_def bindE_eq_Inr_iff simp del: append_Cons
      split: if_split_asm option.split_asm)



text \<open>
  Recording the rejection of a write keeps the store in order and changes neither
  the tasks nor the stored messages.
\<close>

lemma audit_keeps_store:
  assumes "store_ok d" "op_ok op" "append_rejected_task_event env op e d = Inr (d', ev)"
  shows "store_ok d' \<and> db_tasks d' = db_tasks d \<and> db_mail_messages d' = db_mail_messages d"
  using audit_store_ok[OF assms(3,1,2)] audit_frame[OF assms(3)] by simp

lemma audit_keeps_store_example:
  "\<exists>d' ev. append_rejected_task_event env0 (UpsertMessage start_b Local) (task_not_found ''x'') db2
      = Inr (d', Some ev) \<and> store_ok d' \<and> db_tasks d' = db_tasks db2"
proof -
  have "(case append_rejected_task_event env0 (UpsertMessage start_b Local) (task_not_found ''x'') db2 of
      Inr (_, Some _) \<Rightarrow> True | _ \<Rightarrow> False)" by code_simp
  then obtain d' ev where run:
    "append_rejected_task_event env0 (UpsertMessage start_b Local) (task_not_found ''x'') db2 = Inr (d', Some ev)"
    by (auto split: sum.splits option.splits)
  have "store_ok d' \<and> db_tasks d' = db_tasks db2 \<and> db_mail_messages d' = db_mail_messages db2"
    by (rule audit_keeps_store[OF _ _ run]) simp_all
  then show ?thesis using run by auto
qed

text \<open>
  Property C5: on a store in order no write operation panics, and the recursive admission of an
  acknowledged assignment never exceeds its bound.
\<close>

theorem execute_no_panic:
  assumes "store_ok d" "op_ok op"
  shows "execute env op d \<noteq> Inl Panic \<and> execute env op d \<noteq> Inl Unbounded"
  using execute_sane[OF assms] by (simp add: sane_def)

theorem execute_no_panic_witness:
  "store_ok db3 \<and> op_ok (UpsertMessage close_b Local)
     \<and> execute env0 (UpsertMessage close_b Local) db3 \<noteq> Inl Panic"
  using execute_no_panic[of db3 "UpsertMessage close_b Local" env0] by simp

text \<open>
  Property C6: the bound of two on nested admissions is enough: every larger bound gives the
  same result.
\<close>

theorem admission_bound_enough:
  assumes "store_ok d" "valid_message record"
  shows "upsert_bounded env (n + 2) record p d = execute_upsert_message env record p d"
  using upsert_sane(2)[OF assms, of env n p 0] by (simp add: execute_upsert_message_def numeral_2_eq_2)

theorem admission_bound_enough_witness:
  "store_ok db3 \<and> valid_message close_b
     \<and> upsert_bounded env0 (5 + 2) close_b Local db3 = execute_upsert_message env0 close_b Local db3"
  using admission_bound_enough[of db3 close_b env0 5 Local] by simp

section \<open>Starting\<close>

lemma start_b_runs: "runs (apply_task_start env0 start_b ''b'' db2)"
  by code_simp

text \<open>
  Property C2: after a start the member has at most as many active tasks as the member's limit
  allows.
\<close>

theorem start_within_limit:
  assumes "store_ok d" "apply_task_start env record i d = Inr (d', who, event)"
  shows "\<exists>mx. member_max_tasks env record who d = Inr mx
    \<and> active_count (msg_team record) who (db_tasks d') \<le> unat mx"
proof -
  obtain mx where "member_max_tasks env record who d = Inr mx"
    "other_active_count (msg_team record) who i d < unat mx"
    by (rule apply_task_start_Inr[OF assms(2)]) blast
  then show ?thesis using start_active_count[OF _ assms(2)] assms(1) by (auto simp: store_ok_def)
qed

theorem start_within_limit_witness:
  "\<exists>d' who event mx. apply_task_start env0 start_b ''b'' db2 = Inr (d', who, event)
     \<and> member_max_tasks env0 start_b who db2 = Inr mx
     \<and> active_count (msg_team start_b) who (db_tasks d') \<le> unat mx"
proof -
  obtain d' who event where run: "apply_task_start env0 start_b ''b'' db2 = Inr (d', who, event)"
    using runs_Inr[OF start_b_runs] by auto
  show ?thesis using start_within_limit[OF _ run] run by auto
qed

text \<open>
  Property C7: a started task stands behind the member's other active tasks; the rest of the
  queue keeps its order and no other task changes state.
\<close>

theorem start_places_task:
  assumes "store_ok d" "apply_task_start env record i d = Inr (d', who, event)"
  shows "queue_ids (msg_team record) who (db_tasks d')
       = insert_at (other_active_count (msg_team record) who i d) i
           (filter (\<lambda>j. j \<noteq> i) (queue_ids (msg_team record) who (db_tasks d)))
    \<and> state_of (db_tasks d') (msg_team record) j
       = (if j = i then ''active'' else state_of (db_tasks d) (msg_team record) j)"
  using start_ledger(2,3)[OF _ assms(2)] assms(1) by (simp add: store_ok_def)

theorem start_places_task_witness:
  "\<exists>d' who event. apply_task_start env0 start_b ''b'' db2 = Inr (d', who, event)
     \<and> queue_ids ''t'' who (db_tasks d') = insert_at (other_active_count ''t'' who ''b'' db2) ''b''
         (filter (\<lambda>j. j \<noteq> ''b'') (queue_ids ''t'' who (db_tasks db2)))"
proof -
  obtain d' who event where run: "apply_task_start env0 start_b ''b'' db2 = Inr (d', who, event)"
    using runs_Inr[OF start_b_runs] by auto
  have "msg_team start_b = ''t''" by code_simp
  then show ?thesis using start_places_task[OF _ run] run by auto
qed

section \<open>Closing\<close>

lemma rejected_report_result:
  "deliver_rejected_close_report env record i row e d = Inr (d', r) \<Longrightarrow>
     \<exists>e' ev. r = RejectedReportDelivered e' ev \<and> te_event ev = KRejected \<and> db_tasks d' = db_tasks d"
  by (auto simp: deliver_rejected_close_report_def bindE_eq_Inr_iff append_task_event_def Let_def
      simp del: append_Cons)

lemma close_applied:
  assumes "apply_task_close env u record i outcome reason d = Inr (d', Applied None (Some who) None None [ev])"
  obtains row where "load_task_row env (msg_team record) i d = Inr (Some row)" "is_open (tr_state row)"
    "who = tr_assignee row"
    "{me_from (msg_envelope record), msg_agent record} = {tr_assignee row, tr_assigner row}"
    "persist_task_close env u record i outcome reason row (Complete outcome) d = Inr (d', ev)"
  using assms
proof (cases rule: apply_task_close_cases)
  case (rejected row e)
  then show thesis using rejected_report_result by blast
next
  case (closed row ev')
  then show thesis using that[of row] by (auto split: if_splits)
qed simp


text \<open>
  Property C8: a close is carried out for a message between the assignee and the assigner only;
  the task leaves the assignee's queue, the others keep their order and their states.
\<close>

theorem close_leaves_queue:
  assumes "store_ok d" "valid_message record"
    "apply_task_close env (upsert_bounded env n) record i outcome reason d
      = Inr (d', Applied None (Some who) None None [ev])"
  shows "(\<exists>row. load_task_row env (msg_team record) i d = Inr (Some row) \<and> who = tr_assignee row
      \<and> {me_from (msg_envelope record), msg_agent record} = {tr_assignee row, tr_assigner row})
    \<and> queue_ids (msg_team record) who (db_tasks d')
        = filter (\<lambda>j. j \<noteq> i) (queue_ids (msg_team record) who (db_tasks d))
    \<and> state_of (db_tasks d') (msg_team record) j
       = (if j = i then ''complete'' else state_of (db_tasks d) (msg_team record) j)"
proof -
  obtain row where row: "load_task_row env (msg_team record) i d = Inr (Some row)" "is_open (tr_state row)"
    "who = tr_assignee row"
    "{me_from (msg_envelope record), msg_agent record} = {tr_assignee row, tr_assigner row}"
    "persist_task_close env (upsert_bounded env n) record i outcome reason row (Complete outcome) d = Inr (d', ev)"
    by (rule close_applied[OF assms(3)])
  have l: "ledger_ok (db_tasks d)" "valid_segment (msg_team record)"
    using assms(1,2) by (simp_all add: store_ok_def valid_message_def)
  show ?thesis using close_ledger(2,3)[OF l row(1,2,5)] row by simp
qed

fun closed_for :: "AgentName \<Rightarrow> fault + (db \<times> TaskMessageResult) \<Rightarrow> bool" where
  "closed_for w (Inr (d, Applied None (Some x) None None [ev])) = (x = w)"
| "closed_for w _ = False"

theorem close_leaves_queue_witness:
  "\<exists>d' ev. apply_task_close env0 (upsert_bounded env0 1) close_b ''b'' Completed None db3
      = Inr (d', Applied None (Some ''W'') None None [ev])
     \<and> queue_ids ''t'' ''W'' (db_tasks d') = filter (\<lambda>j. j \<noteq> ''b'') (queue_ids ''t'' ''W'' (db_tasks db3))"
proof -
  have "closed_for ''W'' (apply_task_close env0 (upsert_bounded env0 1) close_b ''b'' Completed None db3)"
    by code_simp
  then obtain d' ev where run: "apply_task_close env0 (upsert_bounded env0 1) close_b ''b'' Completed None db3
      = Inr (d', Applied None (Some ''W'') None None [ev])"
    by (rule closed_for.elims(2)) blast
  have "msg_team close_b = ''t''" by code_simp
  then show ?thesis using close_leaves_queue[OF _ _ run] run by auto
qed




section \<open>Moving\<close>

lemma started_move:
  assumes run: "apply_task_move env team i actor tgt at d = Inr (d', rec)"
    and row: "load_task_row env team i d = Inr (Some row)" and st: "tr_state row = Active"
    and ok: "ledger_ok (db_tasks d)"
  shows "mv_assignee rec = tr_assignee row" "mv_to rec = mv_from rec"
    "queue_position_of (queue_ids team (tr_assignee row) (db_tasks d)) i = Inr (mv_to rec)"
    "db_tasks d' = db_tasks d"
proof -
  have q: "queue_order team (tr_assignee row) d = Inr (queue_ids team (tr_assignee row) (db_tasks d))"
    using ok by (intro queue_order_ok) (simp add: ledger_ok_def)
  from run obtain pos st' ev where
    "queue_position_of (queue_ids team (tr_assignee row) (db_tasks d)) i = Inr pos"
    "append_active_task_move env team i actor at row st' pos d = Inr (d', ev)"
    "rec = \<lparr>mv_assignee = tr_assignee row, mv_from = pos, mv_to = pos, mv_event = ev\<rparr>"
    unfolding apply_task_move_def row liftE_simps bindE_simps option.case
    by (auto simp: bindE_eq_Inr_iff st q simp del: append_Cons split: if_splits)
  then show "mv_assignee rec = tr_assignee row" "mv_to rec = mv_from rec"
    "queue_position_of (queue_ids team (tr_assignee row) (db_tasks d)) i = Inr (mv_to rec)"
    "db_tasks d' = db_tasks d"
    using append_task_event_frame(2) by (auto simp: append_active_task_move_def)
qed

text \<open>
  Property C10: a move reports the position the task has afterwards, the other tasks of the
  queue keep their order, and a started task stays where it is.
\<close>

theorem move_repositions:
  assumes "store_ok d" "apply_task_move env team i actor tgt at d = Inr (d', rec)"
  shows "queue_position_of (queue_ids team (mv_assignee rec) (db_tasks d')) i = Inr (mv_to rec)
    \<and> filter (\<lambda>j. j \<noteq> i) (queue_ids team (mv_assignee rec) (db_tasks d'))
        = filter (\<lambda>j. j \<noteq> i) (queue_ids team (mv_assignee rec) (db_tasks d))
    \<and> (state_of (db_tasks d) team i = ''active'' \<longrightarrow> db_tasks d' = db_tasks d)"
proof -
  have l: "ledger_ok (db_tasks d)" "tasks_ok (db_tasks d)" "list_all names_ok (db_tasks d)"
    using assms(1) by (simp_all add: store_ok_def ledger_ok_def)
  have st: "state_of (db_tasks d) team i = TaskState_as_str (tr_state row)"
    if load: "load_task_row env team i d = Inr (Some row)" for row
    using load_task_row_Some[OF load l(3)] state_of_def by (metis option.case(2))
  from assms(2) show ?thesis
  proof (cases rule: apply_task_move_cases)
    case (started row)
    then show ?thesis using started_move[OF assms(2) started(1,2) l(1)] by simp
  next
    case (queued row)
    have "mv_assignee rec = tr_assignee row"
      by (rule apply_queued_task_move_Inr[OF queued(3)])
    then show ?thesis
      using queued_move_ledger(2,3)[OF l(1) queued(1,2,3)] st[OF queued(1)] queued(2)
      by (simp add: TaskState_as_str_def)
  qed
qed

theorem move_repositions_witness:
  "\<exists>d' rec. apply_task_move env0 ''t'' ''b'' ''L'' MoveHead 7 db2 = Inr (d', rec)
     \<and> queue_position_of (queue_ids ''t'' (mv_assignee rec) (db_tasks d')) ''b'' = Inr (mv_to rec)"
proof -
  have "runs (apply_task_move env0 ''t'' ''b'' ''L'' MoveHead 7 db2)" by code_simp
  then obtain d' rec where run: "apply_task_move env0 ''t'' ''b'' ''L'' MoveHead 7 db2 = Inr (d', rec)"
    using runs_Inr by fastforce
  show ?thesis using move_repositions[OF _ run] run by auto
qed

end
