(* ===== verification/Admission_Properties.thy ===== *)
theory Admission_Properties
  imports Scenario
begin

text \<open>
  The properties of admitting messages: assignment and reassignment of tasks, the event log, and
  admissions of messages that are already stored.
\<close>

section \<open>Assigning\<close>

text \<open>
  Property C11: assigning an open task to another member takes it out of the queue of the former
  assignee, puts it into the queue of the new one as assigned, leaves the other tasks of both
  queues in order, and sends the former assignee a notice.
\<close>

theorem reassignment_moves_task:
  assumes "store_ok d" "valid_message record" "valid_task_id i"
    "load_task_row env (msg_team record) i d = Inr (Some r)" "is_open (tr_state r)"
    "tr_assignee r \<noteq> msg_agent record"
    "apply_task_assignment env record i pl d = Inr (d', applied)"
  shows "filter (\<lambda>j. j \<noteq> i) (queue_ids (msg_team record) (msg_agent record) (db_tasks d'))
      = queue_ids (msg_team record) (msg_agent record) (db_tasks d)
    \<and> i \<in> set (queue_ids (msg_team record) (msg_agent record) (db_tasks d'))
    \<and> queue_ids (msg_team record) (tr_assignee r) (db_tasks d')
       = filter (\<lambda>j. j \<noteq> i) (queue_ids (msg_team record) (tr_assignee r) (db_tasks d))
    \<and> state_of (db_tasks d') (msg_team record) i = ''assigned''
    \<and> (\<exists>notice. ta_reassign_notice applied = Some notice \<and> msg_agent notice = tr_assignee r)"
  using assms(7)
proof (cases rule: apply_task_assignment_cases)
  case (moved r' mid order d1 notice)
  have r': "r' = r" using moved(1) assms(4) by simp
  have l: "ledger_ok (db_tasks d)" using assms(1) by (simp add: store_ok_def)
  note re = reassign_ledger[OF l assms(2,3,4,5,6) moved(5)[unfolded r']]
  note n = reassign_notice_frame[OF moved(7)[unfolded r']]
  show ?thesis using re(2-5) re(6)[of i] n(1,4) moved(8) by simp
qed (use assms(4-6) in auto)

definition letter_move :: Message where
  "letter_move = letter ''L'' ''V'' 6 ''a'' None"

theorem reassignment_moves_task_witness:
  "\<exists>r d' applied. load_task_row env0 ''t'' ''a'' db2 = Inr (Some r)
     \<and> apply_task_assignment env0 letter_move ''a'' None db2 = Inr (d', applied)
     \<and> queue_ids ''t'' (tr_assignee r) (db_tasks d')
         = filter (\<lambda>j. j \<noteq> ''a'') (queue_ids ''t'' (tr_assignee r) (db_tasks db2))"
proof -
  have sel: "msg_team letter_move = ''t''" "msg_agent letter_move = ''V''"
    by (simp_all add: letter_move_def letter_def)
  have v: "valid_message letter_move" "valid_task_id ''a''" by code_simp+
  have "(case load_task_row env0 ''t'' ''a'' db2 of Inr (Some r) \<Rightarrow> is_open (tr_state r) \<and> tr_assignee r \<noteq> ''V''
      | _ \<Rightarrow> False)" by code_simp
  then obtain r where r: "load_task_row env0 ''t'' ''a'' db2 = Inr (Some r)" "is_open (tr_state r)"
    "tr_assignee r \<noteq> ''V''"
    by (auto split: sum.split_asm option.split_asm)
  have "runs (apply_task_assignment env0 letter_move ''a'' None db2)" by code_simp
  then obtain d' applied where run: "apply_task_assignment env0 letter_move ''a'' None db2 = Inr (d', applied)"
    using runs_Inr by fastforce
  show ?thesis
    using reassignment_moves_task[OF dbs_ok(2) v _ _ _ run, unfolded sel, OF r] r run by blast
qed

text \<open>
  Property C12: a task that is new or closed is queued for the addressed member as assigned, at
  the position the operation reports; the tasks already in the queue keep their order.
\<close>

theorem assignment_queues_task:
  assumes "store_ok d" "valid_message record" "valid_task_id i"
    "load_task_row env (msg_team record) i d = Inr row" "pred_option (\<lambda>r. \<not> is_open (tr_state r)) row"
    "apply_task_assignment env record i pl d = Inr (d', applied)"
  shows "filter (\<lambda>j. j \<noteq> i) (queue_ids (msg_team record) (msg_agent record) (db_tasks d'))
      = queue_ids (msg_team record) (msg_agent record) (db_tasks d)
    \<and> state_of (db_tasks d') (msg_team record) i = ''assigned''
    \<and> normalized_position (queue_ids (msg_team record) (msg_agent record) (db_tasks d')) i
        = Inr (ta_queued_position applied)"
  using assms(6)
proof (cases rule: apply_task_assignment_cases)
  case (placed row' mid order)
  have l: "ledger_ok (db_tasks d)" using assms(1) by (simp add: store_ok_def)
  note a = assign_closed_ledger[OF l assms(2,3) placed(1,2,4)]
  show ?thesis using a(2,3) a(5)[of i] placed(5) by simp
qed (use assms(4,5) in auto)

theorem assignment_queues_task_witness:
  "\<exists>d' applied. apply_task_assignment env0 letter_b ''b'' None db1 = Inr (d', applied)
     \<and> normalized_position (queue_ids ''t'' ''W'' (db_tasks d')) ''b'' = Inr (ta_queued_position applied)"
proof -
  have sel: "msg_team letter_b = ''t''" "msg_agent letter_b = ''W''"
    by (simp_all add: letter_b_def letter_def)
  have v: "valid_message letter_b" "valid_task_id ''b''" by code_simp+
  have "(case load_task_row env0 ''t'' ''b'' db1 of Inr None \<Rightarrow> True | _ \<Rightarrow> False)" by code_simp
  then have row: "load_task_row env0 ''t'' ''b'' db1 = Inr None"
    by (auto split: sum.split_asm option.split_asm)
  have "runs (apply_task_assignment env0 letter_b ''b'' None db1)" by code_simp
  then obtain d' applied where run: "apply_task_assignment env0 letter_b ''b'' None db1 = Inr (d', applied)"
    using runs_Inr by fastforce
  show ?thesis
    using assignment_queues_task[OF dbs_ok(1) v _ _ run, unfolded sel, OF row] run by auto
qed

section \<open>The event log\<close>

text \<open>
  Property C13: the event an append returns is the one a later read decodes from the stored row,
  and its number is one more than the number of events the task had.
\<close>

theorem appended_event_read_back:
  assumes "events_ok (db_task_events d)" "draft_ok dr" "append_task_event env dr d = Inr (d', row)"
  shows "\<exists>cols. db_task_events d' = db_task_events d @ [cols] \<and> decode_event_row cols = Inr row
    \<and> te_seq row = Suc (length (task_seqs (dr_team dr) (dr_task_id dr) (db_task_events d)))"
proof -
  obtain cols where c: "db_task_events d' = db_task_events d @ [cols]" "decode_event_row cols = Inr row"
    "ec_seq cols = next_event_seq (dr_team dr) (dr_task_id dr) d"
    by (rule append_decodes[OF assms(3,2)])
  have "te_seq row = ec_seq cols" using c(2) by (auto simp: decode_event_row_def bindE_eq_Inr_iff)
  then show ?thesis using c next_event_seq_ok[OF assms(1)] by simp
qed

definition draft0 :: TaskEventDraft where
  "draft0 = \<lparr>dr_team = ''t'', dr_task_id = ''a'', dr_assignee = ''W'', dr_at = 5, dr_event = KRejected,
     dr_from_state = Some TagAssigned, dr_to_state = Some TagAssigned, dr_close_outcome = None,
     dr_actor = ''W'', dr_message_id = None, dr_outcome = None, dr_marker = None, dr_detail = None\<rparr>"

theorem appended_event_read_back_witness:
  "\<exists>d' row cols. append_task_event env0 draft0 db2 = Inr (d', row)
     \<and> db_task_events d' = db_task_events db2 @ [cols] \<and> decode_event_row cols = Inr row"
proof -
  have "runs (append_task_event env0 draft0 db2)" by code_simp
  then obtain d' row where run: "append_task_event env0 draft0 db2 = Inr (d', row)"
    using runs_Inr by fastforce
  have "events_ok (db_task_events db2)" using dbs_ok(2) by (simp add: store_ok_def)
  moreover have "draft_ok draft0" by code_simp
  ultimately show ?thesis using appended_event_read_back[OF _ _ run] run by blast
qed

section \<open>Messages already stored\<close>

definition record_state :: "Message \<Rightarrow> StateCols \<Rightarrow> bool" where
  "record_state record = same_state (msg_team record) (msg_agent record) (msg_message_key record)"

lemma filter_map_other:
  assumes "\<And>x. P (f x) = P x"
  shows "filter (\<lambda>x. \<not> P x) (map (\<lambda>x. if P x then f x else x) xs) = filter (\<lambda>x. \<not> P x) xs"
  by (induction xs) (auto simp: assms)

lemma updated_rows:
  assumes "\<And>x. P (f x) = P x" "\<And>x. Q (f x)" "P new" "Q new"
    and ys: "ys = (if list_ex P xs then map (\<lambda>x. if P x then f x else x) xs else xs @ [new])"
  shows "(\<forall>y\<in>set ys. P y \<longrightarrow> Q y) \<and> (\<exists>y\<in>set ys. P y) \<and> filter (\<lambda>y. \<not> P y) ys = filter (\<lambda>y. \<not> P y) xs"
proof (cases "list_ex P xs")
  case True
  then obtain x where "x \<in> set xs" "P x" by (auto simp: list_ex_iff)
  then have "f x \<in> set ys" "P (f x)" using True by (auto simp: ys assms(1) image_iff intro: bexI[of _ x])
  then show ?thesis using True assms(1,2) filter_map_other[of P f xs] by (auto simp: ys)
next
  case False
  then show ?thesis using assms(3,4) by (auto simp: ys list_ex_iff)
qed

lemma insert_canonical_states:
  assumes "insert_message_canonical env record d = Inr (d1, ins)" "\<not> ins"
  shows "(\<forall>s\<in>set (db_mail_states d1). record_state record s \<longrightarrow>
        sc_read s = me_read (msg_envelope record)
      \<and> sc_acknowledged_at s = me_acknowledged_at (msg_envelope record) \<and> sc_deleted_at s = None)
    \<and> (\<exists>s\<in>set (db_mail_states d1). record_state record s)
    \<and> filter (\<lambda>s. \<not> record_state record s) (db_mail_states d1)
      = filter (\<lambda>s. \<not> record_state record s) (db_mail_states d)"
proof -
  obtain v d0 where row: "insert_message_row v d = Inr (d0, ins)"
    and d1: "d1 = insert_initial_message_state env record d0"
    using assms by (auto simp: insert_message_canonical_def bindE_eq_Inr_iff Let_def)
  have "d0 = d"
    using row assms(2) by (auto simp: insert_message_row_def bindE_eq_Inr_iff split: if_splits)
  then have states: "db_mail_states d1 = db_mail_states (insert_initial_message_state env record d)"
    by (simp add: d1)
  have upd: "\<And>d x. db_mail_states (d\<lparr>db_mail_states := x\<rparr>) = x" by simp
  show ?thesis
    by (rule updated_rows[OF _ _ _ _ states[unfolded insert_initial_message_state_def
          upsert_message_state_def Let_def StateCols.simps record_state_def[symmetric] upd]])
      (simp_all add: record_state_def same_state_def)
qed

text \<open>
  Property C14: admitting a message whose key is stored is not an insertion: it has no effect on
  tasks, events or stored messages, and reports no task event.
\<close>

theorem duplicate_admission_no_task_effect:
  assumes "stored record d" "execute_upsert_message env record p d = Inr (d', r)"
  shows "\<not> up_inserted r \<and> up_task_events r = [] \<and> db_tasks d' = db_tasks d
    \<and> db_task_events d' = db_task_events d \<and> db_mail_messages d' = db_mail_messages d"
proof -
  have run: "upsert_body env (upsert_bounded env 1) record p d = Inr (d', r)"
    using assms(2) by (simp add: execute_upsert_message_def numeral_2_eq_2)
  then obtain d1 ins where ins: "insert_message_canonical env record d = Inr (d1, ins)"
    by (auto simp: upsert_body_def bindE_eq_Inr_iff)
  have "\<not> ins" by (rule insert_canonical_stored(1)[OF assms(1) ins])
  then have "up_task_events r = []"
    using run ins by (auto simp: upsert_body_def bindE_eq_Inr_iff upsert_result_def)
  then show ?thesis using upsert_body_stored[OF assms(1) run] by auto
qed

theorem duplicate_admission_no_task_effect_witness:
  "\<exists>d' r. stored letter_a db2 \<and> execute_upsert_message env0 letter_a Local db2 = Inr (d', r)
     \<and> \<not> up_inserted r \<and> db_tasks d' = db_tasks db2"
proof -
  have st: "stored letter_a db2" by code_simp
  have "runs (execute_upsert_message env0 letter_a Local db2)" by code_simp
  then obtain d' r where run: "execute_upsert_message env0 letter_a Local db2 = Inr (d', r)"
    using runs_Inr by fastforce
  show ?thesis using duplicate_admission_no_task_effect[OF st run] st run by blast
qed

text \<open>
  Property C15: the display state, in contrast, is written again: after admitting a message whose
  key is stored, every state row of the message has the read flag and the acknowledgement time of
  the admitted envelope and no deletion mark, and the rows of other messages are unchanged.
\<close>

theorem duplicate_admission_resets_display:
  assumes "stored record d" "execute_upsert_message env record p d = Inr (d', r)"
  shows "(\<forall>s\<in>set (db_mail_states d'). record_state record s \<longrightarrow>
        sc_read s = me_read (msg_envelope record)
      \<and> sc_acknowledged_at s = me_acknowledged_at (msg_envelope record) \<and> sc_deleted_at s = None)
    \<and> (\<exists>s\<in>set (db_mail_states d'). record_state record s)
    \<and> filter (\<lambda>s. \<not> record_state record s) (db_mail_states d')
      = filter (\<lambda>s. \<not> record_state record s) (db_mail_states d)"
proof -
  have run: "upsert_body env (upsert_bounded env 1) record p d = Inr (d', r)"
    using assms(2) by (simp add: execute_upsert_message_def numeral_2_eq_2)
  then obtain d1 ins where ins: "insert_message_canonical env record d = Inr (d1, ins)"
    by (auto simp: upsert_body_def bindE_eq_Inr_iff)
  have no: "\<not> ins" by (rule insert_canonical_stored(1)[OF assms(1) ins])
  then have d': "d' = d1"
    using run ins by (auto simp: upsert_body_def bindE_eq_Inr_iff)
  show ?thesis unfolding d' by (rule insert_canonical_states[OF ins no])
qed

definition read_a :: WriteOp where
  "read_a = ApplyReadDisplayState ''t'' ''W'' [''atm:1''] None Local"

theorem duplicate_admission_resets_display_witness:
  "map sc_read (db_mail_states (db_after read_a db1)) = [True]
   \<and> (\<exists>d' r s. execute_upsert_message env0 letter_a Local (db_after read_a db1) = Inr (d', r)
        \<and> s \<in> set (db_mail_states d') \<and> record_state letter_a s \<and> \<not> sc_read s)"
proof -
  have read: "map sc_read (db_mail_states (db_after read_a db1)) = [True]" by code_simp
  have st: "stored letter_a (db_after read_a db1)" by code_simp
  have "runs (execute_upsert_message env0 letter_a Local (db_after read_a db1))" by code_simp
  then obtain d' r where run:
      "execute_upsert_message env0 letter_a Local (db_after read_a db1) = Inr (d', r)"
    using runs_Inr by fastforce
  have "\<not> me_read (msg_envelope letter_a)" by code_simp
  then show ?thesis using duplicate_admission_resets_display[OF st run] read run by blast
qed

end
