(* ===== verification/Lane_Properties.thy ===== *)
theory Lane_Properties
  imports Scenario
begin

text \<open>
  The properties of the writer lane: batches, replies, commit failures, the order of answers,
  and shutdown.
\<close>

definition queued :: "WriteOp \<Rightarrow> nat \<Rightarrow> QueuedWrite" where
  "queued op n = \<lparr>qw_op = op, qw_reply = n, qw_env = env0, qw_again = env0, qw_open = None,
     qw_commit = None, qw_group_open = None, qw_group_commit = None\<rparr>"

section \<open>Batches\<close>

text \<open>
  Property C3: sharing one savepoint between consecutive admissions is not observable: without
  SQLite faults a batch gives the store and the replies of processing its writes one by one,
  each in its first attempt or in its replay.
\<close>

theorem grouped_admissions_are_single_writes:
  assumes "list_all no_sql_fault ws"
  shows "\<exists>ws'. list_all2 attempt ws ws' \<and>
    process_writes execute append_rejected_task_event ws d = process_each execute append_rejected_task_event ws' d"
  by (rule writes_each[OF assms])

theorem grouped_admissions_are_single_writes_witness:
  "\<exists>ws'. list_all2 attempt [queued (UpsertMessage letter_a Local) 1, queued (UpsertMessage letter_b Local) 2] ws'
    \<and> process_writes execute append_rejected_task_event
        [queued (UpsertMessage letter_a Local) 1, queued (UpsertMessage letter_b Local) 2] empty_db
      = process_each execute append_rejected_task_event ws' empty_db"
  by (rule grouped_admissions_are_single_writes) (simp add: queued_def no_sql_fault_def)

text \<open>
  Processing a batch keeps the store in order, whatever SQLite answers.
\<close>

lemma batch_keeps_store:
  assumes "store_ok d" "list_all (\<lambda>q. op_ok (qw_op q)) batch"
  shows "store_ok (fst (process_batch execute append_rejected_task_event env opened committed batch d))"
  by (rule lane.batch_inv[OF assms])

lemma batch_keeps_store_example:
  "store_ok (fst (process_batch execute append_rejected_task_event env0 None None
     [queued (UpsertMessage letter_a Local) 1, queued (UpsertMessage letter_b Local) 2] empty_db))"
  by (rule batch_keeps_store) (simp_all add: queued_def)

text \<open>
  Every write of a batch gets exactly one reply, in the order of the batch.
\<close>

lemma batch_answers_every_write:
  "map fst (snd (process_batch exec audit env opened committed batch d)) = map qw_reply batch"
  by (rule batch_replies)

text \<open>
  Property C32: a batch whose transaction does not open or does not commit leaves the store as it
  was, and none of its replies reports success.
\<close>

theorem uncommitted_batch_has_no_effect:
  assumes "opened \<noteq> None \<or> committed \<noteq> None"
  shows "fst (process_batch exec audit env opened committed batch d) = d
    \<and> list_all (\<lambda>r. \<exists>e. snd r = Inl e) (snd (process_batch exec audit env opened committed batch d))"
  using batch_uncommitted[OF assms] by simp

theorem uncommitted_batch_has_no_effect_witness:
  "fst (process_batch execute append_rejected_task_event env0 None (Some ConstraintViolation)
     [queued (UpsertMessage letter_a Local) 1] empty_db) = empty_db"
  using uncommitted_batch_has_no_effect[of None "Some ConstraintViolation" execute append_rejected_task_event
      env0 "[queued (UpsertMessage letter_a Local) 1]" empty_db]
  by simp






section \<open>The lane\<close>

text \<open>
  Property C31: at every moment of a run the writes answered, collected and waiting in the channel
  are, in this order, the writes the channel accepted.
\<close>

theorem lane_answers_in_order:
  assumes "lane_run (initial_lane d) ws s"
  shows "map fst (ln_replies s) @ map qw_reply (collected s) @ map qw_reply (submits (ln_queue s)) = map qw_reply ws"
  using lane_answered[OF assms] by (simp add: answered_def)

definition q1 :: QueuedWrite where
  "q1 = queued (UpsertMessage letter_a Local) 1"

lemma one_write_run:
  "lane_run (initial_lane empty_db) [q1] (drop_writer ((initial_lane empty_db)\<lparr>ln_queue := [Submit q1]\<rparr>))"
proof -
  have "try_send (Submit q1) (initial_lane empty_db) = Some ((initial_lane empty_db)\<lparr>ln_queue := [Submit q1]\<rparr>)"
    by (simp add: try_send_def initial_lane_def CHANNEL_CAPACITY_def)
  then show ?thesis using lane_run.close[OF lane_run.submit[OF lane_run.start]] by simp
qed

theorem lane_answers_in_order_witness:
  "\<exists>s. lane_run (initial_lane empty_db) [q1] s
     \<and> map fst (ln_replies s) @ map qw_reply (collected s) @ map qw_reply (submits (ln_queue s)) = [1]"
  using lane_answers_in_order[OF one_write_run] one_write_run by (auto simp: q1_def queued_def)



text \<open>
  The channel never holds more than its capacity.
\<close>

lemma lane_channel_bounded:
  assumes "lane_run (initial_lane d) ws s"
  shows "length (ln_queue s) \<le> CHANNEL_CAPACITY"
  by (rule lane_capacity[OF assms])

lemma lane_channel_bounded_example:
  "\<exists>s. lane_run (initial_lane empty_db) [q1] s \<and> length (ln_queue s) \<le> CHANNEL_CAPACITY"
  using lane_channel_bounded[OF one_write_run] one_write_run by blast

text \<open>
  Property C4: once the sender is gone, the thread stops within two turns per queued message and
  two more, whatever SQLite answers, and every accepted write has been answered exactly once, in
  order.
\<close>

theorem shutdown_answers_every_write:
  assumes "lane_run (initial_lane d) ws s" "ln_closed s" "ln_phase s \<noteq> Stopped"
    "2 * length (ln_queue s) + 2 \<le> length turns"
  shows "ln_phase (run_thread turns s) = Stopped
    \<and> map fst (ln_replies (run_thread turns s)) = map qw_reply ws"
proof -
  have "lane_work s \<le> length turns" using assms(4) by (auto simp: lane_work_def split: Phase.split)
  then have stop: "ln_phase (run_thread turns s) = Stopped" by (rule closed_stops[OF assms(2)])
  moreover have "answered (run_thread turns s) = map qw_reply ws"
    by (rule lane_answered[OF run_thread_run[OF assms(1)]])
  ultimately show ?thesis
    using run_thread_stop[OF assms(3), of turns] by (simp add: answered_def collected_def)
qed

theorem shutdown_answers_every_write_witness:
  "\<exists>s. lane_run (initial_lane empty_db) [q1] s \<and> ln_closed s
     \<and> map fst (ln_replies (run_thread (replicate 6 (env0, None, None, True)) s)) = [1]"
proof -
  let ?s = "drop_writer ((initial_lane empty_db)\<lparr>ln_queue := [Submit q1]\<rparr>)"
  have "ln_closed ?s" "ln_phase ?s \<noteq> Stopped" "length (ln_queue ?s) = 2"
    by (simp_all add: drop_writer_def try_send_def initial_lane_def CHANNEL_CAPACITY_def)
  then show ?thesis
    using shutdown_answers_every_write[OF one_write_run, of "replicate 6 (env0, None, None, True)"]
      one_write_run by (auto simp: q1_def queued_def)
qed

end
