(* ===== verification/Task_Store.thy ===== *)
theory Task_Store
  imports Writer_Batch
begin

text \<open>
  The task ledger operations outside the writer lane (\<^verbatim>\<open>task_store.rs\<close>): reminders and lead
  notifications, prompt handoffs, and moving a task through the lane.
\<close>

section \<open>Reminders\<close>

text \<open>The insert names every column but \<^verbatim>\<open>close_outcome\<close>, which stays NULL.\<close>

definition append_event ::
  "env \<Rightarrow> TeamName \<Rightarrow> AgentName \<Rightarrow> TaskId \<Rightarrow> IsoTimestamp \<Rightarrow> TaskEventKind \<Rightarrow> TaskState \<Rightarrow> string
   \<Rightarrow> AtmMessageId option \<Rightarrow> ReminderOutcome option \<Rightarrow> db \<Rightarrow> AtmError + (db \<times> TaskEventRow)" where
  "append_event env team agent task_id at event st actor message_id outcome d =
     (let seq = next_event_seq team task_id d;
          cols = \<lparr>ec_team = team, ec_task_id = task_id, ec_assignee = agent, ec_seq = seq, ec_at = at,
            ec_event = TaskEventKind_as_str event, ec_from_state = Some (TaskState_as_str st),
            ec_to_state = Some (TaskState_as_str st), ec_close_outcome = None, ec_actor = actor,
            ec_message_id = message_id, ec_outcome = map_option ReminderOutcome_as_str outcome,
            ec_marker = None, ec_detail = None\<rparr>
      in bindE (map_err (sqlite_error env ''failed to append task event'')
                 (insert_row task_events_bad cols (db_task_events d))) (\<lambda>events.
         bindE (if actor = DAEMON_ACTOR_NAME then Inr Daemon
                else mapE Member (map_err (\<lambda>error. err_validation
                  (''invalid task event actor: '' @ err_message error)) (AgentName_from_str actor))) (\<lambda>act.
         Inr (d\<lparr>db_task_events := events\<rparr>,
           \<lparr>te_team = team, te_task_id = task_id, te_assignee = agent, te_seq = seq, te_at = at,
            te_event = event, te_from_state = Some st, te_to_state = Some st, te_actor = act,
            te_message_id = message_id, te_outcome = outcome, te_marker = None, te_detail = None\<rparr>))))"

definition is_assigned_task :: "TeamName \<Rightarrow> TaskId \<Rightarrow> AgentName \<Rightarrow> TaskCols \<Rightarrow> bool" where
  "is_assigned_task team task_id assignee r \<longleftrightarrow> is_task team task_id r \<and> tc_assignee r = assignee"

definition record_reminder ::
  "env \<Rightarrow> TeamName \<Rightarrow> AgentName \<Rightarrow> TaskId \<Rightarrow> IsoTimestamp \<Rightarrow> ReminderOutcome \<Rightarrow> db
   \<Rightarrow> AtmError + (db \<times> TaskRow \<times> TaskEventRow)" where
  "record_reminder env team agent task_id at outcome d =
     bindE (load_task_row env team task_id d) (\<lambda>loaded.
     case loaded of
       None \<Rightarrow> Inl (err_validation ''cannot record a reminder for a missing task'')
     | Some row \<Rightarrow>
         bindE (run_update env ''failed to record task reminder'' (is_assigned_task team task_id agent)
                  (\<lambda>r. r\<lparr>tc_reminder_count := tc_reminder_count r + 1, tc_last_reminded_at := Some at,
                         tc_updated_at := at\<rparr>) d) (\<lambda>d1.
         bindE (append_event env team agent task_id at KReminded (tr_state row) DAEMON_ACTOR_NAME None
                  (Some outcome) d1) (\<lambda>(d2, event).
         bindE (load_task_row env team task_id d2) (\<lambda>again.
         case again of
           None \<Rightarrow> Inl (err_mailbox_write ''task disappeared after reminder write'')
         | Some row' \<Rightarrow> Inr (d2, row', event)))))"

definition reset_reminders ::
  "env \<Rightarrow> TeamName \<Rightarrow> AgentName \<Rightarrow> TaskId \<Rightarrow> IsoTimestamp \<Rightarrow> db
   \<Rightarrow> AtmError + (db \<times> TaskRow \<times> TaskEventRow)" where
  "reset_reminders env team agent task_id at d =
     bindE (load_task_row env team task_id d) (\<lambda>loaded.
     case loaded of
       None \<Rightarrow> Inl (err_validation ''cannot reset reminders for a missing task'')
     | Some row \<Rightarrow>
         bindE (run_update env ''failed to reset task reminders'' (is_assigned_task team task_id agent)
                  (\<lambda>r. r\<lparr>tc_reminder_count := 0, tc_last_reminded_at := None, tc_updated_at := at\<rparr>) d) (\<lambda>d1.
         bindE (append_event env team agent task_id at KRemindersReset (tr_state row) DAEMON_ACTOR_NAME
                  None None d1) (\<lambda>(d2, event).
         bindE (load_task_row env team task_id d2) (\<lambda>again.
         case again of
           None \<Rightarrow> Inl (err_mailbox_write ''task disappeared after reminder reset'')
         | Some row' \<Rightarrow> Inr (d2, row', event)))))"

definition record_lead_notified ::
  "env \<Rightarrow> TeamName \<Rightarrow> AgentName \<Rightarrow> TaskId \<Rightarrow> IsoTimestamp \<Rightarrow> AgentName \<Rightarrow> AtmMessageId \<Rightarrow> db
   \<Rightarrow> AtmError + (db \<times> TaskEventRow)" where
  "record_lead_notified env team agent task_id at lead message_id d =
     bindE (load_task_row env team task_id d) (\<lambda>loaded.
     case loaded of
       None \<Rightarrow> Inl (err_validation ''cannot record lead notification for a missing task'')
     | Some row \<Rightarrow>
         bindE (run_update env ''failed to record lead notification'' (is_assigned_task team task_id agent)
                  (\<lambda>r. r\<lparr>tc_lead_notified_count := tc_lead_notified_count r + 1, tc_updated_at := at\<rparr>) d) (\<lambda>d1.
         append_event env team agent task_id at KLeadNotified (tr_state row) lead (Some message_id) None d1))"

definition list_task_events ::
  "env \<Rightarrow> TeamName \<Rightarrow> TaskId \<Rightarrow> AgentName option \<Rightarrow> db \<Rightarrow> AtmError + TaskEventRow list" where
  "list_task_events env team task_id assignee d =
     map_err (sqlite_error env ''failed to list task events'') (select_task_events team task_id assignee d)"

section \<open>Prompt handoffs\<close>

datatype BuiltInNudgeTemplateKind =
    NDelivery | NDeliveryAck | NQueue | NQueueAck | NAcknowledge | NTaskQueued | NTaskReady
  | NTaskReminder | NTaskStarted | NTaskComplete | NTaskClosed | NCron

definition BuiltInNudgeTemplateKind_as_str :: "BuiltInNudgeTemplateKind \<Rightarrow> string" where
  "BuiltInNudgeTemplateKind_as_str k = (case k of
      NDelivery \<Rightarrow> ''delivery'' | NDeliveryAck \<Rightarrow> ''delivery_ack'' | NQueue \<Rightarrow> ''queue''
    | NQueueAck \<Rightarrow> ''queue_ack'' | NAcknowledge \<Rightarrow> ''acknowledge'' | NTaskQueued \<Rightarrow> ''task_queued''
    | NTaskReady \<Rightarrow> ''task_ready'' | NTaskReminder \<Rightarrow> ''task_reminder'' | NTaskStarted \<Rightarrow> ''task_started''
    | NTaskComplete \<Rightarrow> ''task_complete'' | NTaskClosed \<Rightarrow> ''task_closed'' | NCron \<Rightarrow> ''cron'')"

datatype PromptTrigger = Steer | TaskPass

definition PromptTrigger_as_str :: "PromptTrigger \<Rightarrow> string" where
  "PromptTrigger_as_str t = (case t of Steer \<Rightarrow> ''steer'' | TaskPass \<Rightarrow> ''task_pass'')"

record PromptHandoff =
  ph_team :: TeamName
  ph_agent :: AgentName
  ph_message_key :: MessageKey
  ph_kind :: BuiltInNudgeTemplateKind
  ph_task_id :: TaskId
  ph_attempt :: "32 word"
  ph_trigger :: PromptTrigger
  ph_at :: IsoTimestamp

datatype PromptHandoffWrite = Inserted PromptHandoff | Existing PromptHandoff

definition RETIRED_TEMPLATE_KINDS :: "string list" where
  "RETIRED_TEMPLATE_KINDS = [''task'', ''acknowledge_task'', ''delivery_task'', ''delivery_task_ack'']"

definition parse_built_in_template_kind :: "string \<Rightarrow> AtmError + BuiltInNudgeTemplateKind" where
  "parse_built_in_template_kind value =
     (if value = ''delivery'' then Inr NDelivery
      else if value = ''delivery_ack'' then Inr NDeliveryAck
      else if value = ''queue'' then Inr NQueue
      else if value = ''queue_ack'' then Inr NQueueAck
      else if value = ''acknowledge'' then Inr NAcknowledge
      else if value = ''task_queued'' then Inr NTaskQueued
      else if value = ''task_ready'' then Inr NTaskReady
      else if value = ''task_reminder'' then Inr NTaskReminder
      else if value = ''task_started'' then Inr NTaskStarted
      else if value = ''task_complete'' then Inr NTaskComplete
      else if value = ''task_closed'' then Inr NTaskClosed
      else if value = ''cron'' then Inr NCron
      else if value \<in> set RETIRED_TEMPLATE_KINDS then
        Inl (err_validation (''template kind `'' @ value
          @ ''` was retired; use one of task_queued, task_ready, task_reminder, task_started, task_complete, task_closed''))
      else Inl (err_validation (''unsupported built-in nudge template kind `'' @ value @ ''`'')))"

definition parse_prompt_trigger :: "string \<Rightarrow> sql_error + PromptTrigger" where
  "parse_prompt_trigger value =
     (if value = ''steer'' then Inr Steer
      else if value = ''task_pass'' then Inr TaskPass
      else Inl (sql_invalid value ''prompt trigger''))"

record HandoffCols =
  hc_team :: string
  hc_agent :: string
  hc_message_key :: string
  hc_kind :: string
  hc_task_id :: string
  hc_attempt :: int
  hc_trigger :: string
  hc_at :: IsoTimestamp

definition handoff_cols :: "PromptHandoff \<Rightarrow> HandoffCols" where
  "handoff_cols h =
     \<lparr>hc_team = ph_team h, hc_agent = ph_agent h, hc_message_key = ph_message_key h,
      hc_kind = BuiltInNudgeTemplateKind_as_str (ph_kind h), hc_task_id = ph_task_id h,
      hc_attempt = uint (ph_attempt h), hc_trigger = PromptTrigger_as_str (ph_trigger h), hc_at = ph_at h\<rparr>"

definition decode_prompt_handoff :: "HandoffCols \<Rightarrow> sql_error + PromptHandoff" where
  "decode_prompt_handoff r =
     bindE (sql_parse TeamName_from_str (hc_team r) ''prompt handoff team'') (\<lambda>team.
     bindE (sql_parse AgentName_from_str (hc_agent r) ''prompt handoff agent'') (\<lambda>agent.
     bindE (sql_parse MessageKey_new (hc_message_key r) ''prompt handoff message key'') (\<lambda>key.
     bindE (sql_parse parse_built_in_template_kind (hc_kind r) ''prompt handoff kind'') (\<lambda>kind.
     bindE (sql_parse TaskId_from_str (hc_task_id r) ''prompt handoff task id'') (\<lambda>task_id.
     bindE (get_u32 (hc_attempt r)) (\<lambda>attempt.
     bindE (parse_prompt_trigger (hc_trigger r)) (\<lambda>trigger.
     Inr \<lparr>ph_team = team, ph_agent = agent, ph_message_key = key, ph_kind = kind, ph_task_id = task_id,
          ph_attempt = attempt, ph_trigger = trigger, ph_at = hc_at r\<rparr>)))))))"

text \<open>The unique key of the table.\<close>

definition handoff_key :: "HandoffCols \<Rightarrow> string \<times> string \<times> string \<times> string \<times> int" where
  "handoff_key r = (hc_team r, hc_agent r, hc_message_key r, hc_kind r, hc_attempt r)"

definition record_prompt_handoff ::
  "env \<Rightarrow> PromptHandoff \<Rightarrow> HandoffCols list \<Rightarrow> AtmError + (HandoffCols list \<times> PromptHandoffWrite)" where
  "record_prompt_handoff env handoff rows =
     (let row = handoff_cols handoff in
      case find (\<lambda>r. handoff_key r = handoff_key row) rows of
        None \<Rightarrow> Inr (rows @ [row], Inserted handoff)
      | Some r \<Rightarrow>
          bindE (map_err (sqlite_error env ''failed to load existing prompt handoff'')
                   (decode_prompt_handoff r)) (\<lambda>h.
          Inr (rows, Existing h)))"

section \<open>Moving a task\<close>

text \<open>\<open>submit\<close> is the round trip through the writer lane.\<close>

definition move_task_with_origin ::
  "(WriteOp \<Rightarrow> AtmError + CommittedTaskWrite) \<Rightarrow> TeamName \<Rightarrow> TaskId \<Rightarrow> AgentName \<Rightarrow> MoveTarget
   \<Rightarrow> IsoTimestamp \<Rightarrow> MessageWriteOrigin
   \<Rightarrow> AtmError + ((AtmError + TaskMoveRecord) \<times> TaskEventRow list)" where
  "move_task_with_origin submit team task_id actor tgt at origin =
     (if origin = Peer then Inl (err_validation ''peer provenance cannot move local tasks'')
      else bindE (submit (TaskMove team task_id actor tgt at origin)) (\<lambda>committed.
        Inr (bindE (cw_operation committed) (\<lambda>result.
               case result of
                 TaskMoved outcome \<Rightarrow> Inr outcome
               | _ \<Rightarrow> Inl (err_mailbox_write ''task move writer returned an unexpected result'')),
             cw_task_events committed)))"

section \<open>Reminders keep the ledger\<close>

lemma append_event_decodes:
  assumes run: "append_event env team agent i at ev st actor mid outcome d = Inr (d', row)"
    and v: "valid_segment team" "valid_segment agent" "valid_task_id i" "valid_segment actor"
    and opn: "is_open st"
  obtains cols where "db_task_events d' = db_task_events d @ [cols]" "decode_event_row cols = Inr row"
    "ec_team cols = team" "ec_task_id cols = i" "ec_seq cols = next_event_seq team i d"
    "db_tasks d' = db_tasks d" "db_mail_messages d' = db_mail_messages d"
proof -
  have st: "parse_state (TaskState_as_str st) None = Inr st" "TaskState_as_str st \<noteq> ''complete''"
    using opn by (cases st; simp add: is_open_def TaskState_as_str_def parse_state_def from_parts_def)+
  have act: "AgentName_from_str actor = Inr actor" using v(4) by (rule agent_name.parse_complete)
  show thesis
    using run st act v that
    by (cases outcome)
       (auto simp: append_event_def Let_def bindE_eq_Inr_iff mapE_def decode_event_row_def
         event_column_state_def dest!: insert_row_Inr split: if_splits)
qed

lemma append_event_store_ok:
  assumes run: "append_event env team agent i at ev st actor mid outcome d = Inr (d', row)"
    and v: "valid_segment team" "valid_segment agent" "valid_task_id i" "valid_segment actor"
    and opn: "is_open st" and ok: "store_ok d"
  shows "store_ok d'"
proof -
  obtain cols where c: "db_task_events d' = db_task_events d @ [cols]" "decode_event_row cols = Inr row"
    "ec_team cols = team" "ec_task_id cols = i" "ec_seq cols = next_event_seq team i d"
    "db_tasks d' = db_tasks d" "db_mail_messages d' = db_mail_messages d"
    by (rule append_event_decodes[OF run v opn])
  then show ?thesis
    using ok events_ok_snoc[of d cols] by (simp add: store_ok_def decodable_def)
qed

lemma daemon_actor_valid [simp]: "valid_segment DAEMON_ACTOR_NAME"
  by code_simp

lemma update_store_ok:
  assumes run: "run_update env what P f d = Inr d'" and ok: "store_ok d"
    and keep: "\<And>r. tc_team (f r) = tc_team r \<and> tc_task_id (f r) = tc_task_id r
      \<and> tc_assignee (f r) = tc_assignee r \<and> tc_assigner (f r) = tc_assigner r
      \<and> tc_state (f r) = tc_state r \<and> tc_position (f r) = tc_position r"
  shows "store_ok d'" "queue_ids t b (db_tasks d') = queue_ids t b (db_tasks d)"
proof -
  have l: "ledger_ok (db_tasks d)" using ok by (simp add: store_ok_def)
  show "store_ok d'"
    by (rule store_ok_log_step[OF log_step_update[OF run] ok]) (rule run_update_ledger(1)[OF run l keep])
  show "queue_ids t b (db_tasks d') = queue_ids t b (db_tasks d)"
    by (rule run_update_ledger(2)[OF run l keep])
qed

lemma record_reminder_Inr:
  assumes "record_reminder env team agent i at outcome d = Inr (d', row', ev)"
  obtains row d1 where "load_task_row env team i d = Inr (Some row)"
    "run_update env ''failed to record task reminder'' (is_assigned_task team i agent)
       (\<lambda>r. r\<lparr>tc_reminder_count := tc_reminder_count r + 1, tc_last_reminded_at := Some at,
              tc_updated_at := at\<rparr>) d = Inr d1"
    "append_event env team agent i at KReminded (tr_state row) DAEMON_ACTOR_NAME None (Some outcome) d1
       = Inr (d', ev)"
    "load_task_row env team i d' = Inr (Some row')"
proof -
  obtain ro where ro: "load_task_row env team i d = Inr ro"
    using assms by (cases "load_task_row env team i d") (simp_all add: record_reminder_def)
  obtain row where row: "ro = Some row" using assms ro by (cases ro) (simp_all add: record_reminder_def)
  from assms obtain d1 d2 ev' again where
    "run_update env ''failed to record task reminder'' (is_assigned_task team i agent)
       (\<lambda>r. r\<lparr>tc_reminder_count := tc_reminder_count r + 1, tc_last_reminded_at := Some at,
              tc_updated_at := at\<rparr>) d = Inr d1"
    "append_event env team agent i at KReminded (tr_state row) DAEMON_ACTOR_NAME None (Some outcome) d1
       = Inr (d2, ev')"
    "load_task_row env team i d2 = Inr again"
    "(case again of None \<Rightarrow> Inl (err_mailbox_write ''task disappeared after reminder write'')
       | Some row' \<Rightarrow> Inr (d2, row', ev')) = Inr (d', row', ev)"
    unfolding record_reminder_def ro row bindE_simps option.case
    by (auto simp: bindE_eq_Inr_iff simp del: append_Cons)
  then show thesis using that ro row by (cases again) auto
qed

text \<open>Reminding a member of an open task.\<close>

lemma reminder_store_ok:
  assumes ok: "store_ok d" and load: "load_task_row env team i d = Inr (Some row)" and opn: "is_open (tr_state row)"
    and agent: "valid_segment agent"
    and run: "record_reminder env team agent i at outcome d = Inr (d', row', ev)"
  shows "store_ok d'" "queue_ids t b (db_tasks d') = queue_ids t b (db_tasks d)"
proof -
  have l: "ledger_ok (db_tasks d)" using ok by (simp add: store_ok_def)
  note v = loaded_row_valid[OF load l]
  obtain d1 where upd: "run_update env ''failed to record task reminder'' (is_assigned_task team i agent)
       (\<lambda>r. r\<lparr>tc_reminder_count := tc_reminder_count r + 1, tc_last_reminded_at := Some at,
              tc_updated_at := at\<rparr>) d = Inr d1"
    and app: "append_event env team agent i at KReminded (tr_state row) DAEMON_ACTOR_NAME None (Some outcome) d1
       = Inr (d', ev)"
    by (rule record_reminder_Inr[OF run]) (use load in auto)
  have d1: "store_ok d1" "queue_ids t b (db_tasks d1) = queue_ids t b (db_tasks d)"
    by (rule update_store_ok[OF upd ok]; simp)+
  show "store_ok d'"
    by (rule append_event_store_ok[OF app v(3) agent v(4) daemon_actor_valid opn d1(1)])
  obtain cols where "db_tasks d' = db_tasks d1"
    by (rule append_event_decodes[OF app v(3) agent v(4) daemon_actor_valid opn]) blast
  then show "queue_ids t b (db_tasks d') = queue_ids t b (db_tasks d)" using d1(2) by simp
qed

lemma find_map_keep: "(\<And>x. P (g x) = P x) \<Longrightarrow> find P (map g xs) = map_option g (find P xs)"
  by (induction xs) auto

text \<open>What a row reads as after an update that keeps the key columns.\<close>

lemma updated_row:
  assumes upd: "run_update env what P f d = Inr d1" and tasks: "db_tasks d' = db_tasks d1"
    and keep: "\<And>r. tc_team (f r) = tc_team r \<and> tc_task_id (f r) = tc_task_id r"
    and load: "load_task_row env team i d = Inr (Some row)" "load_task_row env team i d' = Inr (Some row')"
  obtains r where "decode_row r = Inr row" "decode_row (if P r then f r else r) = Inr row'"
    "is_task team i r" "r \<in> set (db_tasks d)"
proof -
  have rows: "db_tasks d' = map (\<lambda>r. if P r then f r else r) (db_tasks d)"
    using run_update_Inr(1)[OF upd] tasks by simp
  have "is_task team i (if P r then f r else r) = is_task team i r" for r using keep by (simp add: is_task_def)
  then have "find (is_task team i) (db_tasks d') = map_option (\<lambda>r. if P r then f r else r) (find (is_task team i) (db_tasks d))"
    unfolding rows by (rule find_map_keep)
  moreover obtain r where r: "find (is_task team i) (db_tasks d) = Some r" "decode_row r = Inr row"
    using load(1) unfolding load_task_row_def select_task_row_def transposeE_def
    by (cases "find (is_task team i) (db_tasks d)") (auto simp: mapE_def split: sum.splits)
  ultimately have "decode_row (if P r then f r else r) = Inr row'"
    using load(2) unfolding load_task_row_def select_task_row_def transposeE_def
    by (auto simp: mapE_def split: sum.splits)
  then show thesis using that r by (auto simp: find_Some_iff)
qed

lemma append_event_tasks:
  "append_event env team agent i at ev st actor mid outcome d = Inr (d', row) \<Longrightarrow> db_tasks d' = db_tasks d"
  by (auto simp: append_event_def Let_def bindE_eq_Inr_iff)

lemma u32_of_int: "0 \<le> k \<Longrightarrow> k < 2 ^ 32 \<Longrightarrow> unat (word_of_int k :: 32 word) = nat k"
  unfolding unat_eq_nat_uint uint_word_of_int by simp

lemma reminder_counts:
  assumes ok: "store_ok d" and load: "load_task_row env team i d = Inr (Some row)"
    and run: "record_reminder env team agent i at outcome d = Inr (d', row', ev)"
  shows "tr_assignee row = agent \<Longrightarrow> unat (tr_reminder_count row') = unat (tr_reminder_count row) + 1
      \<and> tr_last_reminded_at row' = Some at"
    "tr_assignee row \<noteq> agent \<Longrightarrow> row' = row"
    "tr_lead_notified_count row' = tr_lead_notified_count row" "tr_state row' = tr_state row"
    "tr_position row' = tr_position row"
proof -
  obtain d1 where upd: "run_update env ''failed to record task reminder'' (is_assigned_task team i agent)
       (\<lambda>r. r\<lparr>tc_reminder_count := tc_reminder_count r + 1, tc_last_reminded_at := Some at,
              tc_updated_at := at\<rparr>) d = Inr d1"
    and app: "append_event env team agent i at KReminded (tr_state row) DAEMON_ACTOR_NAME None (Some outcome) d1
       = Inr (d', ev)"
    and again: "load_task_row env team i d' = Inr (Some row')"
    by (rule record_reminder_Inr[OF run]) (use load in auto)
  obtain r where r: "decode_row r = Inr row" "is_task team i r" "r \<in> set (db_tasks d)"
    and r': "decode_row (if is_assigned_task team i agent r then r\<lparr>tc_reminder_count := tc_reminder_count r + 1,
       tc_last_reminded_at := Some at, tc_updated_at := at\<rparr> else r) = Inr row'"
    by (rule updated_row[OF upd append_event_tasks[OF app] _ load again]) auto
  have "names_ok r" using ok r(3) by (auto simp: store_ok_def ledger_ok_def list_all_iff)
  then have asg: "is_assigned_task team i agent r \<longleftrightarrow> tr_assignee row = agent"
    using decode_rowD(3)[OF r(1)] r(2) by (auto simp: is_assigned_task_def)
  have count: "unat (word_of_int (k + 1) :: 32 word) = unat (word_of_int k :: 32 word) + 1"
    if "0 \<le> k" "k + 1 < 2 ^ 32" for k :: int
    using that u32_of_int[of k] u32_of_int[of "k + 1"] by simp
  show "tr_assignee row = agent \<Longrightarrow> unat (tr_reminder_count row') = unat (tr_reminder_count row) + 1
      \<and> tr_last_reminded_at row' = Some at"
    using r(1) r' asg count by (auto simp: decode_row_def bindE_eq_Inr_iff get_u32_def split: if_splits)
  show "tr_assignee row \<noteq> agent \<Longrightarrow> row' = row" using r(1) r' asg by simp
  show "tr_lead_notified_count row' = tr_lead_notified_count row" "tr_state row' = tr_state row"
    "tr_position row' = tr_position row"
    using r(1) r' by (auto simp: decode_row_def bindE_eq_Inr_iff split: if_splits)
qed

lemma reset_reminders_Inr:
  assumes "reset_reminders env team agent i at d = Inr (d', row', ev)"
  obtains row d1 where "load_task_row env team i d = Inr (Some row)"
    "run_update env ''failed to reset task reminders'' (is_assigned_task team i agent)
       (\<lambda>r. r\<lparr>tc_reminder_count := 0, tc_last_reminded_at := None, tc_updated_at := at\<rparr>) d = Inr d1"
    "append_event env team agent i at KRemindersReset (tr_state row) DAEMON_ACTOR_NAME None None d1
       = Inr (d', ev)"
    "load_task_row env team i d' = Inr (Some row')"
proof -
  obtain ro where ro: "load_task_row env team i d = Inr ro"
    using assms by (cases "load_task_row env team i d") (simp_all add: reset_reminders_def)
  obtain row where row: "ro = Some row" using assms ro by (cases ro) (simp_all add: reset_reminders_def)
  from assms obtain d1 d2 ev' again where
    "run_update env ''failed to reset task reminders'' (is_assigned_task team i agent)
       (\<lambda>r. r\<lparr>tc_reminder_count := 0, tc_last_reminded_at := None, tc_updated_at := at\<rparr>) d = Inr d1"
    "append_event env team agent i at KRemindersReset (tr_state row) DAEMON_ACTOR_NAME None None d1
       = Inr (d2, ev')"
    "load_task_row env team i d2 = Inr again"
    "(case again of None \<Rightarrow> Inl (err_mailbox_write ''task disappeared after reminder reset'')
       | Some row' \<Rightarrow> Inr (d2, row', ev')) = Inr (d', row', ev)"
    unfolding reset_reminders_def ro row bindE_simps option.case
    by (auto simp: bindE_eq_Inr_iff simp del: append_Cons)
  then show thesis using that ro row by (cases again) auto
qed

text \<open>A reset does not rearm a reported stall.\<close>

lemma reset_latch:
  assumes load: "load_task_row env team i d = Inr (Some row)"
    and run: "reset_reminders env team agent i at d = Inr (d', row', ev)"
  shows "tr_lead_notified_count row' = tr_lead_notified_count row"
    "store_ok d \<Longrightarrow> tr_assignee row = agent \<Longrightarrow> tr_reminder_count row' = 0 \<and> tr_last_reminded_at row' = None"
proof -
  obtain d1 where upd: "run_update env ''failed to reset task reminders'' (is_assigned_task team i agent)
       (\<lambda>r. r\<lparr>tc_reminder_count := 0, tc_last_reminded_at := None, tc_updated_at := at\<rparr>) d = Inr d1"
    and app: "append_event env team agent i at KRemindersReset (tr_state row) DAEMON_ACTOR_NAME None None d1
       = Inr (d', ev)"
    and again: "load_task_row env team i d' = Inr (Some row')"
    by (rule reset_reminders_Inr[OF run]) (use load in auto)
  obtain r where r: "decode_row r = Inr row" "is_task team i r" "r \<in> set (db_tasks d)"
    and r': "decode_row (if is_assigned_task team i agent r then
       r\<lparr>tc_reminder_count := 0, tc_last_reminded_at := None, tc_updated_at := at\<rparr> else r) = Inr row'"
    by (rule updated_row[OF upd append_event_tasks[OF app] _ load again]) auto
  show "tr_lead_notified_count row' = tr_lead_notified_count row"
    using r(1) r' by (auto simp: decode_row_def bindE_eq_Inr_iff split: if_splits)
  assume "store_ok d" "tr_assignee row = agent"
  then have "is_assigned_task team i agent r"
    using decode_rowD(3)[OF r(1)] r(2,3) by (auto simp: is_assigned_task_def store_ok_def ledger_ok_def list_all_iff)
  then show "tr_reminder_count row' = 0 \<and> tr_last_reminded_at row' = None"
    using r' by (auto simp: decode_row_def bindE_eq_Inr_iff get_u32_def)
qed

text \<open>A reminder of a closed task leaves an event without its outcome, and the log of the task
  does not decode any more.\<close>

lemma collectE_Inl: "x \<in> set xs \<Longrightarrow> f x = Inl e \<Longrightarrow> \<exists>e'. collectE f xs = Inl e'"
  by (induction xs) (auto simp: bindE_def split: sum.splits)

lemma closed_reminder_log:
  assumes load: "load_task_row env team i d = Inr (Some row)" and st: "tr_state row = Complete oc"
    and run: "record_reminder env team agent i at outcome d = Inr (d', row', ev)"
  shows "\<exists>e. list_task_events env team i None d' = Inl e"
proof -
  obtain d1 where app: "append_event env team agent i at KReminded (tr_state row) DAEMON_ACTOR_NAME None (Some outcome) d1
       = Inr (d', ev)"
    by (rule record_reminder_Inr[OF run]) (use load in auto)
  then have "\<exists>cols. db_task_events d' = db_task_events d1 @ [cols] \<and> ec_team cols = team \<and> ec_task_id cols = i
    \<and> ec_from_state cols = Some ''complete'' \<and> ec_close_outcome cols = None"
    by (auto simp: append_event_def Let_def bindE_eq_Inr_iff st TaskState_as_str_def dest!: insert_row_Inr)
  then obtain cols where log: "db_task_events d' = db_task_events d1 @ [cols]"
    and c': "ec_team cols = team" "ec_task_id cols = i"
      "ec_from_state cols = Some ''complete''" "ec_close_outcome cols = None"
    by blast
  have c: "cols \<in> set (db_task_events d')" using log by simp
  have "\<exists>e. decode_event_row cols = Inl e"
  proof (cases "decode_event_row cols")
    case (Inr x)
    then show ?thesis using c'(3,4)
      by (auto simp: decode_event_row_def bindE_eq_Inr_iff event_column_state_def parse_state_def
          from_parts_def mapE_def)
  qed simp
  then have "\<exists>e. select_task_events team i None d' = Inl e"
    using collectE_Inl[of cols "sort_key ec_seq (task_event_rows team i d')"] c c'(1,2)
    by (auto simp: select_task_events_def task_event_rows_def)
  then show ?thesis by (auto simp: list_task_events_def)
qed

section \<open>Prompt handoffs\<close>

definition handoff_ok :: "PromptHandoff \<Rightarrow> bool" where
  "handoff_ok h \<longleftrightarrow> valid_segment (ph_team h) \<and> valid_segment (ph_agent h) \<and> valid_task_id (ph_task_id h)
     \<and> MessageKey_new (ph_message_key h) = Inr (ph_message_key h)"

lemma template_kind_roundtrip [simp]:
  "parse_built_in_template_kind (BuiltInNudgeTemplateKind_as_str k) = Inr k"
  by (cases k) (simp_all add: parse_built_in_template_kind_def BuiltInNudgeTemplateKind_as_str_def)

lemma prompt_trigger_roundtrip [simp]: "parse_prompt_trigger (PromptTrigger_as_str t) = Inr t"
  by (cases t) (simp_all add: parse_prompt_trigger_def PromptTrigger_as_str_def)

lemma get_u32_uint [simp]: "get_u32 (uint (w :: 32 word)) = Inr w"
  using uint_lt2p[of w] by (simp add: get_u32_def)

lemma handoff_roundtrip: "handoff_ok h \<Longrightarrow> decode_prompt_handoff (handoff_cols h) = Inr h"
  by (simp add: decode_prompt_handoff_def handoff_cols_def handoff_ok_def sql_parse_def
      team_name.parse_complete agent_name.parse_complete task_id.parse_complete)

lemma handoff_once:
  assumes "record_prompt_handoff env h rows = Inr (rows', Inserted h')" "handoff_ok h"
    "handoff_key (handoff_cols h2) = handoff_key (handoff_cols h)"
  shows "h' = h" "record_prompt_handoff env h2 rows' = Inr (rows', Existing h)"
proof -
  from assms(1) have n: "find (\<lambda>r. handoff_key r = handoff_key (handoff_cols h)) rows = None"
    and r: "rows' = rows @ [handoff_cols h]" "h' = h"
    by (auto simp: record_prompt_handoff_def Let_def bindE_eq_Inr_iff split: option.splits)
  show "h' = h" by (rule r(2))
  have "find P (xs @ [x]) = Some x" if "find P xs = None" "P x" for P xs and x :: HandoffCols
    using that by (induction xs) (auto split: if_splits)
  then show "record_prompt_handoff env h2 rows' = Inr (rows', Existing h)"
    using n handoff_roundtrip[OF assms(2)]
    by (simp add: record_prompt_handoff_def Let_def r(1) assms(3) map_err_def)
qed

end
