(* ===== verification/Escalation.thy ===== *)
theory Escalation
  imports Task_Table
begin

text \<open>
  Escalation recipients (\<^verbatim>\<open>task_store.rs\<close> of both storage crates): the SQLite table, the
  in-memory store used in its place, and the contract both keep.
\<close>

section \<open>Scopes\<close>

datatype EscalationScope = ScopeDaemon | ScopeTeam TeamName

definition EscalationScope_key :: "EscalationScope \<Rightarrow> string" where
  "EscalationScope_key scope =
     (case scope of ScopeDaemon \<Rightarrow> ''daemon'' | ScopeTeam team \<Rightarrow> ''team:'' @ team)"

definition MAX_ESCALATION_RECIPIENTS :: nat where
  "MAX_ESCALATION_RECIPIENTS = 8"

definition recipients_full :: AtmError where
  "recipients_full = err_validation (''escalation recipient scope already has the maximum of ''
     @ nat_str MAX_ESCALATION_RECIPIENTS @ '' recipients'')"

lemma EscalationScope_key_inject [simp]:
  "EscalationScope_key a = EscalationScope_key b \<longleftrightarrow> a = b"
  by (cases a; cases b) (simp_all add: EscalationScope_key_def)

text \<open>A team without recipients of its own uses those of the daemon.\<close>

definition effective_escalation_recipients ::
  "(EscalationScope \<Rightarrow> AgentAddress list) \<Rightarrow> TeamName \<Rightarrow> AgentAddress list" where
  "effective_escalation_recipients listr team =
     (let team_recipients = listr (ScopeTeam team) in
      if team_recipients = [] then listr ScopeDaemon else team_recipients)"

section \<open>The SQLite table\<close>

record RecipientCols =
  rc_scope_key :: string
  rc_address :: string
  rc_added_at :: IsoTimestamp

text \<open>A stored address that does not parse is skipped.\<close>

definition list_escalation_recipients :: "RecipientCols list \<Rightarrow> EscalationScope \<Rightarrow> AgentAddress list" where
  "list_escalation_recipients rows scope =
     List.map_filter (\<lambda>address. case AgentAddress_from_str address of Inr a \<Rightarrow> Some a | Inl _ \<Rightarrow> None)
       (sort (map rc_address (filter (\<lambda>r. rc_scope_key r = EscalationScope_key scope) rows)))"

definition same_recipient :: "string \<Rightarrow> string \<Rightarrow> RecipientCols \<Rightarrow> bool" where
  "same_recipient scope_key address r \<longleftrightarrow> rc_scope_key r = scope_key \<and> rc_address r = address"

definition add_escalation_recipient ::
  "EscalationScope \<Rightarrow> AgentAddress \<Rightarrow> IsoTimestamp \<Rightarrow> RecipientCols list
   \<Rightarrow> AtmError + (RecipientCols list \<times> bool)" where
  "add_escalation_recipient scope address at rows =
     (let scope_key = EscalationScope_key scope; text = AgentAddress_display address in
      if list_ex (same_recipient scope_key text) rows then Inr (rows, False)
      else if length (filter (\<lambda>r. rc_scope_key r = scope_key) rows) \<ge> MAX_ESCALATION_RECIPIENTS then
        Inl recipients_full
      else Inr (rows @ [\<lparr>rc_scope_key = scope_key, rc_address = text, rc_added_at = at\<rparr>], True))"

definition remove_escalation_recipient ::
  "EscalationScope \<Rightarrow> AgentAddress \<Rightarrow> RecipientCols list \<Rightarrow> RecipientCols list \<times> bool" where
  "remove_escalation_recipient scope address rows =
     (let hit = same_recipient (EscalationScope_key scope) (AgentAddress_display address) in
      (filter (\<lambda>r. \<not> hit r) rows, length (filter hit rows) = 1))"

section \<open>The in-memory store\<close>

type_synonym memory_recipients = "string \<rightharpoonup> AgentAddress list"

definition dummy_list :: "memory_recipients \<Rightarrow> EscalationScope \<Rightarrow> AgentAddress list" where
  "dummy_list m scope = (case m (EscalationScope_key scope) of Some l \<Rightarrow> l | None \<Rightarrow> [])"

definition dummy_add ::
  "EscalationScope \<Rightarrow> AgentAddress \<Rightarrow> IsoTimestamp \<Rightarrow> memory_recipients
   \<Rightarrow> AtmError + (memory_recipients \<times> bool)" where
  "dummy_add scope address at m =
     (let l = dummy_list m scope in
      if address \<in> set l then Inr (m(EscalationScope_key scope \<mapsto> l), False)
      else if length l \<ge> MAX_ESCALATION_RECIPIENTS then Inl recipients_full
      else Inr (m(EscalationScope_key scope \<mapsto> l @ [address]), True))"

definition dummy_remove ::
  "EscalationScope \<Rightarrow> AgentAddress \<Rightarrow> memory_recipients \<Rightarrow> memory_recipients \<times> bool" where
  "dummy_remove scope address m =
     (case m (EscalationScope_key scope) of
        None \<Rightarrow> (m, False)
      | Some l \<Rightarrow>
          let kept = filter (\<lambda>a. a \<noteq> address) l
          in (m(EscalationScope_key scope \<mapsto> kept), length kept \<noteq> length l))"

section \<open>The contract\<close>

locale recipient_store =
  fixes listr :: "'s \<Rightarrow> EscalationScope \<Rightarrow> AgentAddress list"
    and addr :: "EscalationScope \<Rightarrow> AgentAddress \<Rightarrow> IsoTimestamp \<Rightarrow> 's \<Rightarrow> AtmError + ('s \<times> bool)"
    and remover :: "EscalationScope \<Rightarrow> AgentAddress \<Rightarrow> 's \<Rightarrow> 's \<times> bool"
    and ok :: "'s \<Rightarrow> bool"
  assumes list_distinct: "ok s \<Longrightarrow> distinct (listr s sc)"
    and list_bounded: "ok s \<Longrightarrow> length (listr s sc) \<le> MAX_ESCALATION_RECIPIENTS"
    and add_cases: "ok s \<Longrightarrow> valid_address a \<Longrightarrow> addr sc a at s = Inr (s', b) \<Longrightarrow>
        ok s' \<and> (b \<longleftrightarrow> a \<notin> set (listr s sc))
        \<and> (\<forall>sc'. set (listr s' sc') = (if sc' = sc then insert a (set (listr s sc)) else set (listr s sc')))"
    and add_refused: "ok s \<Longrightarrow> valid_address a \<Longrightarrow> addr sc a at s = Inl e \<longleftrightarrow>
        e = recipients_full \<and> a \<notin> set (listr s sc) \<and> length (listr s sc) = MAX_ESCALATION_RECIPIENTS"
    and remove_cases: "ok s \<Longrightarrow> valid_address a \<Longrightarrow> remover sc a s = (s', b) \<Longrightarrow>
        ok s' \<and> (b \<longleftrightarrow> a \<in> set (listr s sc))
        \<and> (\<forall>sc'. set (listr s' sc') = (if sc' = sc then set (listr s sc) - {a} else set (listr s sc')))"
begin

lemma add_lookup:
  assumes "ok s" "valid_address a" "addr sc a at s = Inr (s', b)"
  shows "a \<in> set (listr s' sc)"
  using add_cases[OF assms] by simp

lemma add_again:
  assumes "ok s" "valid_address a" "addr sc a at s = Inr (s', b)"
  shows "\<exists>s''. addr sc a at' s' = Inr (s'', False)"
proof -
  have ok': "ok s'" and mem: "a \<in> set (listr s' sc)" using add_cases[OF assms] by auto
  show ?thesis
  proof (cases "addr sc a at' s'")
    case (Inl e)
    then show ?thesis using add_refused[OF ok' assms(2)] mem by blast
  next
    case (Inr x)
    then show ?thesis using add_cases[OF ok' assms(2), of sc at' "fst x" "snd x"] mem by (cases x) auto
  qed
qed

lemma remove_frees:
  assumes ok: "ok s" and a: "valid_address a" "a \<in> set (listr s sc)" and b: "valid_address b"
    and r: "remover sc a s = (s', f)"
  shows "\<exists>s'' n. addr sc b at s' = Inr (s'', n)"
proof -
  have ok': "ok s'" and s': "set (listr s' sc) = set (listr s sc) - {a}"
    using remove_cases[OF ok a(1) r] by auto
  have "length (listr s' sc) < length (listr s sc)"
    using list_distinct[OF ok, of sc] list_distinct[OF ok', of sc] s' a(2)
    by (metis card_Diff1_less distinct_card List.finite_set)
  then have "length (listr s' sc) \<noteq> MAX_ESCALATION_RECIPIENTS" using list_bounded[OF ok, of sc] by simp
  then show ?thesis using add_refused[OF ok' b] by (cases "addr sc b at s'") auto
qed

end

section \<open>The table keeps the contract\<close>

definition scope_rows :: "EscalationScope \<Rightarrow> RecipientCols list \<Rightarrow> RecipientCols list" where
  "scope_rows scope rows = filter (\<lambda>r. rc_scope_key r = EscalationScope_key scope) rows"

definition stored_address :: "RecipientCols \<Rightarrow> AgentAddress option" where
  "stored_address r = (case AgentAddress_from_str (rc_address r) of Inr a \<Rightarrow> Some a | Inl _ \<Rightarrow> None)"

definition written :: "RecipientCols \<Rightarrow> bool" where
  "written r \<longleftrightarrow> (case stored_address r of
     Some a \<Rightarrow> valid_address a \<and> rc_address r = AgentAddress_display a | None \<Rightarrow> False)"

definition recipients_ok :: "RecipientCols list \<Rightarrow> bool" where
  "recipients_ok rows \<longleftrightarrow> distinct (map (\<lambda>r. (rc_scope_key r, rc_address r)) rows)
     \<and> list_all written rows
     \<and> (\<forall>scope. length (scope_rows scope rows) \<le> MAX_ESCALATION_RECIPIENTS)"

lemma display_inject:
  "valid_address a \<Longrightarrow> valid_address b \<Longrightarrow> AgentAddress_display a = AgentAddress_display b \<longleftrightarrow> a = b"
  by (metis AgentAddress_from_display sum.inject(2))

lemma written_display:
  "valid_address a \<Longrightarrow> written r \<Longrightarrow> rc_address r = AgentAddress_display a \<longleftrightarrow> stored_address r = Some a"
  by (auto simp: written_def stored_address_def AgentAddress_from_display display_inject
      split: option.splits sum.splits)

lemma written_stored:
  "written r \<Longrightarrow> \<exists>a. stored_address r = Some a \<and> valid_address a \<and> rc_address r = AgentAddress_display a"
  by (cases "stored_address r") (simp_all add: written_def)

text \<open>Listing in the order of the address text.\<close>

lemma list_recipients_eq:
  "list_escalation_recipients rows scope =
     List.map_filter stored_address (sort_key rc_address (scope_rows scope rows))"
proof -
  have ins: "map rc_address (insort_key rc_address x xs) = insort (rc_address x) (map rc_address xs)" for x xs
    by (induction xs) simp_all
  have "sort (map rc_address xs) = map rc_address (sort_key rc_address xs)" for xs
    by (induction xs) (simp_all add: ins)
  then have "sort (map rc_address (scope_rows scope rows)) = map rc_address (sort_key rc_address (scope_rows scope rows))" .
  moreover have "List.map_filter f (map g xs) = List.map_filter (\<lambda>x. f (g x)) xs"
    for f :: "string \<Rightarrow> AgentAddress option" and g :: "RecipientCols \<Rightarrow> string" and xs
    by (induction xs) (simp_all add: List.map_filter_simps split: option.splits)
  ultimately show ?thesis
    by (simp add: list_escalation_recipients_def scope_rows_def stored_address_def[abs_def])
qed

lemma map_filter_total: "list_all (\<lambda>x. f x \<noteq> None) xs \<Longrightarrow> map Some (List.map_filter f xs) = map f xs"
  by (induction xs) (auto simp: List.map_filter_simps)

lemma list_recipients_ok:
  assumes "recipients_ok rows"
  shows "map Some (list_escalation_recipients rows scope) = map stored_address (sort_key rc_address (scope_rows scope rows))"
    "length (list_escalation_recipients rows scope) = length (scope_rows scope rows)"
    "distinct (list_escalation_recipients rows scope)"
    "valid_address a \<Longrightarrow> a \<in> set (list_escalation_recipients rows scope) \<longleftrightarrow>
       list_ex (same_recipient (EscalationScope_key scope) (AgentAddress_display a)) rows"
proof -
  let ?rs = "sort_key rc_address (scope_rows scope rows)"
  have w: "written r" if "r \<in> set rows" for r using assms that by (simp add: recipients_ok_def list_all_iff)
  have sub: "set ?rs \<subseteq> set rows" by (auto simp: scope_rows_def)
  have "stored_address r \<noteq> None" if "r \<in> set ?rs" for r
    using written_stored[OF w[OF subsetD[OF sub that]]] by auto
  then show eq: "map Some (list_escalation_recipients rows scope) = map stored_address ?rs"
    unfolding list_recipients_eq by (intro map_filter_total) (auto simp: list_all_iff)
  from arg_cong[OF this, of length] show "length (list_escalation_recipients rows scope) = length (scope_rows scope rows)"
    by simp
  have "inj_on stored_address (set ?rs)"
  proof (rule inj_onI)
    fix x y assume xy: "x \<in> set ?rs" "y \<in> set ?rs" "stored_address x = stored_address y"
    then have "rc_address x = rc_address y"
      using written_stored[OF w[OF subsetD[OF sub xy(1)]]] written_stored[OF w[OF subsetD[OF sub xy(2)]]]
      by auto
    moreover have "rc_scope_key x = rc_scope_key y" using xy by (simp add: scope_rows_def)
    ultimately show "x = y"
      using assms xy sub by (auto simp: recipients_ok_def distinct_map inj_on_def)
  qed
  moreover have "distinct ?rs"
    using assms by (auto simp: recipients_ok_def distinct_map scope_rows_def)
  ultimately have "distinct (map Some (list_escalation_recipients rows scope))"
    unfolding eq by (simp add: distinct_map)
  then show "distinct (list_escalation_recipients rows scope)" by (simp add: distinct_map)
  assume a: "valid_address a"
  have "a \<in> set (list_escalation_recipients rows scope) \<longleftrightarrow> Some a \<in> set (map stored_address ?rs)"
    unfolding eq[symmetric] by auto
  also have "\<dots> \<longleftrightarrow> list_ex (same_recipient (EscalationScope_key scope) (AgentAddress_display a)) rows"
    using written_display[OF a w]
    by (auto simp: scope_rows_def list_ex_iff same_recipient_def image_iff intro!: bexI)
  finally show "a \<in> set (list_escalation_recipients rows scope) \<longleftrightarrow>
       list_ex (same_recipient (EscalationScope_key scope) (AgentAddress_display a)) rows" .
qed

lemma listed_valid:
  assumes "recipients_ok rows" "a \<in> set (list_escalation_recipients rows scope)"
  shows "valid_address a"
proof -
  have "Some a \<in> set (map stored_address (sort_key rc_address (scope_rows scope rows)))"
    unfolding list_recipients_ok(1)[OF assms(1), symmetric] using assms(2) by simp
  then obtain r where "r \<in> set rows" "stored_address r = Some a" by (auto simp: scope_rows_def)
  then show ?thesis using assms(1) by (auto simp: recipients_ok_def list_all_iff written_def)
qed

lemma scope_rows_append [simp]: "scope_rows sc (xs @ ys) = scope_rows sc xs @ scope_rows sc ys"
  by (simp add: scope_rows_def)

lemma list_recipients_set:
  assumes "recipients_ok rows"
  shows "set (list_escalation_recipients rows sc) = {a. valid_address a \<and>
     list_ex (same_recipient (EscalationScope_key sc) (AgentAddress_display a)) rows}"
  using list_recipients_ok(4)[OF assms] listed_valid[OF assms] by blast

lemma added_ok:
  assumes ok: "recipients_ok rows" and a: "valid_address a"
    and new: "\<not> list_ex (same_recipient (EscalationScope_key sc) (AgentAddress_display a)) rows"
    and room: "length (scope_rows sc rows) < MAX_ESCALATION_RECIPIENTS"
  shows "recipients_ok (rows @ [\<lparr>rc_scope_key = EscalationScope_key sc,
    rc_address = AgentAddress_display a, rc_added_at = at\<rparr>])"
proof -
  let ?r = "\<lparr>rc_scope_key = EscalationScope_key sc, rc_address = AgentAddress_display a, rc_added_at = at\<rparr>"
  have "written ?r" using a by (simp add: written_def stored_address_def AgentAddress_from_display)
  moreover have "length (scope_rows sc' (rows @ [?r])) \<le> MAX_ESCALATION_RECIPIENTS" for sc'
    using ok room by (cases "sc' = sc") (auto simp: recipients_ok_def scope_rows_def)
  moreover have "(rc_scope_key ?r, rc_address ?r) \<notin> set (map (\<lambda>r. (rc_scope_key r, rc_address r)) rows)"
    using new by (auto simp: list_ex_iff same_recipient_def image_iff)
  ultimately show ?thesis using ok by (simp add: recipients_ok_def)
qed

lemma removed_ok:
  assumes "recipients_ok rows"
  shows "recipients_ok (filter P rows)"
proof -
  have "length (scope_rows sc (filter P rows)) \<le> length (scope_rows sc rows)" for sc
    by (induction rows) (auto simp: scope_rows_def)
  then show ?thesis
    using assms by (fastforce simp: recipients_ok_def distinct_map_filter list_all_iff intro: le_trans)
qed

lemma remove_count:
  assumes "recipients_ok rows"
  shows "length (filter (same_recipient k t) rows) = 1 \<longleftrightarrow> list_ex (same_recipient k t) rows"
proof -
  have d: "distinct (map (\<lambda>r. (rc_scope_key r, rc_address r)) rows)" using assms by (simp add: recipients_ok_def)
  then show ?thesis
  proof (induction rows)
    case (Cons r rows)
    have "same_recipient k t r \<Longrightarrow> filter (same_recipient k t) rows = []"
      using Cons.prems by (auto simp: filter_empty_conv same_recipient_def image_iff)
    then show ?case using Cons by auto
  qed simp
qed

interpretation table: recipient_store list_escalation_recipients add_escalation_recipient
  remove_escalation_recipient recipients_ok
proof
  fix s :: "RecipientCols list" and sc a at s' b e
  assume ok: "recipients_ok s"
  note l = list_recipients_ok[OF ok]
  have len: "length (list_escalation_recipients s sc) = length (filter (\<lambda>r. rc_scope_key r = EscalationScope_key sc) s)"
    using l(2)[of sc] by (simp add: scope_rows_def)
  show "distinct (list_escalation_recipients s sc)" by (rule l(3))
  show le: "length (list_escalation_recipients s sc) \<le> MAX_ESCALATION_RECIPIENTS"
    using ok l(2)[of sc] by (simp add: recipients_ok_def)
  assume a: "valid_address a"
  show "add_escalation_recipient sc a at s = Inl e \<longleftrightarrow> e = recipients_full
      \<and> a \<notin> set (list_escalation_recipients s sc)
      \<and> length (list_escalation_recipients s sc) = MAX_ESCALATION_RECIPIENTS"
    using le unfolding add_escalation_recipient_def Let_def l(4)[OF a] len by auto
  {
    assume "add_escalation_recipient sc a at s = Inr (s', b)"
    then consider "s' = s" "\<not> b" "a \<in> set (list_escalation_recipients s sc)"
      | "s' = s @ [\<lparr>rc_scope_key = EscalationScope_key sc, rc_address = AgentAddress_display a, rc_added_at = at\<rparr>]"
        "b" "a \<notin> set (list_escalation_recipients s sc)" "recipients_ok s'"
      using added_ok[OF ok a, of sc at] unfolding l(4)[OF a] add_escalation_recipient_def Let_def
      by (auto simp: scope_rows_def split: if_splits)
    then show "recipients_ok s' \<and> (b \<longleftrightarrow> a \<notin> set (list_escalation_recipients s sc))
      \<and> (\<forall>sc'. set (list_escalation_recipients s' sc') =
        (if sc' = sc then insert a (set (list_escalation_recipients s sc)) else set (list_escalation_recipients s sc')))"
      using ok a by cases (auto simp: list_recipients_set same_recipient_def display_inject)
  }
  assume r: "remove_escalation_recipient sc a s = (s', b)"
  then have s': "s' = filter (\<lambda>r. \<not> same_recipient (EscalationScope_key sc) (AgentAddress_display a) r) s"
    and b: "b \<longleftrightarrow> a \<in> set (list_escalation_recipients s sc)"
    using remove_count[OF ok] unfolding l(4)[OF a] by (auto simp: remove_escalation_recipient_def Let_def)
  have ok': "recipients_ok s'" unfolding s' by (rule removed_ok[OF ok])
  show "recipients_ok s' \<and> (b \<longleftrightarrow> a \<in> set (list_escalation_recipients s sc))
      \<and> (\<forall>sc'. set (list_escalation_recipients s' sc') =
        (if sc' = sc then set (list_escalation_recipients s sc) - {a} else set (list_escalation_recipients s sc')))"
    using b a unfolding list_recipients_set[OF ok'] list_recipients_set[OF ok]
    by (simp add: ok') (auto simp: s' list_ex_iff same_recipient_def display_inject)
qed

section \<open>The in-memory store keeps it too\<close>

definition memory_ok :: "memory_recipients \<Rightarrow> bool" where
  "memory_ok m \<longleftrightarrow> (\<forall>l\<in>ran m. distinct l \<and> length l \<le> MAX_ESCALATION_RECIPIENTS)"

lemma dummy_list_upd [simp]:
  "dummy_list (m(EscalationScope_key sc \<mapsto> l)) sc' = (if sc' = sc then l else dummy_list m sc')"
  by (simp add: dummy_list_def)

lemma memory_ok_list:
  "memory_ok m \<Longrightarrow> distinct (dummy_list m sc) \<and> length (dummy_list m sc) \<le> MAX_ESCALATION_RECIPIENTS"
  by (auto simp: memory_ok_def dummy_list_def ran_def split: option.splits)

lemma memory_ok_upd:
  "memory_ok m \<Longrightarrow> distinct l \<Longrightarrow> length l \<le> MAX_ESCALATION_RECIPIENTS \<Longrightarrow> memory_ok (m(k \<mapsto> l))"
  by (auto simp: memory_ok_def ran_def)

lemma length_filter_neq: "length (filter (\<lambda>x. x \<noteq> a) l) = length l \<longleftrightarrow> a \<notin> set l"
proof (induction l)
  case (Cons x l)
  have "length (filter (\<lambda>x. x \<noteq> a) l) \<noteq> Suc (length l)"
    using length_filter_le[of "\<lambda>x. x \<noteq> a" l] by linarith
  then show ?case using Cons by auto
qed simp

lemma dummy_remove_eq:
  "dummy_remove sc a m = (s', b) \<Longrightarrow>
     (s' = m(EscalationScope_key sc \<mapsto> filter (\<lambda>x. x \<noteq> a) (dummy_list m sc)) \<or> s' = m \<and> dummy_list m sc = [])
     \<and> (b \<longleftrightarrow> a \<in> set (dummy_list m sc))"
  by (auto simp: dummy_remove_def dummy_list_def Let_def length_filter_neq split: option.splits)

interpretation memory: recipient_store dummy_list dummy_add dummy_remove memory_ok
proof
  fix s :: memory_recipients and sc a at s' b e
  assume ok: "memory_ok s"
  note l = memory_ok_list[OF ok, of sc]
  show "distinct (dummy_list s sc)" "length (dummy_list s sc) \<le> MAX_ESCALATION_RECIPIENTS" using l by auto
  show "dummy_add sc a at s = Inl e \<longleftrightarrow> e = recipients_full \<and> a \<notin> set (dummy_list s sc)
      \<and> length (dummy_list s sc) = MAX_ESCALATION_RECIPIENTS"
    using l unfolding dummy_add_def Let_def by auto
  show "memory_ok s' \<and> (b \<longleftrightarrow> a \<notin> set (dummy_list s sc))
      \<and> (\<forall>sc'. set (dummy_list s' sc') =
        (if sc' = sc then insert a (set (dummy_list s sc)) else set (dummy_list s sc')))"
    if "dummy_add sc a at s = Inr (s', b)"
    using that l ok unfolding dummy_add_def Let_def
    by (auto intro!: memory_ok_upd split: if_splits)
  show "memory_ok s' \<and> (b \<longleftrightarrow> a \<in> set (dummy_list s sc))
      \<and> (\<forall>sc'. set (dummy_list s' sc') =
        (if sc' = sc then set (dummy_list s sc) - {a} else set (dummy_list s sc')))"
    if r: "dummy_remove sc a s = (s', b)"
    using dummy_remove_eq[OF r] l ok
    by (auto intro!: memory_ok_upd le_trans[OF length_filter_le])
qed

section \<open>The table refines the in-memory store\<close>

definition same_recipients :: "memory_recipients \<Rightarrow> RecipientCols list \<Rightarrow> bool" where
  "same_recipients m rows \<longleftrightarrow> memory_ok m \<and> recipients_ok rows
     \<and> (\<forall>sc. set (dummy_list m sc) = set (list_escalation_recipients rows sc))"

lemma same_recipients_length:
  assumes "same_recipients m rows"
  shows "length (dummy_list m sc) = length (list_escalation_recipients rows sc)"
  using assms memory.list_distinct[of m sc] table.list_distinct[of rows sc]
  by (metis distinct_card same_recipients_def)

lemma add_refines:
  assumes sim: "same_recipients m rows" and a: "valid_address a"
  shows "case add_escalation_recipient sc a at rows of
      Inl e \<Rightarrow> dummy_add sc a at m = Inl e
    | Inr (rows', b) \<Rightarrow> \<exists>m'. dummy_add sc a at m = Inr (m', b) \<and> same_recipients m' rows'"
proof (cases "add_escalation_recipient sc a at rows")
  case (Inl e)
  then show ?thesis
    using sim a table.add_refused[of rows a sc at e] memory.add_refused[of m a sc at e]
      same_recipients_length[OF sim, of sc] by (simp add: same_recipients_def)
next
  case (Inr x)
  obtain rows' b where x: "x = (rows', b)" by (cases x)
  have oks: "memory_ok m" "recipients_ok rows" using sim by (simp_all add: same_recipients_def)
  note t = table.add_cases[OF oks(2) a Inr[unfolded x]]
  obtain m' b' where m': "dummy_add sc a at m = Inr (m', b')"
  proof (cases "dummy_add sc a at m")
    case i: (Inl e)
    then show thesis
      using Inr x memory.add_refused[OF oks(1) a, of sc at e] table.add_refused[OF oks(2) a, of sc at e]
        sim same_recipients_length[OF sim, of sc] by (simp add: same_recipients_def)
  qed (use that in auto)
  show ?thesis using t memory.add_cases[OF oks(1) a m'] m' sim Inr x by (auto simp: same_recipients_def)
qed

lemma remove_refines:
  assumes sim: "same_recipients m rows" and a: "valid_address a"
    and r: "remove_escalation_recipient sc a rows = (rows', b)"
  shows "\<exists>m'. dummy_remove sc a m = (m', b) \<and> same_recipients m' rows'"
proof -
  have oks: "memory_ok m" "recipients_ok rows" using sim by (simp_all add: same_recipients_def)
  obtain m' b' where m': "dummy_remove sc a m = (m', b')" by fastforce
  show ?thesis
    using table.remove_cases[OF oks(2) a r] memory.remove_cases[OF oks(1) a m'] m' sim
    by (auto simp: same_recipients_def)
qed

end
