(* ===== verification/Store_Properties.thy ===== *)
theory Store_Properties
  imports Scenario Task_Store Escalation
begin

text \<open>
  The properties of the operations beside the writer lane: reminders, prompt handoffs and
  escalation recipients.
\<close>

section \<open>Reminders\<close>

text \<open>
  Property C36: reminding the assignee of an open task raises the task's reminder count by one
  without wrapping, keeps its state and position and every queue, and keeps the store in order;
  a reminder addressed to another member leaves the task as it is.
\<close>

theorem reminder_counts_once:
  assumes "store_ok d" "load_task_row env team i d = Inr (Some row)" "is_open (tr_state row)"
    "valid_segment agent" "record_reminder env team agent i at outcome d = Inr (d', row', ev)"
  shows "store_ok d' \<and> queue_ids t b (db_tasks d') = queue_ids t b (db_tasks d)
    \<and> (if tr_assignee row = agent
       then unat (tr_reminder_count row') = unat (tr_reminder_count row) + 1
         \<and> tr_last_reminded_at row' = Some at \<and> tr_state row' = tr_state row
         \<and> tr_position row' = tr_position row
       else row' = row)"
  using reminder_store_ok[OF assms] reminder_counts[OF assms(1,2,5)] by simp

lemma row_b: "(case load_task_row env0 ''t'' ''b'' db3 of Inr (Some r) \<Rightarrow> is_open (tr_state r) \<and> tr_assignee r = ''W''
      | _ \<Rightarrow> False)"
  by code_simp

theorem reminder_counts_once_witness:
  "\<exists>row d' row' ev. load_task_row env0 ''t'' ''b'' db3 = Inr (Some row)
     \<and> record_reminder env0 ''t'' ''W'' ''b'' 50 Emitted db3 = Inr (d', row', ev)
     \<and> unat (tr_reminder_count row') = unat (tr_reminder_count row) + 1"
proof -
  obtain row where row: "load_task_row env0 ''t'' ''b'' db3 = Inr (Some row)" "is_open (tr_state row)"
    "tr_assignee row = ''W''" using row_b by (auto split: sum.split_asm option.split_asm)
  have "runs (record_reminder env0 ''t'' ''W'' ''b'' 50 Emitted db3)" by code_simp
  then obtain d' row' ev where run: "record_reminder env0 ''t'' ''W'' ''b'' 50 Emitted db3 = Inr (d', row', ev)"
    using runs_Inr by fastforce
  have "valid_segment ''W''" by code_simp
  then show ?thesis using reminder_counts_once[OF dbs_ok(3) row(1,2) _ run] row run by auto
qed

text \<open>
  Resetting the reminders of the assignee clears the count and keeps the record that
  the lead was notified.
\<close>

lemma reset_keeps_lead_latch:
  assumes "store_ok d" "load_task_row env team i d = Inr (Some row)" "tr_assignee row = agent"
    "reset_reminders env team agent i at d = Inr (d', row', ev)"
  shows "tr_reminder_count row' = 0 \<and> tr_lead_notified_count row' = tr_lead_notified_count row"
  using reset_latch[OF assms(2,4)] assms(1,3) by simp

lemma reset_keeps_lead_latch_example:
  "\<exists>row d' row' ev. load_task_row env0 ''t'' ''b'' db3 = Inr (Some row)
     \<and> reset_reminders env0 ''t'' ''W'' ''b'' 50 db3 = Inr (d', row', ev)
     \<and> tr_lead_notified_count row' = tr_lead_notified_count row"
proof -
  obtain row where row: "load_task_row env0 ''t'' ''b'' db3 = Inr (Some row)" "tr_assignee row = ''W''"
    using row_b by (auto split: sum.split_asm option.split_asm)
  have "runs (reset_reminders env0 ''t'' ''W'' ''b'' 50 db3)" by code_simp
  then obtain d' row' ev where run: "reset_reminders env0 ''t'' ''W'' ''b'' 50 db3 = Inr (d', row', ev)"
    using runs_Inr by fastforce
  show ?thesis using reset_keeps_lead_latch[OF dbs_ok(3) row run] row run by blast
qed

text \<open>
  Property C37: a reminder recorded for a closed task makes the event log of that task unreadable:
  its event is stored without the close outcome, and listing the events fails from then on.
\<close>

theorem closed_reminder_breaks_log:
  assumes "load_task_row env team i d = Inr (Some row)" "tr_state row = Complete oc"
    "record_reminder env team agent i at outcome d = Inr (d', row', ev)"
  shows "\<exists>e. list_task_events env team i None d' = Inl e"
  by (rule closed_reminder_log[OF assms])

theorem closed_reminder_breaks_log_witness:
  "\<exists>d' row' ev e. runs (list_task_events env0 ''t'' ''b'' None db4)
     \<and> record_reminder env0 ''t'' ''W'' ''b'' 50 Emitted db4 = Inr (d', row', ev)
     \<and> list_task_events env0 ''t'' ''b'' None d' = Inl e"
proof -
  have "(case load_task_row env0 ''t'' ''b'' db4 of Inr (Some r) \<Rightarrow> tr_state r = Complete Completed | _ \<Rightarrow> False)"
    by code_simp
  then obtain row where row: "load_task_row env0 ''t'' ''b'' db4 = Inr (Some row)" "tr_state row = Complete Completed"
    by (auto split: sum.split_asm option.split_asm)
  have "runs (record_reminder env0 ''t'' ''W'' ''b'' 50 Emitted db4)" by code_simp
  then obtain d' row' ev where run: "record_reminder env0 ''t'' ''W'' ''b'' 50 Emitted db4 = Inr (d', row', ev)"
    using runs_Inr by fastforce
  have "runs (list_task_events env0 ''t'' ''b'' None db4)" by code_simp
  then show ?thesis using closed_reminder_breaks_log[OF row run] run by blast
qed

section \<open>Prompt handoffs\<close>

text \<open>
  A prompt handoff is recorded once: recording one with the same member, message,
  kind and attempt again changes nothing and returns the first one.
\<close>

lemma handoff_recorded_once:
  assumes "handoff_ok h" "record_prompt_handoff env h rows = Inr (rows', Inserted h')"
    "handoff_key (handoff_cols h2) = handoff_key (handoff_cols h)"
  shows "record_prompt_handoff env h2 rows' = Inr (rows', Existing h)"
  by (rule handoff_once(2)[OF assms(2,1,3)])

definition handoff0 :: PromptHandoff where
  "handoff0 = \<lparr>ph_team = ''t'', ph_agent = ''W'', ph_message_key = ''atm:1'', ph_kind = NTaskReady,
     ph_task_id = ''a'', ph_attempt = 0, ph_trigger = Steer, ph_at = 3\<rparr>"

lemma handoff_recorded_once_example:
  "record_prompt_handoff env0 (handoff0\<lparr>ph_at := 9\<rparr>) [handoff_cols handoff0]
     = Inr ([handoff_cols handoff0], Existing handoff0)"
proof (rule handoff_recorded_once)
  show "handoff_ok handoff0"
  proof -
    have "valid_segment ''t''" "valid_segment ''W''" "valid_task_id ''a''" by code_simp+
    moreover have "MessageKey_new ''atm:1'' = Inr ''atm:1''" by code_simp
    ultimately show ?thesis by (simp add: handoff_ok_def handoff0_def)
  qed
  show "record_prompt_handoff env0 handoff0 [] = Inr ([handoff_cols handoff0], Inserted handoff0)"
    by (simp add: record_prompt_handoff_def)
  show "handoff_key (handoff_cols (handoff0\<lparr>ph_at := 9\<rparr>)) = handoff_key (handoff_cols handoff0)"
    by (simp add: handoff_key_def handoff_cols_def)
qed

section \<open>Escalation recipients\<close>

text \<open>
  Property C35: the SQLite table of escalation recipients refines the in-memory store: adding gives
  the same answer or the same error and keeps the recipients of every scope the same.
\<close>

theorem recipients_add_refines:
  assumes "same_recipients m rows" "valid_address a"
  shows "case add_escalation_recipient sc a at rows of
      Inl e \<Rightarrow> dummy_add sc a at m = Inl e
    | Inr (rows', b) \<Rightarrow> \<exists>m'. dummy_add sc a at m = Inr (m', b) \<and> same_recipients m' rows'"
  by (rule add_refines[OF assms])

definition addr0 :: AgentAddress where
  "addr0 = \<lparr>addr_agent = ''W'', addr_chat_id = None, addr_team = Some ''t'', addr_host = None\<rparr>"

lemma addr0_valid: "valid_address addr0"
  by code_simp

lemma no_recipients: "same_recipients Map.empty []"
  by (simp add: same_recipients_def memory_ok_def recipients_ok_def scope_rows_def dummy_list_def
      list_escalation_recipients_def)

theorem recipients_add_refines_witness:
  "\<exists>m' rows'. add_escalation_recipient ScopeDaemon addr0 5 [] = Inr (rows', True)
     \<and> dummy_add ScopeDaemon addr0 5 Map.empty = Inr (m', True) \<and> same_recipients m' rows'"
proof -
  obtain rows' where "add_escalation_recipient ScopeDaemon addr0 5 [] = Inr (rows', True)"
    by (simp add: add_escalation_recipient_def Let_def MAX_ESCALATION_RECIPIENTS_def)
  then show ?thesis
    using recipients_add_refines[OF no_recipients addr0_valid, of ScopeDaemon 5] by auto
qed

text \<open>
  Removing a recipient refines the in-memory store too, and makes room in a full
  scope.
\<close>

lemma recipients_remove_refines:
  assumes "same_recipients m rows" "valid_address a" "valid_address c"
    "remove_escalation_recipient sc a rows = (rows', b)"
  shows "(\<exists>m'. dummy_remove sc a m = (m', b) \<and> same_recipients m' rows')
    \<and> (b \<longrightarrow> (\<exists>rows'' n. add_escalation_recipient sc c at rows' = Inr (rows'', n)))"
proof -
  have ok: "recipients_ok rows" using assms(1) by (simp add: same_recipients_def)
  have "a \<in> set (list_escalation_recipients rows sc)" if b
    using table.remove_cases[OF ok assms(2,4)] that by simp
  then show ?thesis
    using remove_refines[OF assms(1,2,4)] table.remove_frees[OF ok assms(2) _ assms(3,4)] by blast
qed

lemma recipients_remove_refines_example:
  "\<exists>rows m rows' m' rows'' n. list_escalation_recipients rows ScopeDaemon = [addr0]
     \<and> remove_escalation_recipient ScopeDaemon addr0 rows = (rows', True)
     \<and> dummy_remove ScopeDaemon addr0 m = (m', True) \<and> same_recipients m' rows'
     \<and> add_escalation_recipient ScopeDaemon addr0 7 rows' = Inr (rows'', n)"
proof -
  obtain rows where add: "add_escalation_recipient ScopeDaemon addr0 5 [] = Inr (rows, True)"
    by (simp add: add_escalation_recipient_def Let_def MAX_ESCALATION_RECIPIENTS_def)
  then obtain m where m: "same_recipients m rows"
    using add_refines[OF no_recipients addr0_valid, of ScopeDaemon 5] by auto
  have "list_escalation_recipients (fst (projr (add_escalation_recipient ScopeDaemon addr0 5 [])))
      ScopeDaemon = [addr0]"
    "snd (remove_escalation_recipient ScopeDaemon addr0
      (fst (projr (add_escalation_recipient ScopeDaemon addr0 5 []))))" by code_simp+
  then have "list_escalation_recipients rows ScopeDaemon = [addr0]"
    and "snd (remove_escalation_recipient ScopeDaemon addr0 rows)" by (simp_all add: add)
  moreover from this obtain rows' where
    "remove_escalation_recipient ScopeDaemon addr0 rows = (rows', True)" by (metis prod.collapse)
  ultimately show ?thesis
    using recipients_remove_refines[OF m addr0_valid addr0_valid, of ScopeDaemon rows' True 7] by blast
qed

end
