(* ===== verification/Cron_Schedule.thy ===== *)
theory Cron_Schedule
  imports Mail_Table
begin

text \<open>
  The cron schedule store: the contract of \<^verbatim>\<open>atm-storage/src/cron_schedule_store.rs\<close>, the table
  \<^verbatim>\<open>cron_schedule\<close> of \<^verbatim>\<open>hook_schema.rs\<close> and its adapter
  \<^verbatim>\<open>atm-storage-rusqlite/src/cron_schedule_store.rs\<close>.  Every operation is one transaction:
  an error leaves the tables as they were.  Time stamps are kept as values, paths as their
  text; the two JSON columns are text, printed and parsed by the functions of
  \<open>cron_json\<close>, which stand for the serializer.
\<close>

section \<open>Names and phases\<close>

type_synonym CronScheduleId = nat
type_synonym CronGeneration = "32 word"
type_synonym PhaseId = string
type_synonym CronName = string

definition hook_malformed :: "string \<Rightarrow> AtmError" where
  "hook_malformed detail = AtmError_new (PostSendOrMisc HookMalformed) (''HOOK.MALFORMED: '' @ detail)"

definition hook_module_invalid :: "string \<Rightarrow> AtmError" where
  "hook_module_invalid detail =
     AtmError_new (PostSendOrMisc HookModuleInvalid) (''HOOK.MODULE_INVALID: '' @ detail)"

definition CRON_NAME_MAX_BYTES :: nat where
  "CRON_NAME_MAX_BYTES = 64"

definition CronName_parse :: "string \<Rightarrow> AtmError + CronName" where
  "CronName_parse value =
     (if value = [] \<or> length value > CRON_NAME_MAX_BYTES then
        Inl (hook_module_invalid ''name must contain 1..=64 bytes'')
      else Inr value)"

definition is_ascii_lowercase :: "char \<Rightarrow> bool" where
  "is_ascii_lowercase ch \<longleftrightarrow> (of_char ch :: nat) \<in> {97..122}"

fun is_phase_id :: "string \<Rightarrow> bool" where
  "is_phase_id [] = False"
| "is_phase_id (first # chars) =
     (length (first # chars) \<le> 32 \<and> is_ascii_lowercase first
      \<and> list_all (\<lambda>c. is_ascii_lowercase c \<or> is_ascii_digit c \<or> c = CHR ''-'') chars)"

definition PhaseId_parse :: "string \<Rightarrow> AtmError + PhaseId" where
  "PhaseId_parse value =
     (if is_phase_id value then Inr value
      else Inl (err_validation_with_recovery
        (''phase id '' @ value @ '' must match ^[a-z][a-z0-9-]{0,31}$'')
        ''use a lowercase phase id such as bk or bk-2''))"

section \<open>The contract\<close>

definition stopped_outcome :: "string \<Rightarrow> string" where
  "stopped_outcome reason = ''stopped: '' @ reason"

definition CronGeneration_new :: "32 word \<Rightarrow> AtmError + CronGeneration" where
  "CronGeneration_new value =
     (if value = 0 then Inl (err_validation_with_recovery ''cron generation must be at least 1''
        ''generations start at 1'')
      else Inr value)"

datatype StopCondition =
    Until IsoTimestamp
  | Hook

type_synonym json_object = "(string \<times> json) list"

record NewCronSchedule =
  nc_team :: TeamName
  nc_phase :: PhaseId
  nc_name :: string
  nc_cron_expr :: string
  nc_module_path :: string
  nc_cwd :: string
  nc_args :: "string list"
  nc_timeout_ms :: "32 word"
  nc_jitter_s :: "32 word"
  nc_custom :: json_object
  nc_stop :: StopCondition
  nc_created_by :: AgentName
  nc_created_at :: IsoTimestamp

record CronSchedule = NewCronSchedule +
  cs_id :: CronScheduleId
  cs_generation :: CronGeneration
  cs_active :: bool
  cs_last_run_at :: "IsoTimestamp option"
  cs_last_outcome :: "string option"
  cs_ended_at :: "IsoTimestamp option"

section \<open>The table\<close>

record CronCols =
  cc_id :: int
  cc_generation :: int
  cc_team :: string
  cc_phase :: string
  cc_name :: string
  cc_cron_expr :: string
  cc_module_path :: string
  cc_cwd :: string
  cc_args :: string
  cc_timeout_ms :: int
  cc_jitter_s :: int
  cc_custom :: string
  cc_active :: int
  cc_until_at :: "IsoTimestamp option"
  cc_stop_hook :: int
  cc_created_by :: string
  cc_created_at :: IsoTimestamp
  cc_last_run_at :: "IsoTimestamp option"
  cc_last_outcome :: "string option"
  cc_ended_at :: "IsoTimestamp option"

text \<open>The columns of \<^verbatim>\<open>SCHEDULE_COLUMNS\<close>, written by an insert and by a restart alike.\<close>

record ScheduleColumns =
  sl_team :: string
  sl_phase :: string
  sl_name :: string
  sl_cron_expr :: string
  sl_module_path :: string
  sl_cwd :: string
  sl_args :: string
  sl_timeout_ms :: int
  sl_jitter_s :: int
  sl_custom :: string
  sl_until_at :: "IsoTimestamp option"
  sl_stop_hook :: int
  sl_created_by :: string
  sl_created_at :: IsoTimestamp

record cron_json =
  cj_args :: "string list \<Rightarrow> string"
  cj_parse_args :: "string \<Rightarrow> string + string list"
  cj_custom :: "json_object \<Rightarrow> string"
  cj_parse_custom :: "string \<Rightarrow> json option"

text \<open>The constraints of the table, checked on every row an insert or update writes.\<close>

definition cron_row_check :: "CronCols \<Rightarrow> bool" where
  "cron_row_check r \<longleftrightarrow>
     cc_generation r \<ge> 1 \<and> cc_timeout_ms r > 0 \<and> cc_jitter_s r \<ge> 0
     \<and> cc_active r \<in> {0, 1} \<and> cc_stop_hook r \<in> {0, 1}
     \<and> (cc_until_at r \<noteq> None) \<noteq> (cc_stop_hook r = 1)
     \<and> (cc_active r = 1) = (cc_ended_at r = None)"

definition cron_slot :: "CronCols \<Rightarrow> string \<times> string \<times> string" where
  "cron_slot r = (cc_team r, cc_phase r, cc_name r)"

definition cron_clash :: "CronCols \<Rightarrow> CronCols \<Rightarrow> bool" where
  "cron_clash r o' \<longleftrightarrow> cc_id r = cc_id o' \<or> cron_slot r = cron_slot o'"

definition cron_schedule_bad :: "CronCols \<Rightarrow> CronCols list \<Rightarrow> bool" where
  "cron_schedule_bad r others \<longleftrightarrow> \<not> cron_row_check r \<or> list_ex (cron_clash r) others"

text \<open>The schedules and the counter of the \<^verbatim>\<open>AUTOINCREMENT\<close> column, the largest row id ever
  given.\<close>

record schedule_db =
  sd_rows :: "CronCols list"
  sd_sequence :: int

section \<open>Errors\<close>

definition int_str :: "int \<Rightarrow> string" where
  "int_str i = (if i < 0 then ''-'' @ nat_str (nat (- i)) else nat_str (nat i))"

definition internal :: "string \<Rightarrow> string \<Rightarrow> AtmError" where
  "internal key detail =
     AtmError_new (MailboxOrValidation InternalError) (''stored row '' @ key @ '': '' @ detail)"

definition write_error :: "env \<Rightarrow> string \<Rightarrow> sql_error \<Rightarrow> AtmError" where
  "write_error env table error =
     (case error of
        ConstraintViolation \<Rightarrow> err_validation_with_recovery (table @ '': '' @ env_sql_display env error)
          ''check the request fields against docs/atm-storage/boundaries.md''
      | _ \<Rightarrow> sqlite_error env (''failed to write '' @ table) error)"

section \<open>Encoding and decoding a row\<close>

definition stop_columns :: "StopCondition \<Rightarrow> IsoTimestamp option \<times> int" where
  "stop_columns stop = (case stop of Until at \<Rightarrow> (Some at, 0) | Hook \<Rightarrow> (None, 1))"

definition ScheduleColumns_new :: "cron_json \<Rightarrow> NewCronSchedule \<Rightarrow> ScheduleColumns" where
  "ScheduleColumns_new cj s =
     (let (until_at, stop_hook) = stop_columns (nc_stop s) in
      \<lparr>sl_team = nc_team s, sl_phase = nc_phase s, sl_name = nc_name s,
       sl_cron_expr = nc_cron_expr s, sl_module_path = nc_module_path s, sl_cwd = nc_cwd s,
       sl_args = cj_args cj (nc_args s), sl_timeout_ms = uint (nc_timeout_ms s),
       sl_jitter_s = uint (nc_jitter_s s), sl_custom = cj_custom cj (nc_custom s),
       sl_until_at = until_at, sl_stop_hook = stop_hook, sl_created_by = nc_created_by s,
       sl_created_at = nc_created_at s\<rparr>)"

definition schedule_assignments :: "ScheduleColumns \<Rightarrow> CronCols \<Rightarrow> CronCols" where
  "schedule_assignments c r = r\<lparr>
     cc_team := sl_team c, cc_phase := sl_phase c, cc_name := sl_name c,
     cc_cron_expr := sl_cron_expr c, cc_module_path := sl_module_path c, cc_cwd := sl_cwd c,
     cc_args := sl_args c, cc_timeout_ms := sl_timeout_ms c, cc_jitter_s := sl_jitter_s c,
     cc_custom := sl_custom c, cc_until_at := sl_until_at c, cc_stop_hook := sl_stop_hook c,
     cc_created_by := sl_created_by c, cc_created_at := sl_created_at c\<rparr>"

definition parse_custom :: "cron_json \<Rightarrow> string \<Rightarrow> string \<Rightarrow> AtmError + json_object" where
  "parse_custom cj key value =
     (case cj_parse_custom cj value of
        Some (JObject m) \<Rightarrow> Inr m
      | _ \<Rightarrow> Inl (internal key ''custom is not a JSON object''))"

definition u32_of :: "string \<Rightarrow> string \<Rightarrow> int \<Rightarrow> AtmError + 32 word" where
  "u32_of key detail i =
     (if 0 \<le> i \<and> i < 2 ^ 32 then Inr (word_of_int i) else Inl (internal key detail))"

definition decode_schedule :: "cron_json \<Rightarrow> CronCols \<Rightarrow> AtmError + CronSchedule" where
  "decode_schedule cj raw =
     (let key = ''cron_schedule id '' @ int_str (cc_id raw) in
      bindE (case (cc_stop_hook raw = 1, cc_until_at raw) of
               (True, None) \<Rightarrow> Inr Hook
             | (False, Some at) \<Rightarrow> Inr (Until at)
             | _ \<Rightarrow> Inl (internal key ''stop condition is neither hook nor until'')) (\<lambda>stop.
      bindE (map_err (internal key) (cj_parse_args cj (cc_args raw))) (\<lambda>args.
      bindE (if cc_id raw < 0 then Inl (internal key ''id is negative'')
             else Inr (nat (cc_id raw))) (\<lambda>sid.
      bindE (u32_of key ''generation is out of range'' (cc_generation raw)) (\<lambda>gen_value.
      bindE (map_err (\<lambda>_. internal key ''generation is zero'') (CronGeneration_new gen_value)) (\<lambda>generation.
      bindE (map_err (\<lambda>error. internal key (err_message error)) (PhaseId_parse (cc_phase raw))) (\<lambda>phase.
      bindE (u32_of key ''timeout_ms is out of range'' (cc_timeout_ms raw)) (\<lambda>timeout_ms.
      bindE (u32_of key ''jitter_s is out of range'' (cc_jitter_s raw)) (\<lambda>jitter_s.
      bindE (parse_custom cj key (cc_custom raw)) (\<lambda>custom.
      Inr \<lparr>nc_team = cc_team raw, nc_phase = phase, nc_name = cc_name raw,
           nc_cron_expr = cc_cron_expr raw, nc_module_path = cc_module_path raw,
           nc_cwd = cc_cwd raw, nc_args = args, nc_timeout_ms = timeout_ms,
           nc_jitter_s = jitter_s, nc_custom = custom, nc_stop = stop,
           nc_created_by = cc_created_by raw, nc_created_at = cc_created_at raw,
           cs_id = sid, cs_generation = generation, cs_active = (cc_active raw = 1), cs_last_run_at = cc_last_run_at raw,
           cs_last_outcome = cc_last_outcome raw, cs_ended_at = cc_ended_at raw\<rparr>))))))))))"

section \<open>Operations\<close>

definition stored_id :: "CronScheduleId \<Rightarrow> int option" where
  "stored_id sid = (if int sid > 2 ^ 63 - 1 then None else Some (int sid))"

text \<open>The defaults of the columns an insert does not name.\<close>

definition inserted_row :: "ScheduleColumns \<Rightarrow> int \<Rightarrow> CronCols" where
  "inserted_row columns rowid = schedule_assignments columns
     \<lparr>cc_id = rowid, cc_generation = 1, cc_team = [], cc_phase = [], cc_name = [],
      cc_cron_expr = [], cc_module_path = [], cc_cwd = [], cc_args = [], cc_timeout_ms = 0,
      cc_jitter_s = 0, cc_custom = [], cc_active = 1, cc_until_at = None, cc_stop_hook = 0,
      cc_created_by = [], cc_created_at = 0, cc_last_run_at = None, cc_last_outcome = None,
      cc_ended_at = None\<rparr>"

definition schedule_insert ::
  "env \<Rightarrow> ScheduleColumns \<Rightarrow> 'z schedule_db_scheme \<Rightarrow> AtmError + ('z schedule_db_scheme \<times> int)" where
  "schedule_insert env columns s =
     (let rowid = foldl max (sd_sequence s) (map cc_id (sd_rows s)) + 1 in
      bindE (map_err (write_error env ''cron_schedule'')
               (if rowid > 2 ^ 63 - 1 then Inl DatabaseFull
                else insert_row cron_schedule_bad (inserted_row columns rowid) (sd_rows s))) (\<lambda>rows.
      Inr (s\<lparr>sd_rows := rows, sd_sequence := rowid\<rparr>, rowid)))"

definition restarted :: "ScheduleColumns \<Rightarrow> CronCols \<Rightarrow> CronCols" where
  "restarted columns r = (schedule_assignments columns r)
     \<lparr>cc_generation := cc_generation r + 1, cc_active := 1, cc_last_run_at := None,
      cc_last_outcome := None, cc_ended_at := None\<rparr>"

definition schedule_restart :: "env \<Rightarrow> ScheduleColumns \<Rightarrow> int \<Rightarrow> 'z schedule_db_scheme \<Rightarrow> AtmError + 'z schedule_db_scheme" where
  "schedule_restart env columns sid s =
     bindE (map_err (write_error env ''cron_schedule'')
              (update_rows cron_schedule_bad (\<lambda>r. cc_id r = sid) (restarted columns) (sd_rows s)))
       (\<lambda>rows.
     Inr (s\<lparr>sd_rows := rows\<rparr>))"

definition read_schedule :: "cron_json \<Rightarrow> int \<Rightarrow> 'z schedule_db_scheme \<Rightarrow> AtmError + CronSchedule" where
  "read_schedule cj sid s =
     bindE (collectE (decode_schedule cj) (filter (\<lambda>r. cc_id r = sid) (sd_rows s))) (\<lambda>rows.
     case rows of
       [] \<Rightarrow> Inl (internal (''cron_schedule id '' @ int_str sid) ''row missing after start'')
     | _ \<Rightarrow> Inr (last rows))"

definition cron_start ::
  "env \<Rightarrow> cron_json \<Rightarrow> NewCronSchedule \<Rightarrow> 'z schedule_db_scheme \<Rightarrow> AtmError + ('z schedule_db_scheme \<times> CronSchedule)" where
  "cron_start env cj schedule s =
     (let columns = ScheduleColumns_new cj schedule;
          slot = (sl_team columns, sl_phase columns, sl_name columns)
      in bindE (case find (\<lambda>r. cron_slot r = slot) (sd_rows s) of
           Some r \<Rightarrow>
             if cc_active r = 1 then
               Inl (err_validation_with_recovery
                 (''cron schedule '' @ sl_name columns @ '' already active for phase '' @ sl_phase columns)
                 (''run atm cron end --phase '' @ sl_phase columns @ '' '' @ sl_name columns @ '' first''))
             else
               bindE (schedule_restart env columns (cc_id r) s) (\<lambda>s1. Inr (s1, cc_id r))
         | None \<Rightarrow> schedule_insert env columns s) (\<lambda>(s1, sid).
         bindE (read_schedule cj sid s1) (\<lambda>row. Inr (s1, row))))"

definition ends :: "TeamName \<Rightarrow> PhaseId \<Rightarrow> string option \<Rightarrow> CronCols \<Rightarrow> bool" where
  "ends team phase name r \<longleftrightarrow>
     cc_team r = team \<and> cc_phase r = phase \<and> cc_active r = 1 \<and> (name = None \<or> name = Some (cc_name r))"

definition cron_end ::
  "env \<Rightarrow> cron_json \<Rightarrow> TeamName \<Rightarrow> PhaseId \<Rightarrow> string option \<Rightarrow> IsoTimestamp \<Rightarrow> 'z schedule_db_scheme
   \<Rightarrow> AtmError + ('z schedule_db_scheme \<times> CronSchedule list)" where
  "cron_end env cj team phase name at s =
     bindE (collectE (decode_schedule cj)
              (sort_key (\<lambda>r. (cc_created_at r, cc_name r))
                (filter (ends team phase name) (sd_rows s)))) (\<lambda>selected.
     bindE (map_err (write_error env ''cron_schedule'')
              (update_rows cron_schedule_bad (ends team phase name)
                (\<lambda>r. r\<lparr>cc_active := 0, cc_ended_at := Some at\<rparr>) (sd_rows s))) (\<lambda>rows.
     Inr (s\<lparr>sd_rows := rows\<rparr>,
          map (\<lambda>row. row\<lparr>cs_active := False, cs_ended_at := Some at\<rparr>) selected)))"

definition list_query ::
  "cron_json \<Rightarrow> TeamName option \<Rightarrow> PhaseId option \<Rightarrow> bool \<Rightarrow> 'z schedule_db_scheme \<Rightarrow> AtmError + CronSchedule list" where
  "list_query cj team phase active_only s =
     collectE (decode_schedule cj)
       (sort_key (\<lambda>r. (- cc_active r, cc_created_at r, cc_phase r, cc_name r))
         (filter (\<lambda>r. (team = None \<or> team = Some (cc_team r))
             \<and> (phase = None \<or> phase = Some (cc_phase r))
             \<and> (\<not> active_only \<or> cc_active r = 1)) (sd_rows s)))"

definition cron_list ::
  "cron_json \<Rightarrow> TeamName option \<Rightarrow> PhaseId option \<Rightarrow> 'z schedule_db_scheme \<Rightarrow> AtmError + CronSchedule list" where
  "cron_list cj team phase s = list_query cj team phase False s"

definition active_all :: "cron_json \<Rightarrow> 'z schedule_db_scheme \<Rightarrow> AtmError + CronSchedule list" where
  "active_all cj s = list_query cj None None True s"

definition current_run :: "int \<Rightarrow> CronGeneration \<Rightarrow> CronCols \<Rightarrow> bool" where
  "current_run sid gen r \<longleftrightarrow>
     cc_id r = sid \<and> cc_generation r = uint gen \<and> cc_active r = 1"

definition record_run ::
  "env \<Rightarrow> CronScheduleId \<Rightarrow> CronGeneration \<Rightarrow> IsoTimestamp \<Rightarrow> string \<Rightarrow> 'z schedule_db_scheme
   \<Rightarrow> AtmError + ('z schedule_db_scheme \<times> bool)" where
  "record_run env sid gen at outcome s =
     (case stored_id sid of
        None \<Rightarrow> Inr (s, False)
      | Some i \<Rightarrow>
          bindE (map_err (write_error env ''cron_schedule'')
                   (update_rows cron_schedule_bad (current_run i gen)
                     (\<lambda>r. r\<lparr>cc_last_run_at := Some at, cc_last_outcome := Some outcome\<rparr>)
                     (sd_rows s))) (\<lambda>rows.
          Inr (s\<lparr>sd_rows := rows\<rparr>, length (filter (current_run i gen) (sd_rows s)) = 1)))"

definition record_stop ::
  "env \<Rightarrow> CronScheduleId \<Rightarrow> CronGeneration \<Rightarrow> IsoTimestamp \<Rightarrow> string \<Rightarrow> 'z schedule_db_scheme
   \<Rightarrow> AtmError + ('z schedule_db_scheme \<times> bool)" where
  "record_stop env sid gen at reason s =
     (case stored_id sid of
        None \<Rightarrow> Inr (s, False)
      | Some i \<Rightarrow>
          bindE (map_err (write_error env ''cron_schedule'')
                   (update_rows cron_schedule_bad (current_run i gen)
                     (\<lambda>r. r\<lparr>cc_active := 0, cc_ended_at := Some at,
                            cc_last_outcome := Some (stopped_outcome reason)\<rparr>)
                     (sd_rows s))) (\<lambda>rows.
          Inr (s\<lparr>sd_rows := rows\<rparr>, length (filter (current_run i gen) (sd_rows s)) = 1)))"

text \<open>What the generation fence of the writer reads of the table.\<close>

definition fence_rows :: "'z schedule_db_scheme \<Rightarrow> (int \<times> int \<times> int) list" where
  "fence_rows s = map (\<lambda>r. (cc_id r, cc_generation r, cc_active r)) (sd_rows s)"

section \<open>The table invariant\<close>

interpretation schedules: constrained_table cron_row_check cron_clash cron_schedule_bad
  by unfold_locales (auto simp: cron_schedule_bad_def cron_clash_def)

definition decodes :: "cron_json \<Rightarrow> CronCols \<Rightarrow> bool" where
  "decodes cj r \<longleftrightarrow> \<not> isl (decode_schedule cj r)"

definition schedule_ok :: "cron_json \<Rightarrow> 'z schedule_db_scheme \<Rightarrow> bool" where
  "schedule_ok cj s \<longleftrightarrow> table_ok cron_row_check cron_clash (sd_rows s)
     \<and> 0 \<le> sd_sequence s \<and> sd_sequence s < 2 ^ 63
     \<and> list_all (\<lambda>r. 1 \<le> cc_id r \<and> cc_id r \<le> sd_sequence s \<and> decodes cj r) (sd_rows s)"

lemma schedule_ok_table: "schedule_ok cj s \<Longrightarrow> table_ok cron_row_check cron_clash (sd_rows s)"
  by (simp add: schedule_ok_def)

lemma schedule_id_unique:
  assumes "schedule_ok cj s" "r \<in> set (sd_rows s)" "r' \<in> set (sd_rows s)" "cc_id r = cc_id r'"
  shows "r = r'"
  using schedules.clash_unique[OF schedule_ok_table[OF assms(1)] assms(2,3)] assms(4)
  by (simp add: cron_clash_def)

lemma distinct_ids: "table_ok cron_row_check cron_clash rows \<Longrightarrow> distinct (map cc_id rows)"
  by (induction rows) (auto simp: table_ok_def cron_clash_def)

lemma foldl_max_bound: "\<forall>x\<in>set xs. x \<le> foldl max a xs" "a \<le> foldl max (a::int) xs"
proof (induction xs arbitrary: a)
  case (Cons x xs)
  { case 1 show ?case using Cons(2)[of "max a x"] Cons(1)[of "max a x"] by auto }
  { case 2 show ?case using Cons(2)[of "max a x"] by auto }
qed simp_all

lemma mapE_bindE: "mapE g (bindE m f) = bindE m (\<lambda>x. mapE g (f x))"
  by (cases m) simp_all

text \<open>Decoding fails for none of the run state and the active flag.\<close>

lemma decode_run_state:
  "decode_schedule cj (r\<lparr>cc_active := a, cc_last_run_at := b, cc_last_outcome := c, cc_ended_at := e\<rparr>)
     = mapE (\<lambda>d. d\<lparr>cs_active := (a = 1), cs_last_run_at := b, cs_last_outcome := c, cs_ended_at := e\<rparr>)
         (decode_schedule cj r)"
  by (simp add: decode_schedule_def Let_def mapE_bindE)

lemma decodes_run_state:
  "decodes cj (r\<lparr>cc_active := a, cc_last_run_at := b, cc_last_outcome := c, cc_ended_at := e\<rparr>)
     = decodes cj r"
  unfolding decodes_def decode_run_state by (cases "decode_schedule cj r") simp_all

lemma decodes_run [simp]:
  "decodes cj (r\<lparr>cc_last_run_at := b, cc_last_outcome := c\<rparr>) = decodes cj r"
  "decodes cj (r\<lparr>cc_active := a, cc_ended_at := e\<rparr>) = decodes cj r"
  "decodes cj (r\<lparr>cc_active := a, cc_ended_at := e, cc_last_outcome := c\<rparr>) = decodes cj r"
  "decodes cj (r\<lparr>cc_last_run_at := b, cc_last_outcome := c, cc_ended_at := e, cc_active := a\<rparr>)
     = decodes cj r"
proof -
  have "r\<lparr>cc_last_run_at := b, cc_last_outcome := c\<rparr> = r\<lparr>cc_active := cc_active r, cc_last_run_at := b,
      cc_last_outcome := c, cc_ended_at := cc_ended_at r\<rparr>" by simp
  then show "decodes cj (r\<lparr>cc_last_run_at := b, cc_last_outcome := c\<rparr>) = decodes cj r"
    by (simp only: decodes_run_state)
  have "r\<lparr>cc_active := a, cc_ended_at := e\<rparr> = r\<lparr>cc_active := a, cc_last_run_at := cc_last_run_at r,
      cc_last_outcome := cc_last_outcome r, cc_ended_at := e\<rparr>" by simp
  then show "decodes cj (r\<lparr>cc_active := a, cc_ended_at := e\<rparr>) = decodes cj r"
    by (simp only: decodes_run_state)
  have "r\<lparr>cc_active := a, cc_ended_at := e, cc_last_outcome := c\<rparr> = r\<lparr>cc_active := a,
      cc_last_run_at := cc_last_run_at r, cc_last_outcome := c, cc_ended_at := e\<rparr>" by simp
  then show "decodes cj (r\<lparr>cc_active := a, cc_ended_at := e, cc_last_outcome := c\<rparr>) = decodes cj r"
    by (simp only: decodes_run_state)
  have "r\<lparr>cc_last_run_at := b, cc_last_outcome := c, cc_ended_at := e, cc_active := a\<rparr>
      = r\<lparr>cc_active := a, cc_last_run_at := b, cc_last_outcome := c, cc_ended_at := e\<rparr>" by simp
  then show "decodes cj (r\<lparr>cc_last_run_at := b, cc_last_outcome := c, cc_ended_at := e, cc_active := a\<rparr>)
      = decodes cj r" by (simp only: decodes_run_state)
qed

section \<open>Progress\<close>

text \<open>What happens to a row: it keeps its id, and its generation grows, or stays while an ended
  row stays ended.\<close>

definition row_progress :: "CronCols \<Rightarrow> CronCols \<Rightarrow> bool" where
  "row_progress r r' \<longleftrightarrow> cc_id r' = cc_id r
     \<and> (cc_generation r < cc_generation r'
        \<or> cc_generation r = cc_generation r' \<and> (cc_active r' = 1 \<longrightarrow> cc_active r = 1))"

definition schedule_progress :: "'z schedule_db_scheme \<Rightarrow> 'z schedule_db_scheme \<Rightarrow> bool" where
  "schedule_progress s s' \<longleftrightarrow> (\<forall>r\<in>set (sd_rows s). \<exists>r'\<in>set (sd_rows s'). row_progress r r')"

lemma row_progress_refl [simp]: "row_progress r r"
  by (simp add: row_progress_def)

lemma row_progress_trans: "row_progress a b \<Longrightarrow> row_progress b c \<Longrightarrow> row_progress a c"
  by (auto simp: row_progress_def)

lemma schedule_progress_refl [simp]: "schedule_progress s s"
  unfolding schedule_progress_def using row_progress_refl by blast

lemma schedule_progress_trans:
  "schedule_progress a b \<Longrightarrow> schedule_progress b c \<Longrightarrow> schedule_progress a c"
  unfolding schedule_progress_def by (meson row_progress_trans)

text \<open>An update of rows that keeps the constraints, the ids and the decoding.\<close>

lemma update_schedules:
  assumes run: "update_rows cron_schedule_bad P f (sd_rows s) = Inr rows"
    and ok: "schedule_ok cj s"
    and row: "\<And>r. r \<in> set (sd_rows s) \<Longrightarrow> P r \<Longrightarrow> row_progress r (f r) \<and> decodes cj (f r)"
  shows "schedule_ok cj (s\<lparr>sd_rows := rows\<rparr>) \<and> schedule_progress s (s\<lparr>sd_rows := rows\<rparr>)"
proof -
  have rows: "rows = map (\<lambda>r. if P r then f r else r) (sd_rows s)" by (rule update_rows_Inr[OF run])
  have "table_ok cron_row_check cron_clash rows"
    by (rule schedules.update_table[OF run schedule_ok_table[OF ok]])
  moreover have "list_all (\<lambda>r. 1 \<le> cc_id r \<and> cc_id r \<le> sd_sequence s \<and> decodes cj r) rows"
    using ok row by (auto simp: rows schedule_ok_def list_all_iff row_progress_def)
  moreover have "schedule_progress s (s\<lparr>sd_rows := rows\<rparr>)"
    unfolding schedule_progress_def
  proof
    fix r assume r: "r \<in> set (sd_rows s)"
    then have "row_progress r (if P r then f r else r)" using row by simp
    then show "\<exists>r'\<in>set (sd_rows (s\<lparr>sd_rows := rows\<rparr>)). row_progress r r'"
      using r by (intro bexI[of _ "if P r then f r else r"]) (auto simp: rows)
  qed
  ultimately show ?thesis using ok by (simp add: schedule_ok_def)
qed

section \<open>The operations keep the invariant\<close>

lemma u32_of_Inr: "u32_of key what i = Inr w \<Longrightarrow> i = uint w"
  by (auto simp: u32_of_def uint_word_of_int split: if_splits)

lemma map_err_eq_Inr [simp]: "map_err f m = Inr x \<longleftrightarrow> m = Inr x"
  by (cases m) simp_all

lemma decode_schedule_Inr:
  assumes "decode_schedule cj r = Inr c"
  shows "cc_id r = int (cs_id c)" "cc_generation r = uint (cs_generation c)"
    "cs_generation c \<noteq> 0" "cs_active c = (cc_active r = 1)" "cs_last_run_at c = cc_last_run_at r"
    "cs_last_outcome c = cc_last_outcome r" "cs_ended_at c = cc_ended_at r"
proof -
  note run = assms[unfolded decode_schedule_def Let_def bindE_eq_Inr_iff map_err_eq_Inr]
  from run have c: "int (cs_id c) = cc_id r \<and> cs_active c = (cc_active r = 1)
      \<and> cs_last_run_at c = cc_last_run_at r \<and> cs_last_outcome c = cc_last_outcome r
      \<and> cs_ended_at c = cc_ended_at r"
    by (elim exE conjE) (clarsimp split: if_splits)
  have "\<exists>gen0 key what. u32_of key what (cc_generation r) = Inr gen0
      \<and> CronGeneration_new gen0 = Inr (cs_generation c)"
    using run by (elim exE conjE, intro exI conjI) (assumption, clarsimp)
  then obtain gen0 where gen: "\<exists>key what. u32_of key what (cc_generation r) = Inr gen0"
    "CronGeneration_new gen0 = Inr (cs_generation c)" by blast
  have "gen0 = cs_generation c" "gen0 \<noteq> 0"
    using gen(2) by (auto simp: CronGeneration_new_def split: if_splits)
  then show "cc_id r = int (cs_id c)" "cc_generation r = uint (cs_generation c)"
    "cs_generation c \<noteq> 0" "cs_active c = (cc_active r = 1)" "cs_last_run_at c = cc_last_run_at r"
    "cs_last_outcome c = cc_last_outcome r" "cs_ended_at c = cc_ended_at r"
    using c gen(1) u32_of_Inr by auto
qed

lemma decodes_Inr: "decodes cj r \<longleftrightarrow> (\<exists>c. decode_schedule cj r = Inr c)"
  by (cases "decode_schedule cj r") (simp_all add: decodes_def)

lemma collectE_mem:
  assumes "collectE f xs = Inr ys"
  shows "x \<in> set xs \<Longrightarrow> \<exists>y. f x = Inr y" and "xs \<noteq> [] \<Longrightarrow> f (last xs) = Inr (last ys)"
proof -
  have "list_all2 (\<lambda>x y. f x = Inr y) xs ys" by (rule collectE_InrD[OF assms])
  then show "x \<in> set xs \<Longrightarrow> \<exists>y. f x = Inr y" and "xs \<noteq> [] \<Longrightarrow> f (last xs) = Inr (last ys)"
    by (induction rule: list_all2_induct) (auto simp: list_all2_Nil2)
qed

lemma read_schedule_Inr:
  assumes "read_schedule cj sid s = Inr c"
  shows "\<exists>r\<in>set (sd_rows s). cc_id r = sid \<and> decode_schedule cj r = Inr c"
    and "\<forall>r\<in>set (sd_rows s). cc_id r = sid \<longrightarrow> decodes cj r"
proof -
  define zs where "zs = filter (\<lambda>r. cc_id r = sid) (sd_rows s)"
  obtain rows where run: "collectE (decode_schedule cj) zs = Inr rows"
    using assms by (auto simp: read_schedule_def bindE_eq_Inr_iff zs_def)
  then have rows: "rows \<noteq> []" "c = last rows"
    using assms by (cases rows; simp add: read_schedule_def zs_def)+
  then have "zs \<noteq> []" using run by auto
  then have "last zs \<in> set zs" "decode_schedule cj (last zs) = Inr c"
    using collectE_mem(2)[OF run] rows(2) by simp_all
  then show "\<exists>r\<in>set (sd_rows s). cc_id r = sid \<and> decode_schedule cj r = Inr c"
    by (auto simp: zs_def)
  show "\<forall>r\<in>set (sd_rows s). cc_id r = sid \<longrightarrow> decodes cj r"
    using collectE_mem(1)[OF run] by (simp add: zs_def decodes_Inr)
qed

lemma schedule_insert_Inr:
  assumes "schedule_insert env c s = Inr (s', sid)"
  shows "insert_row cron_schedule_bad (inserted_row c sid) (sd_rows s)
      = Inr (sd_rows s @ [inserted_row c sid])"
    and "s' = s\<lparr>sd_rows := sd_rows s @ [inserted_row c sid], sd_sequence := sid\<rparr>"
    and "sid < 2 ^ 63" "sid = foldl max (sd_sequence s) (map cc_id (sd_rows s)) + 1"
proof -
  define rowid where "rowid = foldl max (sd_sequence s) (map cc_id (sd_rows s)) + 1"
  obtain rows where run: "(if rowid > 2 ^ 63 - 1 then Inl DatabaseFull
        else insert_row cron_schedule_bad (inserted_row c rowid) (sd_rows s)) = Inr rows"
    and out: "s' = s\<lparr>sd_rows := rows, sd_sequence := rowid\<rparr>" "sid = rowid"
    using assms unfolding schedule_insert_def Let_def bindE_eq_Inr_iff map_err_eq_Inr
      rowid_def[symmetric] by blast
  then have rows: "insert_row cron_schedule_bad (inserted_row c rowid) (sd_rows s) = Inr rows"
    and small: "rowid < 2 ^ 63" by (simp_all split: if_splits)
  have "rows = sd_rows s @ [inserted_row c rowid]" by (rule insert_row_Inr[OF rows])
  then show "insert_row cron_schedule_bad (inserted_row c sid) (sd_rows s)
      = Inr (sd_rows s @ [inserted_row c sid])"
    and "s' = s\<lparr>sd_rows := sd_rows s @ [inserted_row c sid], sd_sequence := sid\<rparr>"
    and "sid < 2 ^ 63" "sid = foldl max (sd_sequence s) (map cc_id (sd_rows s)) + 1"
    using rows out small by (simp_all add: rowid_def)
qed

lemma inserted_row_sel [simp]: "cc_id (inserted_row c sid) = sid"
  "cc_generation (inserted_row c sid) = 1" "cc_active (inserted_row c sid) = 1"
  by (simp_all add: inserted_row_def schedule_assignments_def)

lemma schedule_insert_ok:
  assumes ok: "schedule_ok cj s" and run: "schedule_insert env c s = Inr (s', sid)"
    and dec: "\<forall>r\<in>set (sd_rows s'). cc_id r = sid \<longrightarrow> decodes cj r"
  shows "schedule_ok cj s' \<and> schedule_progress s s'"
proof -
  note ins = schedule_insert_Inr[OF run]
  have le: "sd_sequence s < sid" using foldl_max_bound(2)[of "sd_sequence s"] ins(4) by simp
  have "table_ok cron_row_check cron_clash (sd_rows s @ [inserted_row c sid])"
    by (rule schedules.insert_table[OF ins(1) schedule_ok_table[OF ok]])
  moreover have "decodes cj (inserted_row c sid)" using dec by (simp add: ins(2))
  ultimately have "schedule_ok cj s'"
    using ok le ins(3) by (auto simp: ins(2) schedule_ok_def list_all_iff)
  moreover have "schedule_progress s s'"
    unfolding schedule_progress_def ins(2) using row_progress_refl by fastforce
  ultimately show ?thesis by blast
qed

lemma schedule_restart_Inr:
  assumes "schedule_restart env c sid s = Inr s'"
  shows "update_rows cron_schedule_bad (\<lambda>r. cc_id r = sid) (restarted c) (sd_rows s) = Inr (sd_rows s')"
    and "s' = s\<lparr>sd_rows := map (\<lambda>r. if cc_id r = sid then restarted c r else r) (sd_rows s)\<rparr>"
proof -
  obtain rows where "update_rows cron_schedule_bad (\<lambda>r. cc_id r = sid) (restarted c) (sd_rows s) = Inr rows"
    "s' = s\<lparr>sd_rows := rows\<rparr>"
    using assms by (auto simp: schedule_restart_def bindE_eq_Inr_iff map_err_def split: sum.splits)
  then show "update_rows cron_schedule_bad (\<lambda>r. cc_id r = sid) (restarted c) (sd_rows s) = Inr (sd_rows s')"
    and "s' = s\<lparr>sd_rows := map (\<lambda>r. if cc_id r = sid then restarted c r else r) (sd_rows s)\<rparr>"
    by (simp_all add: update_rows_Inr[symmetric])
qed

lemma restarted_progress: "row_progress r (restarted c r)" "cc_id (restarted c r) = cc_id r"
  by (simp_all add: restarted_def row_progress_def schedule_assignments_def)

lemma schedule_restart_ok:
  assumes ok: "schedule_ok cj s" and run: "schedule_restart env c sid s = Inr s'"
    and dec: "\<forall>r\<in>set (sd_rows s'). cc_id r = sid \<longrightarrow> decodes cj r"
  shows "schedule_ok cj s' \<and> schedule_progress s s'"
proof -
  note upd = schedule_restart_Inr[OF run]
  have "decodes cj (restarted c r)" if r: "r \<in> set (sd_rows s)" "cc_id r = sid" for r
  proof -
    have "restarted c r \<in> set (sd_rows s')" using r by (auto simp: upd(2))
    then show ?thesis using dec r restarted_progress(2) by simp
  qed
  then have "schedule_ok cj (s\<lparr>sd_rows := sd_rows s'\<rparr>) \<and> schedule_progress s (s\<lparr>sd_rows := sd_rows s'\<rparr>)"
    using update_schedules[OF upd(1) ok] restarted_progress(1) by blast
  moreover have "s\<lparr>sd_rows := sd_rows s'\<rparr> = s'" by (simp add: upd(2))
  ultimately show ?thesis by simp
qed

lemma cron_start_cases:
  assumes "cron_start env cj n s = Inr (s', c)"
  defines "columns \<equiv> ScheduleColumns_new cj n"
  obtains (fresh) sid where
      "find (\<lambda>r. cron_slot r = (nc_team n, nc_phase n, nc_name n)) (sd_rows s) = None"
      "schedule_insert env columns s = Inr (s', sid)" "read_schedule cj sid s' = Inr c"
    | (ended) r where
      "find (\<lambda>r. cron_slot r = (nc_team n, nc_phase n, nc_name n)) (sd_rows s) = Some r"
      "cc_active r \<noteq> 1" "schedule_restart env columns (cc_id r) s = Inr s'"
      "read_schedule cj (cc_id r) s' = Inr c"
proof -
  have slot: "(sl_team columns, sl_phase columns, sl_name columns) = (nc_team n, nc_phase n, nc_name n)"
    by (simp add: columns_def ScheduleColumns_new_def split: prod.splits)
  note run = assms(1)[unfolded cron_start_def Let_def bindE_eq_Inr_iff columns_def[symmetric] slot]
  show thesis
  proof (cases "find (\<lambda>r. cron_slot r = (nc_team n, nc_phase n, nc_name n)) (sd_rows s)")
    case None
    then show thesis using run fresh by (auto simp: bindE_eq_Inr_iff)
  next
    case (Some r)
    then show thesis using run ended by (auto simp: bindE_eq_Inr_iff split: if_splits)
  qed
qed

lemma start_ok:
  assumes "schedule_ok cj s" "cron_start env cj n s = Inr (s', c)"
  shows "schedule_ok cj s' \<and> schedule_progress s s'"
  using assms(2)
proof (cases rule: cron_start_cases)
  case fresh
  then show ?thesis using schedule_insert_ok[OF assms(1)] read_schedule_Inr(2) by blast
next
  case ended
  then show ?thesis using schedule_restart_ok[OF assms(1)] read_schedule_Inr(2) by blast
qed

text \<open>The serializer reads back what it printed for a schedule.\<close>

definition cron_json_ok :: "cron_json \<Rightarrow> NewCronSchedule \<Rightarrow> bool" where
  "cron_json_ok cj n \<longleftrightarrow> cj_parse_args cj (cj_args cj (nc_args n)) = Inr (nc_args n)
     \<and> cj_parse_custom cj (cj_custom cj (nc_custom n)) = Some (JObject (nc_custom n))"

lemma decode_assigned:
  assumes cj: "cron_json_ok cj n"
    and run: "decode_schedule cj (schedule_assignments (ScheduleColumns_new cj n) r) = Inr c"
  shows "NewCronSchedule.truncate c = n"
proof -
  have "nc_phase n = p" if "PhaseId_parse (nc_phase n) = Inr p" for p
    using that by (simp add: PhaseId_parse_def split: if_splits)
  then show ?thesis
    using run cj[unfolded cron_json_ok_def]
    by (cases "nc_stop n") (auto simp: decode_schedule_def Let_def bindE_eq_Inr_iff
        schedule_assignments_def ScheduleColumns_new_def stop_columns_def parse_custom_def
        NewCronSchedule.defs u32_of_def word_of_int_uint simp del: uint_ge_0 split: if_splits)
qed

lemma schedule_find_slot:
  assumes ok: "schedule_ok cj s" and r: "r \<in> set (sd_rows s)" "cron_slot r = slot"
  shows "find (\<lambda>r. cron_slot r = slot) (sd_rows s) = Some r"
proof -
  obtain r' where r': "find (\<lambda>r. cron_slot r = slot) (sd_rows s) = Some r'"
    using r by (cases "find (\<lambda>r. cron_slot r = slot) (sd_rows s)") (auto simp: find_None_iff)
  then have "r' \<in> set (sd_rows s)" "cron_slot r' = slot" by (auto simp: find_Some_iff in_set_conv_nth)
  then have "r' = r"
    using schedules.clash_unique[OF schedule_ok_table[OF ok]] r by (simp add: cron_clash_def)
  then show ?thesis using r' by simp
qed

text \<open>What a start gives: the schedule as specified, active, on the row of its slot, with a
  generation above the one the slot had.\<close>

lemma start_row:
  assumes ok: "schedule_ok cj s" and run: "cron_start env cj n s = Inr (s', c)"
  shows "\<exists>r\<in>set (sd_rows s'). decode_schedule cj r = Inr c \<and> cc_active r = 1
      \<and> (\<exists>r0. r = schedule_assignments (ScheduleColumns_new cj n) r0)"
    and "\<forall>r\<in>set (sd_rows s). cron_slot r = (nc_team n, nc_phase n, nc_name n) \<longrightarrow>
      cc_id r = int (cs_id c) \<and> cc_generation r < uint (cs_generation c)"
proof -
  let ?slot = "(nc_team n, nc_phase n, nc_name n)" and ?c = "ScheduleColumns_new cj n"
  have ok': "schedule_ok cj s'" using start_ok[OF ok run] by blast
  from run have "(\<exists>r\<in>set (sd_rows s'). decode_schedule cj r = Inr c \<and> cc_active r = 1
      \<and> (\<exists>r0. r = schedule_assignments ?c r0))
    \<and> (\<forall>r\<in>set (sd_rows s). cron_slot r = ?slot \<longrightarrow>
      cc_id r = int (cs_id c) \<and> cc_generation r < uint (cs_generation c))"
  proof (cases rule: cron_start_cases)
    case (fresh sid)
    obtain r where r: "r \<in> set (sd_rows s')" "cc_id r = sid" "decode_schedule cj r = Inr c"
      using read_schedule_Inr(1)[OF fresh(3)] by blast
    have "inserted_row ?c sid \<in> set (sd_rows s')" using schedule_insert_Inr(2)[OF fresh(2)] by simp
    then have "r = inserted_row ?c sid" using schedule_id_unique[OF ok' r(1)] r(2) by simp
    moreover have "\<forall>r\<in>set (sd_rows s). cron_slot r \<noteq> ?slot" using fresh(1) by (simp add: find_None_iff)
    ultimately show ?thesis using r unfolding inserted_row_def[of ?c sid] by (metis inserted_row_def inserted_row_sel(3))
  next
    case (ended e)
    obtain r where r: "r \<in> set (sd_rows s')" "cc_id r = cc_id e" "decode_schedule cj r = Inr c"
      using read_schedule_Inr(1)[OF ended(4)] by blast
    have e: "e \<in> set (sd_rows s)" using ended(1) by (auto simp: find_Some_iff in_set_conv_nth)
    then have "restarted ?c e \<in> set (sd_rows s')" by (auto simp: schedule_restart_Inr(2)[OF ended(3)])
    then have eq: "r = restarted ?c e"
      using schedule_id_unique[OF ok' r(1)] r(2) restarted_progress(2) by simp
    have "restarted ?c e = schedule_assignments ?c (e\<lparr>cc_generation := cc_generation e + 1, cc_active := 1,
        cc_last_run_at := None, cc_last_outcome := None, cc_ended_at := None\<rparr>)"
      by (simp add: restarted_def schedule_assignments_def)
    then have shape: "\<exists>r0. r = schedule_assignments ?c r0" using eq by blast
    have gen: "cc_active r = 1" "cc_generation r = cc_generation e + 1" by (simp_all add: eq restarted_def)
    have "r' = e" if "r' \<in> set (sd_rows s)" "cron_slot r' = ?slot" for r'
      using schedule_find_slot[OF ok that] ended(1) by simp
    then show ?thesis
      using r shape gen decode_schedule_Inr(1,2)[OF r(3)] by force
  qed
  then show "\<exists>r\<in>set (sd_rows s'). decode_schedule cj r = Inr c \<and> cc_active r = 1
      \<and> (\<exists>r0. r = schedule_assignments (ScheduleColumns_new cj n) r0)"
    and "\<forall>r\<in>set (sd_rows s). cron_slot r = ?slot \<longrightarrow>
      cc_id r = int (cs_id c) \<and> cc_generation r < uint (cs_generation c)" by blast+
qed

lemma run_kept:
  assumes ok: "schedule_ok cj s" and row: "\<And>r. row_progress r (f r)" "\<And>r. decodes cj (f r) = decodes cj r"
    and run: "map_err e (update_rows cron_schedule_bad P f (sd_rows s)) = Inr rows"
  shows "schedule_ok cj (s\<lparr>sd_rows := rows\<rparr>) \<and> schedule_progress s (s\<lparr>sd_rows := rows\<rparr>)"
proof -
  have upd: "update_rows cron_schedule_bad P f (sd_rows s) = Inr rows" using run by simp
  have "decodes cj r" if "r \<in> set (sd_rows s)" for r
    using ok that by (simp add: schedule_ok_def list_all_iff)
  then show ?thesis using update_schedules[OF upd ok] row by blast
qed

lemma end_ok:
  assumes "schedule_ok cj s" "cron_end env cj team phase name at s = Inr (s', cs)"
  shows "schedule_ok cj s' \<and> schedule_progress s s'"
proof -
  obtain rows where run: "map_err (write_error env ''cron_schedule'')
      (update_rows cron_schedule_bad (ends team phase name)
        (\<lambda>r. r\<lparr>cc_active := 0, cc_ended_at := Some at\<rparr>) (sd_rows s)) = Inr rows"
    and s': "s' = s\<lparr>sd_rows := rows\<rparr>"
    using assms(2) unfolding cron_end_def bindE_eq_Inr_iff by auto
  show ?thesis unfolding s' by (rule run_kept[OF assms(1) _ _ run]) (simp_all add: row_progress_def)
qed

lemma record_run_ok:
  assumes "schedule_ok cj s" "record_run env sid gen at outcome s = Inr (s', b)"
  shows "schedule_ok cj s' \<and> schedule_progress s s'"
proof (cases "stored_id sid")
  case None
  then show ?thesis using assms by (simp add: record_run_def)
next
  case (Some i)
  then obtain rows where run: "map_err (write_error env ''cron_schedule'')
      (update_rows cron_schedule_bad (current_run i gen)
        (\<lambda>r. r\<lparr>cc_last_run_at := Some at, cc_last_outcome := Some outcome\<rparr>) (sd_rows s)) = Inr rows"
    and s': "s' = s\<lparr>sd_rows := rows\<rparr>"
    using assms(2) by (auto simp: record_run_def bindE_eq_Inr_iff)
  show ?thesis unfolding s' by (rule run_kept[OF assms(1) _ _ run]) (simp_all add: row_progress_def)
qed

lemma record_stop_ok:
  assumes "schedule_ok cj s" "record_stop env sid gen at reason s = Inr (s', b)"
  shows "schedule_ok cj s' \<and> schedule_progress s s'"
proof (cases "stored_id sid")
  case None
  then show ?thesis using assms by (simp add: record_stop_def)
next
  case (Some i)
  then obtain rows where run: "map_err (write_error env ''cron_schedule'')
      (update_rows cron_schedule_bad (current_run i gen)
        (\<lambda>r. r\<lparr>cc_active := 0, cc_ended_at := Some at,
               cc_last_outcome := Some (stopped_outcome reason)\<rparr>) (sd_rows s)) = Inr rows"
    and s': "s' = s\<lparr>sd_rows := rows\<rparr>"
    using assms(2) by (auto simp: record_stop_def bindE_eq_Inr_iff)
  show ?thesis unfolding s' by (rule run_kept[OF assms(1) _ _ run]) (simp_all add: row_progress_def)
qed

section \<open>Permits\<close>

text \<open>
  A permit is the id and the generation of a run.  It is current while its row has that generation
  and is active, and stale once the row has ended or has been started again.
\<close>

definition stale_permit :: "CronScheduleId \<Rightarrow> CronGeneration \<Rightarrow> 'z schedule_db_scheme \<Rightarrow> bool" where
  "stale_permit sid gen s \<longleftrightarrow>
     list_ex (\<lambda>r. cc_id r = int sid
       \<and> (uint gen < cc_generation r \<or> uint gen = cc_generation r \<and> cc_active r \<noteq> 1)) (sd_rows s)"

lemma stale_permit_progress:
  assumes "stale_permit sid gen s" "schedule_progress s s'"
  shows "stale_permit sid gen s'"
proof -
  obtain r where r: "r \<in> set (sd_rows s)" "cc_id r = int sid"
    "uint gen < cc_generation r \<or> uint gen = cc_generation r \<and> cc_active r \<noteq> 1"
    using assms(1) by (auto simp: stale_permit_def list_ex_iff)
  then obtain r' where "r' \<in> set (sd_rows s')" "row_progress r r'"
    using assms(2) by (auto simp: schedule_progress_def)
  then show ?thesis using r(2,3) by (force simp: stale_permit_def list_ex_iff row_progress_def)
qed

lemma fence_row:
  assumes "schedule_ok cj s" "r \<in> set (sd_rows s)"
  shows "map_of (fence_rows s) (cc_id r) = Some (cc_generation r, cc_active r)"
proof -
  have "map fst (fence_rows s) = map cc_id (sd_rows s)" by (simp add: fence_rows_def o_def)
  then have "distinct (map fst (fence_rows s))"
    using distinct_ids[OF schedule_ok_table[OF assms(1)]] by simp
  moreover have "(cc_id r, cc_generation r, cc_active r) \<in> set (fence_rows s)"
    using assms(2) by (auto simp: fence_rows_def)
  ultimately show ?thesis by simp
qed

lemma stale_permit_refused:
  assumes "schedule_ok cj s" "stale_permit sid gen s" "db_cron_schedule d = fence_rows s"
  shows "isl (validate_cron_generation_fence (CronRun sid gen) d)"
proof -
  obtain r where r: "r \<in> set (sd_rows s)" "cc_id r = int sid"
    "uint gen < cc_generation r \<or> uint gen = cc_generation r \<and> cc_active r \<noteq> 1"
    using assms(2) by (auto simp: stale_permit_def list_ex_iff)
  then show ?thesis
    using fence_row[OF assms(1) r(1)] assms(3) by (auto simp: validate_cron_generation_fence_def)
qed

end
