(* ===== verification/Cron_Transition.thy ===== *)
theory Cron_Transition
  imports Cron_Schedule
begin

text \<open>
  The outcome of cron runs and the deliveries they ask for: the contract of
  \<^verbatim>\<open>atm-storage/src/cron_transition_store.rs\<close>, the tables \<^verbatim>\<open>cron_transition_event\<close> and
  \<^verbatim>\<open>cron_delivery_intent\<close>, and the adapter
  \<^verbatim>\<open>atm-storage-rusqlite/src/cron_transition_store.rs\<close>.  The payload column is text, printed and
  parsed by the functions of \<open>intent_json\<close>, which stand for the serializer and the text form of
  message ids.
\<close>

section \<open>Bounded texts\<close>

type_synonym CronOutputBody = string
type_synonym CronDiagnosticDetail = string
type_synonym DeliveryRetryCause = string

definition CRON_OUTPUT_BODY_MAX_BYTES :: nat where
  "CRON_OUTPUT_BODY_MAX_BYTES = 65536"

definition CRON_DIAGNOSTIC_MAX_BYTES :: nat where
  "CRON_DIAGNOSTIC_MAX_BYTES = 4096"

definition CRON_DELIVERY_RETRY_CAUSE_MAX_BYTES :: nat where
  "CRON_DELIVERY_RETRY_CAUSE_MAX_BYTES = 1024"

definition CronOutputBody_parse :: "string \<Rightarrow> AtmError + CronOutputBody" where
  "CronOutputBody_parse value =
     (if value = [] \<or> length value > CRON_OUTPUT_BODY_MAX_BYTES then
        Inl (hook_malformed (''cron output body must contain 1..=''
          @ nat_str CRON_OUTPUT_BODY_MAX_BYTES @ '' bytes''))
      else Inr value)"

definition CronDiagnosticDetail_parse :: "string \<Rightarrow> AtmError + CronDiagnosticDetail" where
  "CronDiagnosticDetail_parse text =
     (let value = map (\<lambda>c. if c = CHR 0x0D \<or> c = CHR 0x0A then CHR '' '' else c) text in
      if trim value = [] \<or> length value > CRON_DIAGNOSTIC_MAX_BYTES then
        Inl (hook_malformed (''cron diagnostic must contain 1..=''
          @ nat_str CRON_DIAGNOSTIC_MAX_BYTES @ '' bytes''))
      else Inr value)"

text \<open>\<^verbatim>\<open>split_whitespace()\<close>: the maximal pieces without white space.\<close>

fun take_word :: "string \<Rightarrow> string \<times> string" where
  "take_word [] = ([], [])"
| "take_word (x # xs) =
     (if leading white_space (x # xs) \<noteq> None then ([], x # xs)
      else let (w, r) = take_word xs in (x # w, r))"

lemma take_word_length: "length (snd (take_word s)) \<le> length s"
  by (induction s) (auto split: prod.splits)

function split_whitespace :: "string \<Rightarrow> string list" where
  "split_whitespace s =
     (case trim_start s of
        [] \<Rightarrow> []
      | x # xs \<Rightarrow> (x # fst (take_word xs)) # split_whitespace (snd (take_word xs)))"
  by pat_completeness auto
termination
proof (relation "measure length")
  fix s x xs assume "trim_start s = x # xs"
  moreover have "length (trim_start s) \<le> length s"
    unfolding trim_start_def by (simp add: suffix_length_le trim_leading_suffix)
  ultimately show "(snd (take_word xs), s) \<in> measure length"
    using take_word_length[of xs] by simp
qed simp

declare split_whitespace.simps [simp del]

definition DeliveryRetryCause_parse :: "string \<Rightarrow> AtmError + DeliveryRetryCause" where
  "DeliveryRetryCause_parse text =
     (let value = join_space (split_whitespace text) in
      if trim value = [] \<or> length value > CRON_DELIVERY_RETRY_CAUSE_MAX_BYTES then
        Inl (hook_malformed (''cron delivery retry cause must contain 1..=''
          @ nat_str CRON_DELIVERY_RETRY_CAUSE_MAX_BYTES @ '' bytes''))
      else Inr value)"

section \<open>The contract\<close>

datatype CronModuleOutput =
    MessageOutput CronOutputBody
  | ErrorOutput CronOutputBody

datatype CronFailureKind =
    Timeout
  | MalformedReply
  | RunnerExit
  | Refused
  | ActionFailed
  | StopCheckFailed

fun CronFailureKind_debug :: "CronFailureKind \<Rightarrow> string" where
  "CronFailureKind_debug Timeout = ''Timeout''"
| "CronFailureKind_debug MalformedReply = ''MalformedReply''"
| "CronFailureKind_debug RunnerExit = ''RunnerExit''"
| "CronFailureKind_debug Refused = ''Refused''"
| "CronFailureKind_debug ActionFailed = ''ActionFailed''"
| "CronFailureKind_debug StopCheckFailed = ''StopCheckFailed''"

record CronFailure =
  cf_kind :: CronFailureKind
  cf_code :: "AtmErrorCode option"
  cf_detail :: CronDiagnosticDetail

datatype CronSuccess =
    SuccessOk
  | Actions nat

datatype CronRunTransition =
    Success CronSuccess
  | StopCheckContinues
  | Failure CronFailure
  | StoppedRun CronDiagnosticDetail
  | SkippedInFlight

record CronNoticeKey =
  nk_schedule_id :: CronScheduleId
  nk_generation :: CronGeneration
  nk_transition_seq :: nat

datatype CronLifecycleEvent =
    LifecycleError CronFailure
  | LifecycleStopped CronDiagnosticDetail

record CronNoticeIntent =
  ni_key :: CronNoticeKey
  ni_team :: TeamName
  ni_recipient :: AgentName
  ni_name :: CronName
  ni_event :: CronLifecycleEvent

datatype CronDeliveryKey =
    LifecycleKey CronNoticeKey
  | ModuleMailKey CronScheduleId CronGeneration nat "16 word"

record CronModuleMailIntent =
  mi_key :: CronDeliveryKey
  mi_message_id :: AtmMessageId
  mi_team :: TeamName
  mi_recipient :: AgentName
  mi_name :: CronName
  mi_output :: CronModuleOutput

datatype CronDeliveryIntent =
    Lifecycle CronNoticeIntent
  | ModuleMail CronModuleMailIntent

datatype PendingCronDelivery =
    ReadyToSend CronDeliveryIntent
  | ReconciliationRequired CronDeliveryIntent DeliveryRetryCause

fun is_safe_to_resend :: "PendingCronDelivery \<Rightarrow> bool" where
  "is_safe_to_resend (ReadyToSend _) = True"
| "is_safe_to_resend (ReconciliationRequired _ _) = False"

record CronTransitionWrite =
  tw_id :: CronScheduleId
  tw_generation :: CronGeneration
  tw_at :: IsoTimestamp
  tw_transition :: CronRunTransition
  tw_outputs :: "CronModuleOutput list"

datatype CronCommitResult =
    AppliedCommit "CronDeliveryIntent list"
  | StaleGeneration

datatype DeliveryReceipt =
    Accepted string
  | Suppressed
  | RecipientUnavailable
  | UnknownHandoff DeliveryRetryCause

section \<open>The tables\<close>

record CronEventCols =
  ce_schedule_id :: int
  ce_generation :: int
  ce_transition_seq :: int
  ce_transition_at :: IsoTimestamp
  ce_transition_kind :: string
  ce_failure_kind :: "string option"
  ce_failure_code :: "string option"
  ce_failure_detail :: "string option"

definition cron_event_check :: "CronEventCols \<Rightarrow> bool" where
  "cron_event_check e \<longleftrightarrow>
     ce_generation e \<ge> 1 \<and> ce_transition_seq e \<ge> 1
     \<and> ce_transition_kind e \<in> {''success'', ''continue'', ''failure'', ''stopped''}
     \<and> (ce_transition_kind e = ''failure'') = (ce_failure_kind e \<noteq> None)
     \<and> (ce_failure_kind e \<noteq> None \<or> ce_failure_code e = None \<and> ce_failure_detail e = None)
     \<and> (ce_failure_kind e = None \<or> ce_failure_detail e \<noteq> None)"

definition cron_event_clash :: "CronEventCols \<Rightarrow> CronEventCols \<Rightarrow> bool" where
  "cron_event_clash e o' \<longleftrightarrow>
     ce_schedule_id e = ce_schedule_id o' \<and> ce_generation e = ce_generation o'
     \<and> (ce_transition_seq e = ce_transition_seq o' \<or> ce_transition_at e = ce_transition_at o')"

definition cron_event_bad :: "CronEventCols \<Rightarrow> CronEventCols list \<Rightarrow> bool" where
  "cron_event_bad e others \<longleftrightarrow> \<not> cron_event_check e \<or> list_ex (cron_event_clash e) others"

record CronIntentCols =
  ci_schedule_id :: int
  ci_generation :: int
  ci_transition_seq :: int
  ci_output_index :: "int option"
  ci_kind :: string
  ci_payload :: string
  ci_state :: string
  ci_receipt :: "string option"
  ci_retry_cause :: "string option"

definition cron_intent_check :: "CronIntentCols \<Rightarrow> bool" where
  "cron_intent_check i \<longleftrightarrow>
     ci_transition_seq i \<ge> 1 \<and> ci_kind i \<in> {''lifecycle'', ''module_mail''}
     \<and> ci_state i \<in> {''pending'', ''delivered'', ''suppressed'', ''recipient_unavailable'', ''unknown''}
     \<and> (ci_state i = ''unknown'') = (ci_retry_cause i \<noteq> None)"

definition coalesce_index :: "int option \<Rightarrow> int" where
  "coalesce_index i = (case i of None \<Rightarrow> -1 | Some n \<Rightarrow> n)"

definition cron_intent_clash :: "CronIntentCols \<Rightarrow> CronIntentCols \<Rightarrow> bool" where
  "cron_intent_clash i o' \<longleftrightarrow>
     ci_schedule_id i = ci_schedule_id o' \<and> ci_generation i = ci_generation o'
     \<and> ci_transition_seq i = ci_transition_seq o'
     \<and> (ci_output_index i \<noteq> None \<and> ci_output_index i = ci_output_index o'
        \<or> ci_kind i = ci_kind o' \<and> coalesce_index (ci_output_index i) = coalesce_index (ci_output_index o'))"

definition cron_intent_bad :: "CronIntentCols \<Rightarrow> CronIntentCols list \<Rightarrow> bool" where
  "cron_intent_bad i others \<longleftrightarrow> \<not> cron_intent_check i \<or> list_ex (cron_intent_clash i) others"

record cron_db = schedule_db +
  cd_events :: "CronEventCols list"
  cd_intents :: "CronIntentCols list"

section \<open>Stored intents\<close>

datatype StoredEvent =
    StoredError CronFailureKind "string option" string
  | StoredStopped string

datatype StoredIntent =
    StoredLifecycle string string string StoredEvent
  | StoredModuleMail string string string string CronModuleOutput

record intent_json =
  ij_print :: "StoredIntent \<Rightarrow> string"
  ij_parse :: "string \<Rightarrow> string + StoredIntent"
  ij_print_id :: "AtmMessageId \<Rightarrow> string"
  ij_parse_id :: "string \<Rightarrow> string + AtmMessageId"

abbreviation EVENTS :: string where "EVENTS \<equiv> ''cron_transition_event''"
abbreviation INTENTS :: string where "INTENTS \<equiv> ''cron_delivery_intent''"

fun stored_event :: "CronLifecycleEvent \<Rightarrow> StoredEvent" where
  "stored_event (LifecycleError failure) =
     StoredError (cf_kind failure) (map_option code_str (cf_code failure)) (cf_detail failure)"
| "stored_event (LifecycleStopped message) = StoredStopped message"

fun stored_intent :: "intent_json \<Rightarrow> CronDeliveryIntent \<Rightarrow> StoredIntent" where
  "stored_intent ij (Lifecycle i) =
     StoredLifecycle (ni_team i) (ni_recipient i) (ni_name i) (stored_event (ni_event i))"
| "stored_intent ij (ModuleMail i) =
     StoredModuleMail (ij_print_id ij (mi_message_id i)) (mi_team i) (mi_recipient i) (mi_name i)
       (mi_output i)"

definition encode_intent :: "intent_json \<Rightarrow> CronDeliveryIntent \<Rightarrow> string" where
  "encode_intent ij intent = ij_print ij (stored_intent ij intent)"

definition internal_of :: "string \<Rightarrow> AtmError + 'a \<Rightarrow> AtmError + 'a" where
  "internal_of table m = map_err (\<lambda>error. internal table (err_message error)) m"

fun decode_event :: "StoredEvent \<Rightarrow> AtmError + CronLifecycleEvent" where
  "decode_event (StoredError kind code detail) =
     bindE (case code of
              None \<Rightarrow> Inr None
            | Some value \<Rightarrow>
                (case AtmErrorCode_from_str value of
                   Inl (UnknownAtmErrorCode v) \<Rightarrow> Inl (internal INTENTS (''unknown ATM error code: '' @ v))
                 | Inr c \<Rightarrow> Inr (Some c))) (\<lambda>c.
     bindE (internal_of INTENTS (CronDiagnosticDetail_parse detail)) (\<lambda>d.
     Inr (LifecycleError \<lparr>cf_kind = kind, cf_code = c, cf_detail = d\<rparr>)))"
| "decode_event (StoredStopped message) =
     bindE (internal_of INTENTS (CronDiagnosticDetail_parse message)) (\<lambda>m. Inr (LifecycleStopped m))"

definition decode_intent ::
  "intent_json \<Rightarrow> CronDeliveryKey \<Rightarrow> string \<Rightarrow> AtmError + CronDeliveryIntent" where
  "decode_intent ij key payload =
     bindE (map_err (internal INTENTS) (ij_parse ij payload)) (\<lambda>stored.
     case (key, stored) of
       (LifecycleKey k, StoredLifecycle team recipient name event) \<Rightarrow>
         bindE (decode_event event) (\<lambda>ev.
         bindE (internal_of INTENTS (TeamName_from_str team)) (\<lambda>team'.
         bindE (internal_of INTENTS (AgentName_from_str recipient)) (\<lambda>recipient'.
         bindE (internal_of INTENTS (CronName_parse name)) (\<lambda>name'.
         Inr (Lifecycle \<lparr>ni_key = k, ni_team = team', ni_recipient = recipient', ni_name = name',
                ni_event = ev\<rparr>)))))
     | (ModuleMailKey sid gen seq ix, StoredModuleMail message_id team recipient name output) \<Rightarrow>
         bindE (map_err (internal INTENTS) (ij_parse_id ij message_id)) (\<lambda>mid.
         bindE (internal_of INTENTS (TeamName_from_str team)) (\<lambda>team'.
         bindE (internal_of INTENTS (AgentName_from_str recipient)) (\<lambda>recipient'.
         bindE (internal_of INTENTS (CronName_parse name)) (\<lambda>name'.
         Inr (ModuleMail \<lparr>mi_key = key, mi_message_id = mid, mi_team = team', mi_recipient = recipient',
                mi_name = name', mi_output = output\<rparr>)))))
     | _ \<Rightarrow> Inl (internal INTENTS ''stored delivery kind does not match its key''))"

section \<open>Committing a transition\<close>

fun failure_columns :: "CronRunTransition \<Rightarrow> string \<times> CronFailure option" where
  "failure_columns (Success _) = (''success'', None)"
| "failure_columns StopCheckContinues = (''continue'', None)"
| "failure_columns (Failure failure) = (''failure'', Some failure)"
| "failure_columns (StoppedRun _) = (''stopped'', None)"
| "failure_columns SkippedInFlight = (''skipped'', None)"

fun lifecycle_event :: "CronRunTransition \<Rightarrow> CronLifecycleEvent option" where
  "lifecycle_event (Failure failure) = Some (LifecycleError failure)"
| "lifecycle_event (StoppedRun reason) = Some (LifecycleStopped reason)"
| "lifecycle_event _ = None"

fun transition_outcome :: "CronRunTransition \<Rightarrow> string option" where
  "transition_outcome (Success SuccessOk) = Some ''ok''"
| "transition_outcome (Success (Actions count)) = Some (''actions:'' @ nat_str count)"
| "transition_outcome (Failure failure) = Some (''failure:'' @ cf_detail failure)"
| "transition_outcome (StoppedRun reason) = Some (''stopped: '' @ reason)"
| "transition_outcome _ = None"

definition query_failed :: "env \<Rightarrow> string \<Rightarrow> sql_error \<Rightarrow> AtmError" where
  "query_failed env what error =
     AtmError_new (PostSendOrMisc StoreQueryFailed) (what @ '': '' @ env_sql_display env error)"

definition run_event :: "int \<Rightarrow> int \<Rightarrow> CronEventCols \<Rightarrow> bool" where
  "run_event sid gen e \<longleftrightarrow> ce_schedule_id e = sid \<and> ce_generation e = gen"

text \<open>The failure columns of the latest transition of the run, read as text: a column that is
  null does not convert.\<close>

definition read_prior_failure ::
  "env \<Rightarrow> int \<Rightarrow> int \<Rightarrow> CronEventCols list \<Rightarrow> AtmError + (string \<times> string option \<times> string) option" where
  "read_prior_failure env sid gen events =
     (case rev (sort_key ce_transition_seq (filter (run_event sid gen) events)) of
        [] \<Rightarrow> Inr None
      | e # _ \<Rightarrow>
          map_err (query_failed env ''failed to read prior cron failure'')
            (case ce_failure_kind e of
               None \<Rightarrow> Inl (InvalidColumnType ''failure_kind'')
             | Some kind \<Rightarrow>
                 (case ce_failure_detail e of
                    None \<Rightarrow> Inl (InvalidColumnType ''failure_detail'')
                  | Some detail \<Rightarrow> Inr (Some (kind, ce_failure_code e, detail)))))"

definition next_transition_seq :: "int \<Rightarrow> int \<Rightarrow> CronEventCols list \<Rightarrow> int" where
  "next_transition_seq sid gen events =
     (case map ce_transition_seq (filter (run_event sid gen) events) of
        [] \<Rightarrow> 0
      | x # xs \<Rightarrow> foldl max x xs) + 1"

definition select_transition_seq :: "env \<Rightarrow> int \<Rightarrow> int \<Rightarrow> CronEventCols list \<Rightarrow> AtmError + int" where
  "select_transition_seq env sid gen events =
     (let seq = next_transition_seq sid gen events in
      if seq > 2 ^ 63 - 1 then
        Inl (query_failed env ''failed to select cron transition sequence'' (InvalidColumnType ''seq''))
      else Inr seq)"

definition repeated_failure ::
  "CronFailure option \<Rightarrow> (string \<times> string option \<times> string) option \<Rightarrow> bool" where
  "repeated_failure failure prior =
     (case (failure, prior) of
        (Some f, Some (kind, code, detail)) \<Rightarrow>
          kind = CronFailureKind_debug (cf_kind f) \<and> code = map_option code_str (cf_code f)
          \<and> detail = cf_detail f
      | _ \<Rightarrow> False)"

definition run_names ::
  "CronCols \<Rightarrow> AtmError + (TeamName \<times> AgentName \<times> CronName)" where
  "run_names row =
     bindE (internal_of EVENTS (TeamName_from_str (cc_team row))) (\<lambda>team.
     bindE (internal_of EVENTS (AgentName_from_str (cc_created_by row))) (\<lambda>creator.
     bindE (internal_of EVENTS (CronName_parse (cc_name row))) (\<lambda>name.
     Inr (team, creator, name))))"

definition lifecycle_intents ::
  "CronNoticeKey \<Rightarrow> CronLifecycleEvent option \<Rightarrow> CronCols \<Rightarrow> AtmError + CronDeliveryIntent list" where
  "lifecycle_intents key event row =
     (case event of
        None \<Rightarrow> Inr []
      | Some ev \<Rightarrow>
          bindE (run_names row) (\<lambda>(team, creator, name).
          Inr [Lifecycle \<lparr>ni_key = key, ni_team = team, ni_recipient = creator, ni_name = name,
                 ni_event = ev\<rparr>]))"

fun module_intents ::
  "(nat \<Rightarrow> AtmMessageId) \<Rightarrow> CronNoticeKey \<Rightarrow> CronCols \<Rightarrow> nat \<Rightarrow> CronModuleOutput list
   \<Rightarrow> AtmError + CronDeliveryIntent list" where
  "module_intents new_id key row index [] = Inr []"
| "module_intents new_id key row index (output # outputs) =
     (if index \<ge> 2 ^ 16 then Inl (err_validation ''cron transition has too many outputs'')
      else bindE (run_names row) (\<lambda>(team, creator, name).
           bindE (module_intents new_id key row (Suc index) outputs) (\<lambda>intents.
           Inr (ModuleMail
             \<lparr>mi_key = ModuleMailKey (nk_schedule_id key) (nk_generation key) (nk_transition_seq key)
                (of_nat index),
              mi_message_id = new_id index, mi_team = team, mi_recipient = creator, mi_name = name,
              mi_output = output\<rparr> # intents))))"

fun delivery_columns :: "CronDeliveryKey \<Rightarrow> CronScheduleId \<times> CronGeneration \<times> nat \<times> int option" where
  "delivery_columns (LifecycleKey key) =
     (nk_schedule_id key, nk_generation key, nk_transition_seq key, None)"
| "delivery_columns (ModuleMailKey sid gen seq ix) = (sid, gen, seq, Some (uint ix))"

fun intent_key :: "CronDeliveryIntent \<Rightarrow> CronDeliveryKey" where
  "intent_key (Lifecycle i) = LifecycleKey (ni_key i)"
| "intent_key (ModuleMail i) = mi_key i"

fun intent_kind :: "CronDeliveryIntent \<Rightarrow> string" where
  "intent_kind (Lifecycle i) = ''lifecycle''"
| "intent_kind (ModuleMail i) = ''module_mail''"

definition checked_id :: "CronScheduleId \<Rightarrow> AtmError + int" where
  "checked_id sid = (if int sid > 2 ^ 63 - 1 then
     Inl (err_validation ''cron schedule id exceeds SQLite range'') else Inr (int sid))"

definition stored_seq :: "nat \<Rightarrow> AtmError + int" where
  "stored_seq seq = (if int seq > 2 ^ 63 - 1 then
     Inl (err_validation ''cron transition sequence exceeds SQLite range'') else Inr (int seq))"

definition intent_row :: "intent_json \<Rightarrow> CronDeliveryIntent \<Rightarrow> CronIntentCols" where
  "intent_row ij intent =
     (let (sid, gen, seq, ix) = delivery_columns (intent_key intent) in
      \<lparr>ci_schedule_id = int sid, ci_generation = uint gen, ci_transition_seq = int seq,
       ci_output_index = ix, ci_kind = intent_kind intent, ci_payload = encode_intent ij intent,
       ci_state = ''pending'', ci_receipt = None, ci_retry_cause = None\<rparr>)"

definition persist_intent ::
  "env \<Rightarrow> intent_json \<Rightarrow> CronDeliveryIntent \<Rightarrow> CronIntentCols list \<Rightarrow> AtmError + CronIntentCols list" where
  "persist_intent env ij intent rows =
     (let (sid, gen, seq, ix) = delivery_columns (intent_key intent) in
      bindE (checked_id sid) (\<lambda>_. bindE (stored_seq seq) (\<lambda>_.
      map_err (query_failed env ''failed to persist cron delivery intent'')
        (insert_row cron_intent_bad (intent_row ij intent) rows))))"

fun persist_intents ::
  "env \<Rightarrow> intent_json \<Rightarrow> CronDeliveryIntent list \<Rightarrow> CronIntentCols list \<Rightarrow> AtmError + CronIntentCols list" where
  "persist_intents env ij [] rows = Inr rows"
| "persist_intents env ij (intent # intents) rows =
     bindE (persist_intent env ij intent rows) (\<lambda>rows1. persist_intents env ij intents rows1)"

definition transition_row :: "CronTransitionWrite \<Rightarrow> int \<Rightarrow> int \<Rightarrow> CronEventCols" where
  "transition_row w sid seq =
     (let (kind, failure) = failure_columns (tw_transition w) in
      \<lparr>ce_schedule_id = sid, ce_generation = uint (tw_generation w), ce_transition_seq = seq,
       ce_transition_at = tw_at w, ce_transition_kind = kind,
       ce_failure_kind = map_option (\<lambda>f. CronFailureKind_debug (cf_kind f)) failure,
       ce_failure_code = Option.bind failure (\<lambda>f. map_option code_str (cf_code f)),
       ce_failure_detail = map_option cf_detail failure\<rparr>)"

definition record_outcome ::
  "env \<Rightarrow> CronTransitionWrite \<Rightarrow> int \<Rightarrow> CronCols list \<Rightarrow> AtmError + CronCols list" where
  "record_outcome env w sid rows =
     (case transition_outcome (tw_transition w) of
        None \<Rightarrow> Inr rows
      | Some outcome \<Rightarrow>
          let stopped = (fst (failure_columns (tw_transition w)) = ''stopped'') in
          map_err (write_error env ''cron_schedule'')
            (update_rows cron_schedule_bad (current_run sid (tw_generation w))
              (\<lambda>r. r\<lparr>cc_last_run_at := Some (tw_at w), cc_last_outcome := Some outcome,
                     cc_ended_at := (if stopped then Some (tw_at w) else cc_ended_at r),
                     cc_active := (if stopped then 0 else cc_active r)\<rparr>) rows))"

definition commit_run ::
  "env \<Rightarrow> intent_json \<Rightarrow> (nat \<Rightarrow> AtmMessageId) \<Rightarrow> CronTransitionWrite \<Rightarrow> int \<Rightarrow> CronCols \<Rightarrow> cron_db
   \<Rightarrow> AtmError + (cron_db \<times> CronCommitResult)" where
  "commit_run env ij new_id w sid row s =
     (let kind = fst (failure_columns (tw_transition w));
          failure = snd (failure_columns (tw_transition w));
          gen = uint (tw_generation w);
          key = (\<lambda>sequence. \<lparr>nk_schedule_id = tw_id w, nk_generation = tw_generation w,
                   nk_transition_seq = sequence\<rparr>) in
      bindE (if kind = ''failure'' then read_prior_failure env sid gen (cd_events s) else Inr None)
        (\<lambda>prior_failure.
      bindE (select_transition_seq env sid gen (cd_events s)) (\<lambda>seq.
      bindE (map_err (write_error env EVENTS)
               (insert_row cron_event_bad (transition_row w sid seq) (cd_events s))) (\<lambda>events.
      bindE (record_outcome env w sid (sd_rows s)) (\<lambda>rows.
      bindE (if seq < 0 then Inl (internal EVENTS ''negative transition sequence'')
             else Inr (nat seq)) (\<lambda>sequence.
      bindE (lifecycle_intents (key sequence)
               (if repeated_failure failure prior_failure then None
                else lifecycle_event (tw_transition w)) row) (\<lambda>notices.
      bindE (module_intents new_id (key sequence) row 0 (tw_outputs w)) (\<lambda>mails.
      bindE (persist_intents env ij (notices @ mails) (cd_intents s)) (\<lambda>intents.
      Inr (s\<lparr>sd_rows := rows, cd_events := events, cd_intents := intents\<rparr>,
           AppliedCommit (notices @ mails)))))))))))"

definition commit ::
  "env \<Rightarrow> intent_json \<Rightarrow> (nat \<Rightarrow> AtmMessageId) \<Rightarrow> CronTransitionWrite \<Rightarrow> cron_db
   \<Rightarrow> AtmError + (cron_db \<times> CronCommitResult)" where
  "commit env ij new_id w s =
     (if tw_transition w = SkippedInFlight then Inr (s, AppliedCommit [])
      else
      bindE (checked_id (tw_id w)) (\<lambda>sid.
      case find (current_run sid (tw_generation w)) (sd_rows s) of
        None \<Rightarrow> Inr (s, StaleGeneration)
      | Some row \<Rightarrow> commit_run env ij new_id w sid row s))"

section \<open>Deliveries\<close>

definition intent_order :: "CronIntentCols \<Rightarrow> int \<times> int \<times> int \<times> int" where
  "intent_order i =
     (ci_schedule_id i, ci_generation i, ci_transition_seq i, coalesce_index (ci_output_index i))"

definition pending_key :: "CronIntentCols \<Rightarrow> AtmError + CronDeliveryKey" where
  "pending_key r =
     bindE (if ci_schedule_id r < 0 then Inl (internal INTENTS ''negative schedule id'')
            else Inr (nat (ci_schedule_id r))) (\<lambda>sid.
     bindE (u32_of INTENTS ''invalid generation'' (ci_generation r)) (\<lambda>gen0.
     bindE (map_err (\<lambda>_. internal INTENTS ''zero generation'') (CronGeneration_new gen0)) (\<lambda>gen.
     bindE (if ci_transition_seq r < 0 then Inl (internal INTENTS ''negative sequence'')
            else Inr (nat (ci_transition_seq r))) (\<lambda>seq.
     if ci_kind r = ''lifecycle'' then
       Inr (LifecycleKey \<lparr>nk_schedule_id = sid, nk_generation = gen, nk_transition_seq = seq\<rparr>)
     else (case ci_output_index r of
             None \<Rightarrow> Inl (internal INTENTS ''module output missing index'')
           | Some ix \<Rightarrow>
               if 0 \<le> ix \<and> ix < 2 ^ 16 then Inr (ModuleMailKey sid gen seq (word_of_int ix))
               else Inl (internal INTENTS ''invalid output index''))))))"

definition decode_pending :: "intent_json \<Rightarrow> CronIntentCols \<Rightarrow> AtmError + PendingCronDelivery" where
  "decode_pending ij r =
     bindE (pending_key r) (\<lambda>key.
     bindE (decode_intent ij key (ci_payload r)) (\<lambda>intent.
     if ci_state r = ''unknown'' then
       (case ci_retry_cause r of
          None \<Rightarrow> Inl (internal INTENTS ''unknown delivery missing retry cause'')
        | Some text \<Rightarrow>
            bindE (internal_of INTENTS (DeliveryRetryCause_parse text)) (\<lambda>cause.
            Inr (ReconciliationRequired intent cause)))
     else Inr (ReadyToSend intent)))"

definition is_pending :: "CronIntentCols \<Rightarrow> bool" where
  "is_pending r \<longleftrightarrow> ci_state r = ''pending'' \<or> ci_state r = ''unknown''"

definition pending :: "intent_json \<Rightarrow> nat \<Rightarrow> cron_db \<Rightarrow> AtmError + PendingCronDelivery list" where
  "pending ij limit s =
     collectE (decode_pending ij)
       (take limit (sort_key intent_order (filter is_pending (cd_intents s))))"

fun receipt_columns :: "DeliveryReceipt \<Rightarrow> string \<times> string option \<times> string option" where
  "receipt_columns (Accepted receipt_id) = (''delivered'', Some receipt_id, None)"
| "receipt_columns Suppressed = (''suppressed'', None, None)"
| "receipt_columns RecipientUnavailable = (''recipient_unavailable'', None, None)"
| "receipt_columns (UnknownHandoff retry_cause) = (''unknown'', None, Some retry_cause)"

definition awaits :: "int \<times> int \<times> int \<times> int option \<Rightarrow> CronIntentCols \<Rightarrow> bool" where
  "awaits key r \<longleftrightarrow>
     (ci_schedule_id r, ci_generation r, ci_transition_seq r, ci_output_index r) = key
     \<and> ci_state r = ''pending''"

definition mark_delivered ::
  "env \<Rightarrow> CronDeliveryKey \<Rightarrow> DeliveryReceipt \<Rightarrow> cron_db \<Rightarrow> AtmError + (cron_db \<times> bool)" where
  "mark_delivered env key receipt s =
     (let (sid, gen, seq, ix) = delivery_columns key;
          (state, receipt_text, retry_cause) = receipt_columns receipt in
      bindE (checked_id sid) (\<lambda>i. bindE (stored_seq seq) (\<lambda>q.
      bindE (map_err (write_error env INTENTS)
               (update_rows cron_intent_bad (awaits (i, uint gen, q, ix))
                 (\<lambda>r. r\<lparr>ci_state := state, ci_receipt := receipt_text, ci_retry_cause := retry_cause\<rparr>)
                 (cd_intents s))) (\<lambda>rows.
      Inr (s\<lparr>cd_intents := rows\<rparr>,
           length (filter (awaits (i, uint gen, q, ix)) (cd_intents s)) = 1)))))"

section \<open>The tables under a commit\<close>

interpretation transitions: constrained_table cron_event_check cron_event_clash cron_event_bad
  by unfold_locales (auto simp: cron_event_bad_def cron_event_clash_def)

lemma cron_intent_clash_commute: "cron_intent_clash r s = cron_intent_clash s r"
  unfolding cron_intent_clash_def by metis

interpretation deliveries: constrained_table cron_intent_check cron_intent_clash cron_intent_bad
  by unfold_locales (simp_all add: cron_intent_bad_def cron_intent_clash_commute)

lemma checked_id_Inr: "checked_id sid = Inr i \<longleftrightarrow> int sid < 2 ^ 63 \<and> i = int sid"
  by (auto simp: checked_id_def)

lemma commit_cases:
  assumes "commit env ij new_id w s = Inr (s', r)"
  obtains (skipped) "tw_transition w = SkippedInFlight" "s' = s" "r = AppliedCommit []"
    | (stale) "tw_transition w \<noteq> SkippedInFlight" "int (tw_id w) < 2 ^ 63"
        "find (current_run (int (tw_id w)) (tw_generation w)) (sd_rows s) = None"
        "s' = s" "r = StaleGeneration"
    | (applied) row where "tw_transition w \<noteq> SkippedInFlight" "int (tw_id w) < 2 ^ 63"
        "find (current_run (int (tw_id w)) (tw_generation w)) (sd_rows s) = Some row"
        "commit_run env ij new_id w (int (tw_id w)) row s = Inr (s', r)"
proof (cases "tw_transition w = SkippedInFlight")
  case True
  then show thesis using assms skipped by (simp add: commit_def)
next
  case False
  then have small: "int (tw_id w) < 2 ^ 63"
    using assms by (auto simp: commit_def bindE_eq_Inr_iff checked_id_Inr)
  show thesis
  proof (cases "find (current_run (int (tw_id w)) (tw_generation w)) (sd_rows s)")
    case None
    then show thesis using assms False small stale by (simp add: commit_def checked_id_def)
  next
    case (Some row)
    then show thesis using assms False small applied by (simp add: commit_def checked_id_def)
  qed
qed

lemma commit_run_Inr:
  assumes "commit_run env ij new_id w sid row s = Inr (s', r)"
  obtains prior seq events rows notices mails intents
  where "(if fst (failure_columns (tw_transition w)) = ''failure''
          then read_prior_failure env sid (uint (tw_generation w)) (cd_events s) else Inr None) = Inr prior"
    "seq = next_transition_seq sid (uint (tw_generation w)) (cd_events s)" "0 \<le> seq" "seq < 2 ^ 63"
    "insert_row cron_event_bad (transition_row w sid seq) (cd_events s) = Inr events"
    "record_outcome env w sid (sd_rows s) = Inr rows"
    "lifecycle_intents \<lparr>nk_schedule_id = tw_id w, nk_generation = tw_generation w,
         nk_transition_seq = nat seq\<rparr>
       (if repeated_failure (snd (failure_columns (tw_transition w))) prior then None
        else lifecycle_event (tw_transition w)) row = Inr notices"
    "module_intents new_id \<lparr>nk_schedule_id = tw_id w, nk_generation = tw_generation w,
         nk_transition_seq = nat seq\<rparr> row 0 (tw_outputs w) = Inr mails"
    "persist_intents env ij (notices @ mails) (cd_intents s) = Inr intents"
    "s' = s\<lparr>sd_rows := rows, cd_events := events, cd_intents := intents\<rparr>"
    "r = AppliedCommit (notices @ mails)"
proof -
  have seq: "select_transition_seq env sid gen evs = Inr q \<longleftrightarrow>
      q = next_transition_seq sid gen evs \<and> q < 2 ^ 63" for gen evs q
    by (auto simp: select_transition_seq_def Let_def)
  have nat: "(if q < 0 then Inl e else Inr (nat q)) = Inr n \<longleftrightarrow> 0 \<le> q \<and> n = nat q" for q :: int and e :: AtmError and n
    by auto
  show thesis
    using assms unfolding commit_run_def Let_def bindE_eq_Inr_iff map_err_eq_Inr seq nat sum.inject prod.inject
    by (elim exE conjE) (rule that; (assumption | erule sym | simp))
qed

end
