(* ===== verification/Cron_Invariant.thy ===== *)
theory Cron_Invariant
  imports Cron_Transition
begin

text \<open>
  What holds of the cron tables in every state the operations reach: the transitions of a run are
  numbered from one, every delivery belongs to a transition and can be read back, schedules only
  move forward, and a delivery that has left the pending state keeps the state it has.
\<close>

section \<open>Transition numbers\<close>

definition run_events :: "int \<Rightarrow> int \<Rightarrow> CronEventCols list \<Rightarrow> CronEventCols list" where
  "run_events sid gen events = filter (run_event sid gen) events"

definition numbered :: "CronEventCols list \<Rightarrow> bool" where
  "numbered events \<longleftrightarrow> (\<forall>sid gen.
     map ce_transition_seq (run_events sid gen events) = [1..int (length (run_events sid gen events))])"

lemma foldl_max_sorted: "sorted (x # xs) \<Longrightarrow> foldl max x xs = last (x # (xs :: int list))"
  by (induction xs arbitrary: x) (auto simp: max_def)

lemma foldl_max_upto:
  assumes "0 \<le> (n :: int)"
  shows "(case [1..n] of [] \<Rightarrow> 0 | x # xs \<Rightarrow> foldl max x xs) = n"
proof (cases "n = 0")
  case False
  then have up: "[1..n] = 1 # [2..n]" using assms by (simp add: upto_rec1)
  have "foldl max 1 [2..n] = last [1..n]" unfolding up by (rule foldl_max_sorted) (simp add: sorted_upto)
  moreover have "last [1..n] = n" using False assms by (subst upto_rec2) simp_all
  ultimately show ?thesis by (simp add: up)
qed simp

lemma numbered_next:
  assumes "numbered events"
  shows "next_transition_seq sid gen events = int (length (run_events sid gen events)) + 1"
proof -
  have "map ce_transition_seq (filter (run_event sid gen) events)
      = [1..int (length (run_events sid gen events))]"
    using assms by (simp add: numbered_def run_events_def)
  then show ?thesis unfolding next_transition_seq_def by (simp only: foldl_max_upto)
qed

lemma numbered_sorted:
  assumes "numbered events"
  shows "sort_key ce_transition_seq (run_events sid gen events) = run_events sid gen events"
proof (rule sort_key_id_if_sorted)
  show "sorted (map ce_transition_seq (run_events sid gen events))"
    using assms unfolding numbered_def by (metis sorted_upto)
qed

lemma numbered_snoc:
  assumes "numbered events"
    "ce_transition_seq e = next_transition_seq (ce_schedule_id e) (ce_generation e) events"
  shows "numbered (events @ [e])"
  unfolding numbered_def
proof (intro allI)
  fix sid gen
  show "map ce_transition_seq (run_events sid gen (events @ [e]))
      = [1..int (length (run_events sid gen (events @ [e])))]"
  proof (cases "run_event sid gen e")
    case True
    then have "ce_transition_seq e = int (length (run_events sid gen events)) + 1"
      using assms numbered_next by (simp add: run_event_def)
    then show ?thesis
      using True assms(1) by (simp add: run_events_def numbered_def upto_rec2)
  next
    case False
    then show ?thesis using assms(1) by (simp add: run_events_def numbered_def)
  qed
qed

lemma numbered_prior:
  assumes "numbered events"
  shows "read_prior_failure env sid gen events =
     (if run_events sid gen events = [] then Inr None
      else case (ce_failure_kind (last (run_events sid gen events)),
                 ce_failure_detail (last (run_events sid gen events))) of
        (None, _) \<Rightarrow> Inl (query_failed env ''failed to read prior cron failure'' (InvalidColumnType ''failure_kind''))
      | (Some k, None) \<Rightarrow>
          Inl (query_failed env ''failed to read prior cron failure'' (InvalidColumnType ''failure_detail''))
      | (Some k, Some t) \<Rightarrow> Inr (Some (k, ce_failure_code (last (run_events sid gen events)), t)))"
proof (cases "run_events sid gen events" rule: rev_cases)
  case Nil
  then show ?thesis by (simp add: read_prior_failure_def run_events_def)
next
  case (snoc es e)
  then have "rev (sort_key ce_transition_seq (filter (run_event sid gen) events)) = e # rev es"
    using numbered_sorted[OF assms, of sid gen] by (simp add: run_events_def)
  then show ?thesis
    using snoc by (auto simp: read_prior_failure_def split: option.splits)
qed

section \<open>Reading deliveries back\<close>

fun output_ok :: "CronModuleOutput \<Rightarrow> bool" where
  "output_ok (MessageOutput body) = (CronOutputBody_parse body = Inr body)"
| "output_ok (ErrorOutput body) = (CronOutputBody_parse body = Inr body)"

fun stored_ok :: "StoredIntent \<Rightarrow> bool" where
  "stored_ok (StoredModuleMail _ _ _ _ output) = output_ok output"
| "stored_ok (StoredLifecycle _ _ _ _) = True"

text \<open>The serializer reads back what it printed, for outputs within their bounds, and message
  ids are read back from their text.\<close>

definition intent_json_ok :: "intent_json \<Rightarrow> bool" where
  "intent_json_ok ij \<longleftrightarrow> (\<forall>x. stored_ok x \<longrightarrow> ij_parse ij (ij_print ij x) = Inr x)
     \<and> (\<forall>i. ij_parse_id ij (ij_print_id ij i) = Inr i)"

fun event_ok :: "CronLifecycleEvent \<Rightarrow> bool" where
  "event_ok (LifecycleError f) = (CronDiagnosticDetail_parse (cf_detail f) = Inr (cf_detail f))"
| "event_ok (LifecycleStopped m) = (CronDiagnosticDetail_parse m = Inr m)"

definition names_parse :: "TeamName \<Rightarrow> AgentName \<Rightarrow> CronName \<Rightarrow> bool" where
  "names_parse team agent name \<longleftrightarrow> TeamName_from_str team = Inr team
     \<and> AgentName_from_str agent = Inr agent \<and> CronName_parse name = Inr name"

fun intent_ok :: "CronDeliveryIntent \<Rightarrow> bool" where
  "intent_ok (Lifecycle i) \<longleftrightarrow> names_parse (ni_team i) (ni_recipient i) (ni_name i)
     \<and> event_ok (ni_event i) \<and> nk_generation (ni_key i) \<noteq> 0"
| "intent_ok (ModuleMail i) \<longleftrightarrow> names_parse (mi_team i) (mi_recipient i) (mi_name i)
     \<and> output_ok (mi_output i)
     \<and> (case mi_key i of ModuleMailKey _ gen _ _ \<Rightarrow> gen \<noteq> 0 | _ \<Rightarrow> False)"

lemma code_str_parse: "AtmErrorCode_from_str (code_str c) = Inr c"
proof -
  obtain t where t: "AtmErrorCode_as_str c = Some t" using AtmErrorCode_as_str_total by blast
  then have "parse_known_error_code t = Some c" by (simp add: parse_known_error_code_iff)
  then show ?thesis by (simp add: code_str_def AtmErrorCode_from_str_def t)
qed

lemma decode_event_stored: "event_ok ev \<Longrightarrow> decode_event (stored_event ev) = Inr ev"
  by (cases ev) (auto simp: internal_of_def code_str_parse split: option.splits)

lemma intent_row_sel:
  assumes "delivery_columns (intent_key i) = (sid, gen, seq, ix)"
  shows "intent_row ij i = \<lparr>ci_schedule_id = int sid, ci_generation = uint gen,
     ci_transition_seq = int seq, ci_output_index = ix, ci_kind = intent_kind i,
     ci_payload = encode_intent ij i, ci_state = ''pending'', ci_receipt = None, ci_retry_cause = None\<rparr>"
  by (simp add: intent_row_def assms)

lemma u32_of_uint [simp]: "u32_of key what (uint (w :: 32 word)) = Inr w"
  using uint_bounded[of w] by (simp add: u32_of_def)

lemma decode_intent_stored:
  assumes "intent_json_ok ij" "intent_ok i"
  shows "decode_intent ij (intent_key i) (encode_intent ij i) = Inr i"
proof (cases i)
  case (Lifecycle n)
  then show ?thesis
    using assms decode_event_stored[of "ni_event n"]
    by (simp add: decode_intent_def encode_intent_def intent_json_ok_def internal_of_def names_parse_def)
next
  case (ModuleMail m)
  then show ?thesis
    using assms by (cases "mi_key m")
      (simp_all add: decode_intent_def encode_intent_def intent_json_ok_def internal_of_def names_parse_def)
qed

lemma decode_pending_stored:
  assumes "intent_json_ok ij" "intent_ok i"
  shows "decode_pending ij (intent_row ij i) = Inr (ReadyToSend i)"
proof (cases i)
  case (Lifecycle n)
  moreover obtain sid gen seq where
    "ni_key n = \<lparr>nk_schedule_id = sid, nk_generation = gen, nk_transition_seq = seq\<rparr>"
    by (cases "ni_key n")
  ultimately show ?thesis
    using assms decode_intent_stored[OF assms]
    by (simp add: decode_pending_def pending_key_def intent_row_def CronGeneration_new_def)
next
  case (ModuleMail m)
  then obtain sid gen seq ix where key: "mi_key m = ModuleMailKey sid gen seq ix" "gen \<noteq> 0"
    using assms(2) by (cases "mi_key m") auto
  moreover have "0 \<le> uint ix" "uint ix < 2 ^ 16" using uint_bounded[of ix] by simp_all
  ultimately show ?thesis
    using ModuleMail decode_intent_stored[OF assms]
    by (simp add: decode_pending_def pending_key_def intent_row_def CronGeneration_new_def)
qed

section \<open>Persisting deliveries\<close>

lemma persist_intent_Inr:
  assumes "persist_intent env ij i rows = Inr out"
  shows "insert_row cron_intent_bad (intent_row ij i) rows = Inr out"
  using assms by (auto simp: persist_intent_def bindE_eq_Inr_iff split: prod.splits)

lemma persist_intents_Inr:
  assumes "persist_intents env ij is rows = Inr out"
  shows "out = rows @ map (intent_row ij) is"
    and "table_ok cron_intent_check cron_intent_clash rows \<Longrightarrow> table_ok cron_intent_check cron_intent_clash out"
  using assms
proof (induction "is" arbitrary: rows)
  case (Cons i "is")
  { case 1
    then obtain mid where "persist_intent env ij i rows = Inr mid" "persist_intents env ij is mid = Inr out"
      by (auto simp: bindE_eq_Inr_iff)
    then show ?case using Cons.IH(1)[of mid] insert_row_Inr[OF persist_intent_Inr] by simp }
  { case 2
    then obtain mid where mid: "persist_intent env ij i rows = Inr mid" "persist_intents env ij is mid = Inr out"
      by (auto simp: bindE_eq_Inr_iff)
    have "table_ok cron_intent_check cron_intent_clash mid"
      by (rule deliveries.insert_table[OF persist_intent_Inr[OF mid(1)] 2(1)])
    then show ?case using Cons.IH(2) mid(2) by blast }
qed simp_all

text \<open>What a run asks to deliver: notices and outputs carry the parsed names of the schedule.\<close>

lemma from_str_again:
  "TeamName_from_str v = Inr t \<Longrightarrow> TeamName_from_str t = Inr t"
  "AgentName_from_str v = Inr a \<Longrightarrow> AgentName_from_str a = Inr a"
  "CronName_parse v = Inr n \<Longrightarrow> CronName_parse n = Inr n"
  by (auto simp: TeamName_from_str_def AgentName_from_str_def CronName_parse_def Let_def
      bindE_eq_Inr_iff split: if_splits)

lemma run_names_Inr:
  "run_names row = Inr (team, creator, name) \<Longrightarrow> names_parse team creator name"
  using from_str_again
  by (auto simp: run_names_def bindE_eq_Inr_iff internal_of_def names_parse_def)

lemma lifecycle_intents_Inr:
  assumes "lifecycle_intents key ev row = Inr is"
  shows "map intent_key is = (case ev of None \<Rightarrow> [] | Some _ \<Rightarrow> [LifecycleKey key])"
    and "list_all (\<lambda>i. intent_kind i = ''lifecycle'') is"
    and "pred_option event_ok ev \<Longrightarrow> nk_generation key \<noteq> 0 \<Longrightarrow> list_all intent_ok is"
  using assms run_names_Inr
  by (auto simp: lifecycle_intents_def bindE_eq_Inr_iff split: option.splits)

lemma module_intents_Inr:
  assumes "module_intents new_id key row k outs = Inr is"
  shows "map intent_key is = map (\<lambda>j. ModuleMailKey (nk_schedule_id key) (nk_generation key)
      (nk_transition_seq key) (of_nat j)) [k..<k + length outs]"
    and "list_all (\<lambda>i. intent_kind i = ''module_mail'') is"
    and "k + length outs \<le> 2 ^ 16 \<or> outs = []"
    and "list_all output_ok outs \<Longrightarrow> nk_generation key \<noteq> 0 \<Longrightarrow> list_all intent_ok is"
  using assms
proof (induction outs arbitrary: k "is")
  case Nil
  { case 1 then show ?case by simp }
  { case 2 then show ?case by simp }
  { case 3 then show ?case by simp }
  { case 4 then show ?case by simp }
next
  case (Cons o' outs)
  have step: "\<exists>team creator name is'. run_names row = Inr (team, creator, name) \<and> k < 2 ^ 16
      \<and> module_intents new_id key row (Suc k) outs = Inr is'
      \<and> is = ModuleMail \<lparr>mi_key = ModuleMailKey (nk_schedule_id key) (nk_generation key)
          (nk_transition_seq key) (of_nat k), mi_message_id = new_id k, mi_team = team,
          mi_recipient = creator, mi_name = name, mi_output = o'\<rparr> # is'"
    if "module_intents new_id key row k (o' # outs) = Inr is" for k "is"
    using that by (auto simp: bindE_eq_Inr_iff split: if_splits)
  { case 1
    from step[OF this] Cons.IH(1)[of "Suc k"] show ?case
      by (auto simp: upt_conv_Cons simp del: upt_Suc) }
  { case 2
    from step[OF this] Cons.IH(2)[of "Suc k"] show ?case by auto }
  { case 3
    from step[OF this] Cons.IH(3)[of "Suc k"] show ?case by (auto simp del: power_numeral) }
  { case 4
    from step[OF 4(3)] Cons.IH(4)[of "Suc k"] 4(1,2) show ?case
      using run_names_Inr by auto }
qed

section \<open>The invariant\<close>

definition delivery_key :: "CronIntentCols \<Rightarrow> int \<times> int \<times> int \<times> int option" where
  "delivery_key r = (ci_schedule_id r, ci_generation r, ci_transition_seq r, ci_output_index r)"

definition intent_shape :: "CronIntentCols \<Rightarrow> bool" where
  "intent_shape r \<longleftrightarrow> (ci_kind r = ''lifecycle'') = (ci_output_index r = None)"

definition delivery_ok :: "intent_json \<Rightarrow> CronEventCols list \<Rightarrow> CronIntentCols \<Rightarrow> bool" where
  "delivery_ok ij events r \<longleftrightarrow> intent_shape r \<and> (is_pending r \<longrightarrow> \<not> isl (decode_pending ij r))
     \<and> list_ex (\<lambda>e. run_event (ci_schedule_id r) (ci_generation r) e
         \<and> ce_transition_seq e = ci_transition_seq r) events"

definition cron_ok :: "cron_json \<Rightarrow> intent_json \<Rightarrow> cron_db \<Rightarrow> bool" where
  "cron_ok cj ij s \<longleftrightarrow> schedule_ok cj s
     \<and> table_ok cron_event_check cron_event_clash (cd_events s) \<and> numbered (cd_events s)
     \<and> table_ok cron_intent_check cron_intent_clash (cd_intents s)
     \<and> list_all (delivery_ok ij (cd_events s)) (cd_intents s)"

definition delivery_progress :: "cron_db \<Rightarrow> cron_db \<Rightarrow> bool" where
  "delivery_progress s s' \<longleftrightarrow> (\<forall>r\<in>set (cd_intents s). \<exists>r'\<in>set (cd_intents s').
     delivery_key r' = delivery_key r \<and> (ci_state r \<noteq> ''pending'' \<longrightarrow> r' = r))"

lemma delivery_progress_same: "set (cd_intents s) \<subseteq> set (cd_intents s') \<Longrightarrow> delivery_progress s s'"
  unfolding delivery_progress_def by blast

lemma delivery_progress_trans:
  "delivery_progress a b \<Longrightarrow> delivery_progress b c \<Longrightarrow> delivery_progress a c"
  unfolding delivery_progress_def by metis

lemma delivery_key_unique:
  assumes "cron_ok cj ij s" "r \<in> set (cd_intents s)" "r' \<in> set (cd_intents s)"
    "delivery_key r = delivery_key r'"
  shows "r = r'"
proof -
  have "intent_shape r" "intent_shape r'" "cron_intent_check r" "cron_intent_check r'"
    using assms by (auto simp: cron_ok_def list_all_iff delivery_ok_def table_ok_def)
  then have "cron_intent_clash r r'"
    using assms(4) by (auto simp: delivery_key_def cron_intent_clash_def intent_shape_def cron_intent_check_def)
  then show ?thesis
    using deliveries.clash_unique assms(1-3) by (auto simp: cron_ok_def)
qed

text \<open>The bounded texts of a transition and of a receipt are those their parsers accept.\<close>

definition write_ok :: "CronTransitionWrite \<Rightarrow> bool" where
  "write_ok w \<longleftrightarrow> pred_option event_ok (lifecycle_event (tw_transition w)) \<and> list_all output_ok (tw_outputs w)"

fun receipt_ok :: "DeliveryReceipt \<Rightarrow> bool" where
  "receipt_ok (UnknownHandoff cause) = (DeliveryRetryCause_parse cause = Inr cause)"
| "receipt_ok _ = True"

section \<open>A commit keeps the invariant\<close>

lemma schedule_ok_more:
  "schedule_ok cj (s\<lparr>sd_rows := rows, cd_events := ev, cd_intents := ins\<rparr>)
     = schedule_ok cj (s\<lparr>sd_rows := rows\<rparr>)"
  "schedule_progress s (s\<lparr>sd_rows := rows, cd_events := ev, cd_intents := ins\<rparr>)
     = schedule_progress s (s\<lparr>sd_rows := rows\<rparr>)"
  by (simp_all add: schedule_ok_def schedule_progress_def)

lemma record_outcome_ok:
  assumes "schedule_ok cj s" "record_outcome env w sid (sd_rows s) = Inr rows"
  shows "schedule_ok cj (s\<lparr>sd_rows := rows\<rparr>) \<and> schedule_progress s (s\<lparr>sd_rows := rows\<rparr>)"
proof (cases "transition_outcome (tw_transition w)")
  case None
  then have "rows = sd_rows s" using assms(2) by (simp add: record_outcome_def)
  then show ?thesis using assms(1) by simp
next
  case (Some outcome)
  note run = assms(2)[unfolded record_outcome_def Some option.case Let_def]
  show ?thesis by (rule run_kept[OF assms(1) _ _ run]) (simp_all add: row_progress_def)
qed

lemma intent_row_ok:
  assumes "intent_json_ok ij" "intent_ok i" "delivery_columns (intent_key i) = (sid, gen, seq, ix)"
    "run_event (int sid) (uint gen) e" "ce_transition_seq e = int seq" "e \<in> set events"
  shows "delivery_ok ij events (intent_row ij i)"
proof -
  have "intent_shape (intent_row ij i)"
    using assms(2,3) by (cases i)
      (auto simp: intent_shape_def intent_row_def split: CronDeliveryKey.splits)
  moreover have "decode_pending ij (intent_row ij i) = Inr (ReadyToSend i)"
    by (rule decode_pending_stored[OF assms(1,2)])
  ultimately show ?thesis
    using assms(3-6) by (auto simp: delivery_ok_def intent_row_sel list_ex_iff)
qed

lemma committed_key:
  assumes "intent_key i \<in> set (map intent_key (notices @ mails))"
    "map intent_key notices = (case ev of None \<Rightarrow> [] | Some _ \<Rightarrow> [LifecycleKey key])"
    "map intent_key mails = map (\<lambda>j. ModuleMailKey (nk_schedule_id key) (nk_generation key)
      (nk_transition_seq key) (of_nat j)) js"
  shows "\<exists>ix. delivery_columns (intent_key i)
      = (nk_schedule_id key, nk_generation key, nk_transition_seq key, ix)"
  using assms by (auto split: option.splits)

lemma commit_run_spec:
  assumes run: "commit_run env ij new_id w (int (tw_id w)) row s = Inr (s', r)"
    and num: "numbered (cd_events s)"
  defines "sid \<equiv> int (tw_id w)" and "gen \<equiv> uint (tw_generation w)"
  defines "seq \<equiv> length (run_events sid gen (cd_events s)) + 1"
  defines "key \<equiv> \<lparr>nk_schedule_id = tw_id w, nk_generation = tw_generation w, nk_transition_seq = seq\<rparr>"
  obtains prior rows notices mails
  where "(if fst (failure_columns (tw_transition w)) = ''failure''
          then read_prior_failure env sid gen (cd_events s) else Inr None) = Inr prior"
    "insert_row cron_event_bad (transition_row w sid (int seq)) (cd_events s)
       = Inr (cd_events s @ [transition_row w sid (int seq)])"
    "record_outcome env w sid (sd_rows s) = Inr rows"
    "lifecycle_intents key
       (if repeated_failure (snd (failure_columns (tw_transition w))) prior then None
        else lifecycle_event (tw_transition w)) row = Inr notices"
    "module_intents new_id key row 0 (tw_outputs w) = Inr mails"
    "persist_intents env ij (notices @ mails) (cd_intents s)
       = Inr (cd_intents s @ map (intent_row ij) (notices @ mails))"
    "s' = s\<lparr>sd_rows := rows, cd_events := cd_events s @ [transition_row w sid (int seq)],
       cd_intents := cd_intents s @ map (intent_row ij) (notices @ mails)\<rparr>"
    "r = AppliedCommit (notices @ mails)"
proof -
  have seq: "next_transition_seq sid gen (cd_events s) = int seq"
    using numbered_next[OF num] by (simp add: seq_def)
  from run show thesis
    unfolding sid_def[symmetric]
  proof (rule commit_run_Inr)
    fix prior q events rows notices mails intents
    assume st: "(if fst (failure_columns (tw_transition w)) = ''failure''
          then read_prior_failure env sid (uint (tw_generation w)) (cd_events s) else Inr None) = Inr prior"
      "q = next_transition_seq sid (uint (tw_generation w)) (cd_events s)"
      "insert_row cron_event_bad (transition_row w sid q) (cd_events s) = Inr events"
      "record_outcome env w sid (sd_rows s) = Inr rows"
      "lifecycle_intents \<lparr>nk_schedule_id = tw_id w, nk_generation = tw_generation w,
           nk_transition_seq = nat q\<rparr>
         (if repeated_failure (snd (failure_columns (tw_transition w))) prior then None
          else lifecycle_event (tw_transition w)) row = Inr notices"
      "module_intents new_id \<lparr>nk_schedule_id = tw_id w, nk_generation = tw_generation w,
           nk_transition_seq = nat q\<rparr> row 0 (tw_outputs w) = Inr mails"
      "persist_intents env ij (notices @ mails) (cd_intents s) = Inr intents"
      "s' = s\<lparr>sd_rows := rows, cd_events := events, cd_intents := intents\<rparr>"
      "r = AppliedCommit (notices @ mails)"
    have q: "q = int seq" "nat q = seq" using st(2) seq by (simp_all add: gen_def)
    have "events = cd_events s @ [transition_row w sid (int seq)]"
      using insert_row_Inr[OF st(3)] q(1) by simp
    moreover have "intents = cd_intents s @ map (intent_row ij) (notices @ mails)"
      by (rule persist_intents_Inr(1)[OF st(7)])
    ultimately show thesis
      using st(1,3-9) unfolding q(1) nat_int gen_def[symmetric] key_def[symmetric]
      by (intro that) simp_all
  qed
qed

lemma transition_row_sel [simp]:
  "ce_schedule_id (transition_row w sid seq) = sid"
  "ce_generation (transition_row w sid seq) = uint (tw_generation w)"
  "ce_transition_seq (transition_row w sid seq) = seq"
  by (simp_all add: transition_row_def split: prod.splits)

lemma commit_run_ok:
  assumes ok: "cron_ok cj ij s" and json: "intent_json_ok ij" and w: "write_ok w"
    and row: "find (current_run (int (tw_id w)) (tw_generation w)) (sd_rows s) = Some row"
    and run: "commit_run env ij new_id w (int (tw_id w)) row s = Inr (s', r)"
  shows "cron_ok cj ij s' \<and> schedule_progress s s' \<and> delivery_progress s s'"
proof -
  let ?sid = "int (tw_id w)" and ?gen = "uint (tw_generation w)"
  let ?seq = "length (run_events ?sid ?gen (cd_events s)) + 1"
  let ?key = "\<lparr>nk_schedule_id = tw_id w, nk_generation = tw_generation w, nk_transition_seq = ?seq\<rparr>"
  let ?e = "transition_row w ?sid (int ?seq)"
  have tables: "schedule_ok cj s" "table_ok cron_event_check cron_event_clash (cd_events s)"
    "numbered (cd_events s)" "table_ok cron_intent_check cron_intent_clash (cd_intents s)"
    "list_all (delivery_ok ij (cd_events s)) (cd_intents s)" using ok by (simp_all add: cron_ok_def)
  from run tables(3) obtain prior rows notices mails where st:
    "insert_row cron_event_bad ?e (cd_events s) = Inr (cd_events s @ [?e])"
    "record_outcome env w ?sid (sd_rows s) = Inr rows"
    "lifecycle_intents ?key (if repeated_failure (snd (failure_columns (tw_transition w))) prior then None
        else lifecycle_event (tw_transition w)) row = Inr notices"
    "module_intents new_id ?key row 0 (tw_outputs w) = Inr mails"
    "persist_intents env ij (notices @ mails) (cd_intents s)
       = Inr (cd_intents s @ map (intent_row ij) (notices @ mails))"
    "s' = s\<lparr>sd_rows := rows, cd_events := cd_events s @ [?e],
       cd_intents := cd_intents s @ map (intent_row ij) (notices @ mails)\<rparr>"
    by (rule commit_run_spec)
  have "current_run ?sid (tw_generation w) row" "row \<in> set (sd_rows s)"
    using row by (auto simp: find_Some_iff in_set_conv_nth)
  then have "tw_generation w \<noteq> 0"
    using tables(1) by (auto simp: current_run_def schedule_ok_def table_ok_def list_all_iff cron_row_check_def)
  then have intents: "list_all intent_ok (notices @ mails)"
    using lifecycle_intents_Inr(3)[OF st(3)] module_intents_Inr(4)[OF st(4)] w
    by (simp add: write_ok_def)
  have "delivery_ok ij (cd_events s @ [?e]) (intent_row ij i)" if "i \<in> set (notices @ mails)" for i
  proof -
    have "intent_key i \<in> set (map intent_key (notices @ mails))" using that by auto
    from committed_key[OF this lifecycle_intents_Inr(1)[OF st(3)] module_intents_Inr(1)[OF st(4)]]
    obtain ix where "delivery_columns (intent_key i) = (tw_id w, tw_generation w, ?seq, ix)" by auto
    then show ?thesis
      using intents that by (intro intent_row_ok[OF json, where e = ?e]) (auto simp: list_all_iff run_event_def)
  qed
  moreover have "delivery_ok ij (cd_events s @ [?e]) r'" if "r' \<in> set (cd_intents s)" for r'
    using tables(5) that by (auto simp: delivery_ok_def list_all_iff)
  moreover have "numbered (cd_events s @ [?e])"
    by (rule numbered_snoc[OF tables(3)]) (simp add: numbered_next[OF tables(3)])
  ultimately show ?thesis
    using record_outcome_ok[OF tables(1) st(2)] transitions.insert_table[OF st(1) tables(2)]
      persist_intents_Inr(2)[OF st(5) tables(4)]
    by (auto simp: cron_ok_def st(6) schedule_ok_more list_all_iff delivery_progress_same)
qed

lemma commit_ok:
  assumes "cron_ok cj ij s" "intent_json_ok ij" "write_ok w" "commit env ij new_id w s = Inr (s', r)"
  shows "cron_ok cj ij s' \<and> schedule_progress s s' \<and> delivery_progress s s'"
  using assms(4)
proof (cases rule: commit_cases)
  case (applied row)
  then show ?thesis using commit_run_ok[OF assms(1-3)] by blast
qed (use assms(1) in \<open>auto intro: delivery_progress_same\<close>)

section \<open>Marking a delivery\<close>

lemma mark_delivered_Inr:
  assumes "mark_delivered env key receipt s = Inr (s', b)"
  obtains sid gen seq ix state rtext cause
  where "delivery_columns key = (sid, gen, seq, ix)" "receipt_columns receipt = (state, rtext, cause)"
    "update_rows cron_intent_bad (awaits (int sid, uint gen, int seq, ix))
       (\<lambda>r. r\<lparr>ci_state := state, ci_receipt := rtext, ci_retry_cause := cause\<rparr>) (cd_intents s)
       = Inr (cd_intents s')"
    "s' = s\<lparr>cd_intents := map (\<lambda>r. if awaits (int sid, uint gen, int seq, ix) r
       then r\<lparr>ci_state := state, ci_receipt := rtext, ci_retry_cause := cause\<rparr> else r) (cd_intents s)\<rparr>"
    "b \<longleftrightarrow> length (filter (awaits (int sid, uint gen, int seq, ix)) (cd_intents s)) = 1"
proof -
  obtain sid gen seq ix where key: "delivery_columns key = (sid, gen, seq, ix)"
    by (cases "delivery_columns key") auto
  obtain state rtext cause where rc: "receipt_columns receipt = (state, rtext, cause)"
    by (cases "receipt_columns receipt") auto
  have q: "stored_seq seq = Inr i \<longleftrightarrow> int seq < 2 ^ 63 \<and> i = int seq" for i
    by (auto simp: stored_seq_def)
  obtain rows where rows: "update_rows cron_intent_bad (awaits (int sid, uint gen, int seq, ix))
       (\<lambda>r. r\<lparr>ci_state := state, ci_receipt := rtext, ci_retry_cause := cause\<rparr>) (cd_intents s) = Inr rows"
    and out: "s' = s\<lparr>cd_intents := rows\<rparr>"
      "b \<longleftrightarrow> length (filter (awaits (int sid, uint gen, int seq, ix)) (cd_intents s)) = 1"
    using assms by (auto simp: mark_delivered_def key rc bindE_eq_Inr_iff checked_id_Inr q)
  show thesis using that[OF key rc] rows out update_rows_Inr[OF rows] by simp
qed

lemma receipt_state:
  assumes "receipt_columns receipt = (state, rtext, cause)"
  shows "state \<noteq> ''pending''" "(state = ''unknown'') = (cause \<noteq> None)"
  using assms by (cases receipt; auto)+

lemma pending_key_update [simp]:
  "pending_key (r\<lparr>ci_state := a, ci_receipt := b, ci_retry_cause := c\<rparr>) = pending_key r"
  by (simp add: pending_key_def cong: if_cong)

lemma decode_marked:
  assumes "receipt_columns receipt = (state, rtext, cause)" "receipt_ok receipt"
    "\<not> isl (decode_pending ij r)" "ci_state r = ''pending''"
    "is_pending (r\<lparr>ci_state := state, ci_receipt := rtext, ci_retry_cause := cause\<rparr>)"
  shows "\<not> isl (decode_pending ij (r\<lparr>ci_state := state, ci_receipt := rtext, ci_retry_cause := cause\<rparr>))"
proof -
  obtain c where c: "state = ''unknown''" "cause = Some c" "DeliveryRetryCause_parse c = Inr c"
    using assms(1,2,5) by (cases receipt) (auto simp: is_pending_def)
  obtain p where "decode_pending ij r = Inr p" using assms(3) by (cases "decode_pending ij r") auto
  then show ?thesis
    using assms(4) c
    by (auto simp: decode_pending_def bindE_eq_Inr_iff internal_of_def split: if_splits option.splits)
qed

lemma mark_delivered_ok:
  assumes ok: "cron_ok cj ij s" and rc: "receipt_ok receipt"
    and run: "mark_delivered env key receipt s = Inr (s', b)"
  shows "cron_ok cj ij s' \<and> schedule_progress s s' \<and> delivery_progress s s'"
  using run
proof (rule mark_delivered_Inr)
  fix sid and gen :: CronGeneration and seq ix state rtext cause
  let ?P = "awaits (int sid, uint gen, int seq, ix)"
  let ?f = "\<lambda>r. r\<lparr>ci_state := state, ci_receipt := rtext, ci_retry_cause := cause\<rparr>"
  assume cols: "receipt_columns receipt = (state, rtext, cause)"
    and upd: "update_rows cron_intent_bad ?P ?f (cd_intents s) = Inr (cd_intents s')"
    and s': "s' = s\<lparr>cd_intents := map (\<lambda>r. if ?P r then ?f r else r) (cd_intents s)\<rparr>"
  have row: "delivery_ok ij (cd_events s) (if ?P r then ?f r else r)" if "r \<in> set (cd_intents s)" for r
  proof -
    have r: "delivery_ok ij (cd_events s) r" using ok that by (simp add: cron_ok_def list_all_iff)
    have "\<not> isl (decode_pending ij (?f r))" if "?P r" "is_pending (?f r)"
      using decode_marked[OF cols rc _ _ that(2)] r that(1)
      by (simp add: delivery_ok_def awaits_def is_pending_def)
    then show ?thesis using r by (auto simp: delivery_ok_def intent_shape_def)
  qed
  have "table_ok cron_intent_check cron_intent_clash (cd_intents s')"
    using deliveries.update_table[OF upd] ok by (simp add: cron_ok_def)
  moreover have "list_all (delivery_ok ij (cd_events s)) (cd_intents s')"
    unfolding s' by (simp add: list.pred_map) (use row in \<open>simp add: list_all_iff\<close>)
  ultimately have "cron_ok cj ij s'"
    using ok by (simp add: cron_ok_def s' schedule_ok_def)
  moreover have "delivery_progress s s'"
    unfolding delivery_progress_def
  proof
    fix r assume r: "r \<in> set (cd_intents s)"
    then have "(if ?P r then ?f r else r) \<in> set (cd_intents s')" by (simp add: s')
    then show "\<exists>r'\<in>set (cd_intents s'). delivery_key r' = delivery_key r \<and> (ci_state r \<noteq> ''pending'' \<longrightarrow> r' = r)"
      by (rule bexI[rotated]) (auto simp: delivery_key_def awaits_def)
  qed
  moreover have "schedule_progress s s'" by (simp add: s' schedule_progress_def) (use row_progress_refl in blast)
  ultimately show ?thesis by blast
qed

section \<open>Runs of the stores\<close>

text \<open>Any sequence of operations of the two stores that succeed, a failed one having no effect.\<close>

inductive cron_reach :: "cron_json \<Rightarrow> intent_json \<Rightarrow> cron_db \<Rightarrow> cron_db \<Rightarrow> bool"
  for cj ij s where
  here: "cron_reach cj ij s s"
| start: "cron_reach cj ij s t \<Longrightarrow> cron_start env cj n t = Inr (u, c) \<Longrightarrow> cron_reach cj ij s u"
| finish: "cron_reach cj ij s t \<Longrightarrow> cron_end env cj team phase name at t = Inr (u, cs) \<Longrightarrow> cron_reach cj ij s u"
| ran: "cron_reach cj ij s t \<Longrightarrow> record_run env sid gen at outcome t = Inr (u, b) \<Longrightarrow> cron_reach cj ij s u"
| stopped: "cron_reach cj ij s t \<Longrightarrow> record_stop env sid gen at reason t = Inr (u, b) \<Longrightarrow> cron_reach cj ij s u"
| committed: "cron_reach cj ij s t \<Longrightarrow> write_ok w \<Longrightarrow> commit env ij new_id w t = Inr (u, r) \<Longrightarrow> cron_reach cj ij s u"
| marked: "cron_reach cj ij s t \<Longrightarrow> receipt_ok rc \<Longrightarrow> mark_delivered env key rc t = Inr (u, b) \<Longrightarrow> cron_reach cj ij s u"

lemma schedule_step_ok:
  assumes "cron_ok cj ij s" "schedule_ok cj s' \<and> schedule_progress s s'"
    "cd_events s' = cd_events s" "cd_intents s' = cd_intents s"
  shows "cron_ok cj ij s' \<and> schedule_progress s s' \<and> delivery_progress s s'"
  using assms by (auto simp: cron_ok_def intro: delivery_progress_same)

lemma schedule_frame:
  "cron_start env cj n s = Inr (s', c) \<Longrightarrow> cd_events s' = cd_events s \<and> cd_intents s' = cd_intents s"
  "cron_end env cj team phase name at s = Inr (s', cs) \<Longrightarrow> cd_events s' = cd_events s \<and> cd_intents s' = cd_intents s"
  "record_run env sid gen at outcome s = Inr (s', b) \<Longrightarrow> cd_events s' = cd_events s \<and> cd_intents s' = cd_intents s"
  "record_stop env sid gen at reason s = Inr (s', b) \<Longrightarrow> cd_events s' = cd_events s \<and> cd_intents s' = cd_intents s"
proof -
  show "cd_events s' = cd_events s \<and> cd_intents s' = cd_intents s" if "cron_start env cj n s = Inr (s', c)"
    using that
  proof (cases rule: cron_start_cases)
    case fresh
    then show ?thesis using schedule_insert_Inr(2)[OF fresh(2)] by simp
  next
    case (ended r)
    then show ?thesis using schedule_restart_Inr(2)[OF ended(3)] by simp
  qed
qed (auto simp: cron_end_def record_run_def record_stop_def bindE_eq_Inr_iff split: option.splits)

definition cron_step_ok :: "cron_json \<Rightarrow> intent_json \<Rightarrow> cron_db \<Rightarrow> cron_db \<Rightarrow> bool" where
  "cron_step_ok cj ij s t \<longleftrightarrow> cron_ok cj ij t \<and> schedule_progress s t \<and> delivery_progress s t"

lemma cron_step_trans: "cron_step_ok cj ij s t \<Longrightarrow> cron_step_ok cj ij t u \<Longrightarrow> cron_step_ok cj ij s u"
  unfolding cron_step_ok_def using schedule_progress_trans delivery_progress_trans by blast

lemma schedule_steps:
  assumes ok: "cron_ok cj ij s"
  shows "cron_start env cj n s = Inr (s', c) \<Longrightarrow> cron_step_ok cj ij s s'"
    and "cron_end env cj team phase name at s = Inr (s', cs) \<Longrightarrow> cron_step_ok cj ij s s'"
    and "record_run env sid gen at outcome s = Inr (s', b) \<Longrightarrow> cron_step_ok cj ij s s'"
    and "record_stop env sid gen at reason s = Inr (s', b) \<Longrightarrow> cron_step_ok cj ij s s'"
proof -
  have sched: "schedule_ok cj s" using ok by (simp add: cron_ok_def)
  note step = schedule_step_ok[OF ok, folded cron_step_ok_def]
  show "cron_start env cj n s = Inr (s', c) \<Longrightarrow> cron_step_ok cj ij s s'"
    using step start_ok[OF sched] schedule_frame(1) by blast
  show "cron_end env cj team phase name at s = Inr (s', cs) \<Longrightarrow> cron_step_ok cj ij s s'"
    using step end_ok[OF sched] schedule_frame(2) by blast
  show "record_run env sid gen at outcome s = Inr (s', b) \<Longrightarrow> cron_step_ok cj ij s s'"
    using step record_run_ok[OF sched] schedule_frame(3) by blast
  show "record_stop env sid gen at reason s = Inr (s', b) \<Longrightarrow> cron_step_ok cj ij s s'"
    using step record_stop_ok[OF sched] schedule_frame(4) by blast
qed

lemma reach_ok:
  assumes "cron_reach cj ij s t" "intent_json_ok ij" "cron_ok cj ij s"
  shows "cron_step_ok cj ij s t"
  using assms
proof (induction rule: cron_reach.induct)
  case here
  then show ?case by (auto simp: cron_step_ok_def intro: delivery_progress_same)
next
  case (start t env n u c)
  then have ih: "cron_step_ok cj ij s t" by blast
  then have ok: "cron_ok cj ij t" by (simp add: cron_step_ok_def)
  show ?case by (rule cron_step_trans[OF ih schedule_steps(1)[OF ok start.hyps(2)]])
next
  case (finish t env team phase name at u cs)
  then have ih: "cron_step_ok cj ij s t" by blast
  then have ok: "cron_ok cj ij t" by (simp add: cron_step_ok_def)
  show ?case by (rule cron_step_trans[OF ih schedule_steps(2)[OF ok finish.hyps(2)]])
next
  case (ran t env sid gen at outcome u b)
  then have ih: "cron_step_ok cj ij s t" by blast
  then have ok: "cron_ok cj ij t" by (simp add: cron_step_ok_def)
  show ?case by (rule cron_step_trans[OF ih schedule_steps(3)[OF ok ran.hyps(2)]])
next
  case (stopped t env sid gen at reason u b)
  then have ih: "cron_step_ok cj ij s t" by blast
  then have ok: "cron_ok cj ij t" by (simp add: cron_step_ok_def)
  show ?case by (rule cron_step_trans[OF ih schedule_steps(4)[OF ok stopped.hyps(2)]])
next
  case (committed t w env new_id u r)
  then have ih: "cron_step_ok cj ij s t" by blast
  then have ok: "cron_ok cj ij t" by (simp add: cron_step_ok_def)
  show ?case
    by (rule cron_step_trans[OF ih commit_ok[OF ok committed.prems(1) committed.hyps(2,3),
          folded cron_step_ok_def]])
next
  case (marked t rc env key u b)
  then have ih: "cron_step_ok cj ij s t" by blast
  then have ok: "cron_ok cj ij t" by (simp add: cron_step_ok_def)
  show ?case
    by (rule cron_step_trans[OF ih mark_delivered_ok[OF ok marked.hyps(2,3), folded cron_step_ok_def]])
qed

section \<open>Settled deliveries\<close>

definition settled :: "CronDeliveryKey \<Rightarrow> cron_db \<Rightarrow> bool" where
  "settled key s \<longleftrightarrow> (case delivery_columns key of (sid, gen, seq, ix) \<Rightarrow>
     list_ex (\<lambda>r. delivery_key r = (int sid, uint gen, int seq, ix) \<and> ci_state r \<noteq> ''pending'') (cd_intents s))"

lemma settled_progress: "settled key s \<Longrightarrow> delivery_progress s s' \<Longrightarrow> settled key s'"
  unfolding settled_def delivery_progress_def list_ex_iff by (auto split: prod.splits)

lemma pending_key_columns:
  assumes "pending_key r = Inr key" "intent_shape r" "delivery_columns key = (sid, gen, seq, ix)"
  shows "delivery_key r = (int sid, uint gen, int seq, ix)"
proof -
  have index: "uint (word_of_int ix :: 16 word) = ix" if "0 \<le> ix" "ix < 2 ^ 16" for ix
    using that by (simp add: uint_word_of_int)
  note run = assms(1)[unfolded pending_key_def bindE_eq_Inr_iff map_err_eq_Inr]
  show ?thesis
  proof (cases "ci_kind r = ''lifecycle''")
    case True
    then show ?thesis
      using run assms(2,3)
      by (auto simp: delivery_key_def intent_shape_def CronGeneration_new_def dest!: u32_of_Inr split: if_splits)
  next
    case False
    then show ?thesis
      using run assms(2,3) index
      by (auto simp: delivery_key_def intent_shape_def CronGeneration_new_def dest!: u32_of_Inr
          split: if_splits option.splits)
  qed
qed

lemma decode_pending_ready:
  assumes "decode_pending ij r = Inr (ReadyToSend i)"
  shows "ci_state r \<noteq> ''unknown''" and "pending_key r = Inr (intent_key i)"
proof -
  obtain key where key: "pending_key r = Inr key" "decode_intent ij key (ci_payload r) = Inr i"
    and un: "ci_state r \<noteq> ''unknown''"
    using assms by (auto simp: decode_pending_def bindE_eq_Inr_iff split: if_splits option.splits)
  show "ci_state r \<noteq> ''unknown''" by (rule un)
  obtain stored where "ij_parse ij (ci_payload r) = Inr stored"
    using key(2) by (auto simp: decode_intent_def bindE_eq_Inr_iff)
  then have "intent_key i = key"
    using key(2) by (cases key; cases stored) (auto simp: decode_intent_def bindE_eq_Inr_iff)
  then show "pending_key r = Inr (intent_key i)" using key(1) by simp
qed

lemma collectE_out: "collectE f xs = Inr ys \<Longrightarrow> y \<in> set ys \<Longrightarrow> \<exists>x\<in>set xs. f x = Inr y"
  by (induction xs arbitrary: ys) (auto simp: bindE_eq_Inr_iff)

lemma settled_not_ready:
  assumes ok: "cron_ok cj ij s" and key: "settled key s" and ps: "pending ij limit s = Inr ps"
    and p: "ReadyToSend i \<in> set ps"
  shows "intent_key i \<noteq> key"
proof
  assume i: "intent_key i = key"
  obtain sid gen seq ix where cols: "delivery_columns key = (sid, gen, seq, ix)"
    by (cases "delivery_columns key") auto
  let ?rows = "take limit (sort_key intent_order (filter is_pending (cd_intents s)))"
  obtain r where "r \<in> set ?rows" and dec: "decode_pending ij r = Inr (ReadyToSend i)"
    using collectE_out[OF ps[unfolded pending_def] p] by blast
  then have r: "r \<in> set (cd_intents s)" "is_pending r" by (auto dest: in_set_takeD)
  then have shape: "intent_shape r" using ok by (auto simp: cron_ok_def list_all_iff delivery_ok_def)
  obtain r' where r': "r' \<in> set (cd_intents s)" "delivery_key r' = (int sid, uint gen, int seq, ix)"
    "ci_state r' \<noteq> ''pending''" using key by (auto simp: settled_def cols list_ex_iff)
  have "delivery_key r = delivery_key r'"
    using pending_key_columns[OF decode_pending_ready(2)[OF dec] shape] i cols r'(2) by simp
  then have "r = r'" using delivery_key_unique[OF ok r(1) r'(1)] by simp
  then show False using decode_pending_ready(1)[OF dec] r(2) r'(3) by (simp add: is_pending_def)
qed

lemma mark_delivered_settles:
  assumes "mark_delivered env key receipt s = Inr (s', True)"
  shows "settled key s'"
  using assms
proof (rule mark_delivered_Inr)
  fix sid and gen :: CronGeneration and seq ix state rtext cause
  let ?P = "awaits (int sid, uint gen, int seq, ix)"
  assume cols: "delivery_columns key = (sid, gen, seq, ix)" "receipt_columns receipt = (state, rtext, cause)"
    and s': "s' = s\<lparr>cd_intents := map (\<lambda>r. if ?P r
       then r\<lparr>ci_state := state, ci_receipt := rtext, ci_retry_cause := cause\<rparr> else r) (cd_intents s)\<rparr>"
    and one: "True \<longleftrightarrow> length (filter ?P (cd_intents s)) = 1"
  obtain r where r: "r \<in> set (cd_intents s)" "?P r"
    using one by (metis filter_empty_conv list.size(3) zero_neq_one)
  then have "r\<lparr>ci_state := state, ci_receipt := rtext, ci_retry_cause := cause\<rparr> \<in> set (cd_intents s')"
    by (auto simp: s')
  then show ?thesis
    using r(2) receipt_state(1)[OF cols(2)] unfolding settled_def cols(1) prod.case list_ex_iff
    by (intro bexI[rotated]) (auto simp: delivery_key_def awaits_def)
qed

lemma settled_mark:
  assumes ok: "cron_ok cj ij s" and key: "settled key s" and run: "mark_delivered env key receipt s = Inr (s', b)"
  shows "\<not> b \<and> s' = s"
  using run
proof (rule mark_delivered_Inr)
  fix sid and gen :: CronGeneration and seq ix state rtext cause
  let ?P = "awaits (int sid, uint gen, int seq, ix)"
  assume cols: "delivery_columns key = (sid, gen, seq, ix)"
    and s': "s' = s\<lparr>cd_intents := map (\<lambda>r. if ?P r
       then r\<lparr>ci_state := state, ci_receipt := rtext, ci_retry_cause := cause\<rparr> else r) (cd_intents s)\<rparr>"
    and b: "b \<longleftrightarrow> length (filter ?P (cd_intents s)) = 1"
  obtain r' where r': "r' \<in> set (cd_intents s)" "delivery_key r' = (int sid, uint gen, int seq, ix)"
    "ci_state r' \<noteq> ''pending''" using key by (auto simp: settled_def cols list_ex_iff)
  have none: "\<not> ?P r" if "r \<in> set (cd_intents s)" for r
  proof
    assume "?P r"
    then have "delivery_key r = delivery_key r'" "ci_state r = ''pending''"
      using r'(2) by (simp_all add: awaits_def delivery_key_def)
    then show False using delivery_key_unique[OF ok that r'(1)] r'(3) by simp
  qed
  then have "filter ?P (cd_intents s) = []" by (simp add: filter_empty_conv)
  moreover have "map (\<lambda>r. if ?P r then r\<lparr>ci_state := state, ci_receipt := rtext, ci_retry_cause := cause\<rparr>
      else r) (cd_intents s) = cd_intents s" using none by (simp add: map_idI)
  ultimately show ?thesis using b by (simp add: s')
qed

end
