(* ===== verification/Cron_Scenario.thy ===== *)
theory Cron_Scenario
  imports Cron_Invariant Scenario
begin

text \<open>
  A concrete serializer and concrete cron tables on which the properties are instantiated: the
  schedule \<open>nightly\<close> of the lead \<open>L\<close> is started, fails once, and is ended.
\<close>

section \<open>A serializer\<close>

text \<open>A list of texts as one text: every byte is preceded by a mark, every text ends with a
  semicolon.\<close>

fun pack :: "string list \<Rightarrow> string" where
  "pack [] = []"
| "pack ([] # ss) = CHR '';'' # pack ss"
| "pack ((c # s) # ss) = CHR ''='' # c # pack (s # ss)"

fun unpack :: "string \<Rightarrow> string \<Rightarrow> string list" where
  "unpack acc [] = []"
| "unpack acc [x] = (if x = CHR '';'' then [acc] else [])"
| "unpack acc (x # y # r) = (if x = CHR '';'' then acc # unpack [] (y # r) else unpack (acc @ [y]) r)"

lemma unpack_pack: "unpack acc (pack (s # ss)) = (acc @ s) # unpack [] (pack ss)"
proof (induction s arbitrary: acc)
  case Nil
  then show ?case by (cases "pack ss") simp_all
qed simp

lemma unpack_list: "unpack [] (pack ss) = ss"
  by (induction ss) (simp_all add: unpack_pack)

fun parse_kind :: "string \<Rightarrow> CronFailureKind option" where
  "parse_kind t = find (\<lambda>k. CronFailureKind_debug k = t)
     [Timeout, MalformedReply, RunnerExit, Refused, ActionFailed, StopCheckFailed]"

lemma parse_kind_debug: "parse_kind (CronFailureKind_debug k) = Some k"
  by (cases k) simp_all

fun intent_texts :: "StoredIntent \<Rightarrow> string list" where
  "intent_texts (StoredLifecycle t r n (StoredError k c d)) =
     [''E'', t, r, n, CronFailureKind_debug k, (case c of None \<Rightarrow> [] | Some x \<Rightarrow> CHR ''c'' # x), d]"
| "intent_texts (StoredLifecycle t r n (StoredStopped m)) = [''S'', t, r, n, m]"
| "intent_texts (StoredModuleMail i t r n (MessageOutput b)) = [''M'', i, t, r, n, b]"
| "intent_texts (StoredModuleMail i t r n (ErrorOutput b)) = [''X'', i, t, r, n, b]"

definition texts_intent :: "string list \<Rightarrow> StoredIntent option" where
  "texts_intent ts =
     (if length ts = 7 \<and> ts ! 0 = ''E'' then
        map_option (\<lambda>k. StoredLifecycle (ts ! 1) (ts ! 2) (ts ! 3)
            (StoredError k (case ts ! 5 of [] \<Rightarrow> None | _ # x \<Rightarrow> Some x) (ts ! 6)))
          (parse_kind (ts ! 4))
      else if length ts = 5 \<and> ts ! 0 = ''S'' then
        Some (StoredLifecycle (ts ! 1) (ts ! 2) (ts ! 3) (StoredStopped (ts ! 4)))
      else if length ts = 6 \<and> ts ! 0 = ''M'' then
        Some (StoredModuleMail (ts ! 1) (ts ! 2) (ts ! 3) (ts ! 4) (MessageOutput (ts ! 5)))
      else if length ts = 6 \<and> ts ! 0 = ''X'' then
        Some (StoredModuleMail (ts ! 1) (ts ! 2) (ts ! 3) (ts ! 4) (ErrorOutput (ts ! 5)))
      else None)"

lemma texts_intent_texts: "texts_intent (intent_texts x) = Some x"
proof (induction x rule: intent_texts.induct)
  case (1 t r n k c d)
  then show ?case by (cases c) (simp_all add: texts_intent_def parse_kind_debug del: parse_kind.simps)
qed (simp_all add: texts_intent_def)

definition ij0 :: intent_json where
  "ij0 = \<lparr>ij_print = (\<lambda>x. pack (intent_texts x)),
     ij_parse = (\<lambda>t. case texts_intent (unpack [] t) of None \<Rightarrow> Inl ''json'' | Some x \<Rightarrow> Inr x),
     ij_print_id = (\<lambda>i. replicate i CHR ''1''), ij_parse_id = (\<lambda>t. Inr (length t))\<rparr>"

lemma ij0_ok: "intent_json_ok ij0"
  by (simp add: intent_json_ok_def ij0_def unpack_list texts_intent_texts)

definition cj0 :: cron_json where
  "cj0 = \<lparr>cj_args = pack, cj_parse_args = (\<lambda>t. Inr (unpack [] t)), cj_custom = (\<lambda>_. ''{}''),
     cj_parse_custom = (\<lambda>_. Some (JObject []))\<rparr>"

section \<open>The tables\<close>

definition nightly :: NewCronSchedule where
  "nightly = \<lparr>nc_team = ''t'', nc_phase = ''bk'', nc_name = ''nightly'', nc_cron_expr = ''0 * * * *'',
     nc_module_path = ''/hooks'', nc_cwd = ''/repo'', nc_args = [''a'', ''b''], nc_timeout_ms = 1000,
     nc_jitter_s = 0, nc_custom = [], nc_stop = Hook, nc_created_by = ''L'', nc_created_at = 1\<rparr>"

definition cron_empty :: cron_db where
  "cron_empty = \<lparr>sd_rows = [], sd_sequence = 0, cd_events = [], cd_intents = []\<rparr>"

definition the_state :: "cron_db \<Rightarrow> AtmError + (cron_db \<times> 'a) \<Rightarrow> cron_db" where
  "the_state s m = (case m of Inr (s', _) \<Rightarrow> s' | Inl _ \<Rightarrow> s)"

definition run_write :: "int \<Rightarrow> CronRunTransition \<Rightarrow> CronModuleOutput list \<Rightarrow> CronTransitionWrite" where
  "run_write at tr outs = \<lparr>tw_id = 1, tw_generation = 1, tw_at = at, tw_transition = tr, tw_outputs = outs\<rparr>"

definition timeout0 :: CronFailure where
  "timeout0 = \<lparr>cf_kind = Timeout, cf_code = None, cf_detail = ''slow''\<rparr>"

definition failed_write :: CronTransitionWrite where "failed_write = run_write 5 (Failure timeout0) []"
definition ok_write :: CronTransitionWrite where
  "ok_write = run_write 5 (Success SuccessOk) [MessageOutput ''report'', ErrorOutput ''odd'']"
definition late_failure :: CronTransitionWrite where "late_failure = run_write 6 (Failure timeout0) []"

definition notice_key :: CronDeliveryKey where
  "notice_key = LifecycleKey \<lparr>nk_schedule_id = 1, nk_generation = 1, nk_transition_seq = 1\<rparr>"

definition cron1 :: cron_db where "cron1 = the_state cron_empty (cron_start env0 cj0 nightly cron_empty)"
definition cron_failed :: cron_db where "cron_failed = the_state cron1 (commit env0 ij0 id failed_write cron1)"
definition cron_ok1 :: cron_db where "cron_ok1 = the_state cron1 (commit env0 ij0 id ok_write cron1)"
definition cron_marked :: cron_db where
  "cron_marked = the_state cron_failed (mark_delivered env0 notice_key (Accepted ''r'') cron_failed)"
definition cron_ended :: cron_db where
  "cron_ended = the_state cron1 (cron_end env0 cj0 ''t'' ''bk'' None 9 cron1)"
definition cron_again :: cron_db where
  "cron_again = the_state cron_ended (cron_start env0 cj0 nightly cron_ended)"

lemma cron_empty_ok: "cron_ok cj0 ij0 cron_empty"
  by (simp add: cron_ok_def cron_empty_def schedule_ok_def table_ok_def numbered_def run_events_def)

lemma the_state_Inr: "runs m \<Longrightarrow> \<exists>x. m = Inr (the_state s m, x)"
  by (cases m) (auto simp: runs_def the_state_def)

lemma cron1_reach: "cron_reach cj0 ij0 cron_empty cron1"
proof -
  have "runs (cron_start env0 cj0 nightly cron_empty)" by code_simp
  from the_state_Inr[OF this, of cron_empty] show ?thesis
    unfolding cron1_def using cron_reach.start[OF cron_reach.here] by blast
qed

lemma writes_ok: "write_ok failed_write" "write_ok ok_write" "write_ok late_failure"
  by code_simp+

lemma cron_failed_reach: "cron_reach cj0 ij0 cron1 cron_failed"
proof -
  have "runs (commit env0 ij0 id failed_write cron1)" by code_simp
  from the_state_Inr[OF this, of cron1] show ?thesis
    unfolding cron_failed_def using cron_reach.committed[OF cron_reach.here writes_ok(1)] by blast
qed

lemma cron_ok1_reach: "cron_reach cj0 ij0 cron1 cron_ok1"
proof -
  have "runs (commit env0 ij0 id ok_write cron1)" by code_simp
  from the_state_Inr[OF this, of cron1] show ?thesis
    unfolding cron_ok1_def using cron_reach.committed[OF cron_reach.here writes_ok(2)] by blast
qed

lemma cron_again_reach: "cron_reach cj0 ij0 cron_ended cron_again"
proof -
  have "runs (cron_start env0 cj0 nightly cron_ended)" by code_simp
  from the_state_Inr[OF this, of cron_ended] show ?thesis
    unfolding cron_again_def using cron_reach.start[OF cron_reach.here] by blast
qed

lemma cron_ended_reach: "cron_reach cj0 ij0 cron1 cron_ended"
proof -
  have "runs (cron_end env0 cj0 ''t'' ''bk'' None 9 cron1)" by code_simp
  from the_state_Inr[OF this, of cron1] show ?thesis
    unfolding cron_ended_def using cron_reach.finish[OF cron_reach.here] by blast
qed

lemma crons_ok: "cron_ok cj0 ij0 cron1" "cron_ok cj0 ij0 cron_failed" "cron_ok cj0 ij0 cron_ok1"
  "cron_ok cj0 ij0 cron_ended"
proof -
  show one: "cron_ok cj0 ij0 cron1"
    using reach_ok[OF cron1_reach ij0_ok cron_empty_ok] by (simp add: cron_step_ok_def)
  show "cron_ok cj0 ij0 cron_failed" "cron_ok cj0 ij0 cron_ok1" "cron_ok cj0 ij0 cron_ended"
    using reach_ok[OF cron_failed_reach ij0_ok one] reach_ok[OF cron_ok1_reach ij0_ok one]
      reach_ok[OF cron_ended_reach ij0_ok one] by (simp_all add: cron_step_ok_def)
qed

end
