(* ===== verification/Cron_Properties.thy ===== *)
theory Cron_Properties
  imports Cron_Scenario
begin

text \<open>
  The properties of the cron stores and of the fence between them and the writer: permits, the
  log of transitions, and the deliveries a transition asks for.
\<close>

section \<open>Permits\<close>

text \<open>
  Property C24: once the run of a permit has ended or its schedule has been started again, the
  permit stays refused whatever the stores do afterwards: the writer admits no message under it.
\<close>

theorem stale_permit_never_admits:
  assumes "cron_ok cj ij s" "intent_json_ok ij" "stale_permit sid gen s" "cron_reach cj ij s t"
    "db_cron_schedule d = fence_rows t"
  shows "\<exists>e. execute_upsert_message env record (CronRun sid gen) d = Inl (Fail e)"
proof -
  have step: "cron_ok cj ij t" "schedule_progress s t"
    using reach_ok[OF assms(4,2,1)] by (simp_all add: cron_step_ok_def)
  have "schedule_ok cj t" using step(1) by (simp add: cron_ok_def)
  then have "isl (validate_cron_generation_fence (CronRun sid gen) d)"
    by (rule stale_permit_refused[OF _ stale_permit_progress[OF assms(3) step(2)] assms(5)])
  then obtain e where "validate_cron_generation_fence (CronRun sid gen) d = Inl e"
    by (auto simp: isl_def)
  then show ?thesis
    by (simp add: execute_upsert_message_def numeral_2_eq_2 upsert_body_def liftE_def)
qed

theorem stale_permit_never_admits_witness:
  "\<exists>e. execute_upsert_message env0 letter_a (CronRun 1 1) (empty_db\<lparr>db_cron_schedule := fence_rows cron_again\<rparr>)
     = Inl (Fail e)"
proof (rule stale_permit_never_admits[OF crons_ok(4) ij0_ok _ cron_again_reach])
  show "stale_permit 1 1 cron_ended" by code_simp
qed simp

text \<open>
  Property C28: starting a schedule gives an active row that reads back as the specification, on
  the row its slot had and with a higher generation, and a permit the fence admits.
\<close>

theorem start_gives_permit:
  assumes "schedule_ok cj s" "cron_json_ok cj n" "cron_start env cj n s = Inr (s', c)"
    "db_cron_schedule d = fence_rows s'"
  shows "NewCronSchedule.truncate c = n \<and> cs_active c
    \<and> validate_cron_generation_fence (CronRun (cs_id c) (cs_generation c)) d = Inr ()
    \<and> (\<forall>r\<in>set (sd_rows s). cron_slot r = (nc_team n, nc_phase n, nc_name n) \<longrightarrow>
        cc_id r = int (cs_id c) \<and> cc_generation r < uint (cs_generation c))"
proof -
  have ok: "schedule_ok cj s'" using start_ok[OF assms(1,3)] by blast
  obtain r r0 where r: "r \<in> set (sd_rows s')" "decode_schedule cj r = Inr c" "cc_active r = 1"
    "r = schedule_assignments (ScheduleColumns_new cj n) r0" using start_row(1)[OF assms(1,3)] by blast
  note c = decode_schedule_Inr[OF r(2)]
  have "NewCronSchedule.truncate c = n" using decode_assigned[OF assms(2)] r(2,4) by blast
  moreover have "int (cs_id c) < 2 ^ 63"
    using ok r(1) c(1) by (auto simp: schedule_ok_def list_all_iff)
  then have "validate_cron_generation_fence (CronRun (cs_id c) (cs_generation c)) d = Inr ()"
    using fence_row[OF ok r(1)] c(1,2) r(3) assms(4) by (simp add: validate_cron_generation_fence_def)
  ultimately show ?thesis using start_row(2)[OF assms(1,3)] c(4) r(3) by blast
qed

theorem start_gives_permit_witness:
  "\<exists>s' c. cron_start env0 cj0 nightly cron_ended = Inr (s', c) \<and> NewCronSchedule.truncate c = nightly
     \<and> validate_cron_generation_fence (CronRun (cs_id c) (cs_generation c))
         (empty_db\<lparr>db_cron_schedule := fence_rows s'\<rparr>) = Inr ()"
proof -
  have "runs (cron_start env0 cj0 nightly cron_ended)" by code_simp
  then obtain s' c where run: "cron_start env0 cj0 nightly cron_ended = Inr (s', c)"
    using runs_Inr by fastforce
  have "schedule_ok cj0 cron_ended" using crons_ok(4) by (simp add: cron_ok_def)
  moreover have "cron_json_ok cj0 nightly" by code_simp
  ultimately show ?thesis
    using start_gives_permit[OF _ _ run, of "empty_db\<lparr>db_cron_schedule := fence_rows s'\<rparr>"] run by auto
qed

section \<open>Transitions\<close>

text \<open>A notice is due for a stop, and for a failure other than that of the latest transition.\<close>

definition notice_due :: "CronTransitionWrite \<Rightarrow> CronEventCols list \<Rightarrow> bool" where
  "notice_due w events =
     (case lifecycle_event (tw_transition w) of
        None \<Rightarrow> False
      | Some (LifecycleStopped _) \<Rightarrow> True
      | Some (LifecycleError f) \<Rightarrow>
          let run = run_events (int (tw_id w)) (uint (tw_generation w)) events in
          run = [] \<or> ce_failure_kind (last run) \<noteq> Some (CronFailureKind_debug (cf_kind f))
            \<or> ce_failure_code (last run) \<noteq> map_option code_str (cf_code f)
            \<or> ce_failure_detail (last run) \<noteq> Some (cf_detail f))"

lemma notice_due_prior:
  assumes "numbered events"
    "(if fst (failure_columns (tw_transition w)) = ''failure''
      then read_prior_failure env (int (tw_id w)) (uint (tw_generation w)) events else Inr None) = Inr prior"
  shows "(if repeated_failure (snd (failure_columns (tw_transition w))) prior then None
      else lifecycle_event (tw_transition w))
    = (if notice_due w events then lifecycle_event (tw_transition w) else None)"
  using assms(2)
  by (cases "tw_transition w")
    (auto simp: numbered_prior[OF assms(1)] notice_due_def repeated_failure_def Let_def
      split: if_splits option.splits)

text \<open>
  Property C25: a transition that is applied is logged with the next number of its run and at its
  time, and asks for one notice when one is due and for one mail per output, keyed by the number and
  the output's index; all of them are stored pending, and nothing else changes in the two tables.
\<close>

theorem commit_logs_and_asks:
  assumes "numbered (cd_events s)" "tw_transition w \<noteq> SkippedInFlight"
    "commit env ij new_id w s = Inr (s', AppliedCommit is)"
  defines "seq \<equiv> length (run_events (int (tw_id w)) (uint (tw_generation w)) (cd_events s)) + 1"
  shows "cd_events s' = cd_events s @ [transition_row w (int (tw_id w)) (int seq)]
    \<and> cd_intents s' = cd_intents s @ map (intent_row ij) is
    \<and> map intent_key is =
        (if notice_due w (cd_events s) then [LifecycleKey \<lparr>nk_schedule_id = tw_id w,
           nk_generation = tw_generation w, nk_transition_seq = seq\<rparr>] else [])
        @ map (\<lambda>j. ModuleMailKey (tw_id w) (tw_generation w) seq (of_nat j)) [0..<length (tw_outputs w)]"
  using assms(3)
proof (cases rule: commit_cases)
  case (applied row)
  from applied(4) assms(1) show ?thesis
  proof (rule commit_run_spec)
    fix prior rows notices mails
    assume prior: "(if fst (failure_columns (tw_transition w)) = ''failure'' then read_prior_failure env
        (int (tw_id w)) (uint (tw_generation w)) (cd_events s) else Inr None) = Inr prior"
      and notices: "lifecycle_intents \<lparr>nk_schedule_id = tw_id w, nk_generation = tw_generation w,
          nk_transition_seq = length (run_events (int (tw_id w)) (uint (tw_generation w)) (cd_events s)) + 1\<rparr>
          (if repeated_failure (snd (failure_columns (tw_transition w))) prior then None
           else lifecycle_event (tw_transition w)) row = Inr notices"
      and mails: "module_intents new_id \<lparr>nk_schedule_id = tw_id w, nk_generation = tw_generation w,
          nk_transition_seq = length (run_events (int (tw_id w)) (uint (tw_generation w)) (cd_events s)) + 1\<rparr>
          row 0 (tw_outputs w) = Inr mails"
      and s': "s' = s\<lparr>sd_rows := rows, cd_events := cd_events s @ [transition_row w (int (tw_id w))
            (int (length (run_events (int (tw_id w)) (uint (tw_generation w)) (cd_events s)) + 1))],
          cd_intents := cd_intents s @ map (intent_row ij) (notices @ mails)\<rparr>"
      and r: "AppliedCommit is = AppliedCommit (notices @ mails)"
    have "notice_due w (cd_events s) \<Longrightarrow> lifecycle_event (tw_transition w) \<noteq> None"
      by (cases "lifecycle_event (tw_transition w)") (simp_all add: notice_due_def)
    then have "map intent_key notices = (if notice_due w (cd_events s) then [LifecycleKey
        \<lparr>nk_schedule_id = tw_id w, nk_generation = tw_generation w, nk_transition_seq = seq\<rparr>] else [])"
      using lifecycle_intents_Inr(1)[OF notices, unfolded notice_due_prior[OF assms(1) prior]]
      by (auto simp: seq_def)
    then show ?thesis
      using module_intents_Inr(1)[OF mails] s' r by (simp add: seq_def)
  qed
qed (use assms(2) in auto)

theorem commit_logs_and_asks_witness:
  "\<exists>s' is. commit env0 ij0 id ok_write cron1 = Inr (s', AppliedCommit is)
     \<and> map intent_key is = [ModuleMailKey 1 1 1 0, ModuleMailKey 1 1 1 1]"
proof -
  have "(case commit env0 ij0 id ok_write cron1 of Inr (_, AppliedCommit _) \<Rightarrow> True | _ \<Rightarrow> False)"
    by code_simp
  then obtain s' "is" where run: "commit env0 ij0 id ok_write cron1 = Inr (s', AppliedCommit is)"
    by (auto split: sum.splits prod.splits CronCommitResult.splits)
  have num: "numbered (cd_events cron1)" using crons_ok(1) by (simp add: cron_ok_def)
  have "tw_transition ok_write \<noteq> SkippedInFlight" by code_simp
  from commit_logs_and_asks[OF num this run]
  have "map intent_key is = (if notice_due ok_write (cd_events cron1) then [LifecycleKey
      \<lparr>nk_schedule_id = tw_id ok_write, nk_generation = tw_generation ok_write, nk_transition_seq =
        length (run_events (int (tw_id ok_write)) (uint (tw_generation ok_write)) (cd_events cron1)) + 1\<rparr>] else [])
    @ map (\<lambda>j. ModuleMailKey (tw_id ok_write) (tw_generation ok_write)
        (length (run_events (int (tw_id ok_write)) (uint (tw_generation ok_write)) (cd_events cron1)) + 1)
        (of_nat j)) [0..<length (tw_outputs ok_write)]" by blast
  moreover have "run_events 1 1 (cd_events cron1) = []" by code_simp
  ultimately show ?thesis
    using run by (auto simp: ok_write_def run_write_def notice_due_def upt_conv_Cons)
qed

text \<open>
  Property C29: a failure of an active run whose latest transition was not a failure cannot be
  committed: reading the failure columns of that transition fails, nothing is logged and nobody is
  told.
\<close>

theorem failure_after_success_is_lost:
  assumes "cron_ok cj ij s" "tw_transition w = Failure f" "int (tw_id w) < 2 ^ 63"
    "list_ex (current_run (int (tw_id w)) (tw_generation w)) (sd_rows s)"
    "run_events (int (tw_id w)) (uint (tw_generation w)) (cd_events s) = es @ [e]"
    "ce_transition_kind e \<noteq> ''failure''"
  shows "commit env ij new_id w s
    = Inl (query_failed env ''failed to read prior cron failure'' (InvalidColumnType ''failure_kind''))"
proof -
  obtain row where row: "find (current_run (int (tw_id w)) (tw_generation w)) (sd_rows s) = Some row"
    using assms(4) by (cases "find (current_run (int (tw_id w)) (tw_generation w)) (sd_rows s)")
      (auto simp: find_None_iff list_ex_iff)
  have "e \<in> set (run_events (int (tw_id w)) (uint (tw_generation w)) (cd_events s))"
    using assms(5) by simp
  then have "cron_event_check e" using assms(1) by (auto simp: cron_ok_def table_ok_def list_all_iff run_events_def)
  then have "ce_failure_kind e = None" using assms(6) by (auto simp: cron_event_check_def)
  moreover have "numbered (cd_events s)" using assms(1) by (simp add: cron_ok_def)
  ultimately show ?thesis
    using assms(2,3,5) row
    by (simp add: commit_def commit_run_def checked_id_def numbered_prior)
qed

theorem failure_after_success_is_lost_witness:
  "commit env0 ij0 id late_failure cron_ok1
     = Inl (query_failed env0 ''failed to read prior cron failure'' (InvalidColumnType ''failure_kind''))"
proof (rule failure_after_success_is_lost[OF crons_ok(3)])
  show "tw_transition late_failure = Failure timeout0" "int (tw_id late_failure) < 2 ^ 63"
    by (simp_all add: late_failure_def run_write_def)
  show "list_ex (current_run (int (tw_id late_failure)) (tw_generation late_failure)) (sd_rows cron_ok1)"
    by code_simp
  show "run_events (int (tw_id late_failure)) (uint (tw_generation late_failure)) (cd_events cron_ok1)
      = [] @ [hd (cd_events cron_ok1)]" by code_simp
  show "ce_transition_kind (hd (cd_events cron_ok1)) \<noteq> ''failure''" by code_simp
qed

section \<open>Deliveries\<close>

lemma committed_intents:
  assumes ok: "cron_ok cj ij s" and w: "write_ok w" and run: "commit env ij new_id w s = Inr (s', AppliedCommit is)"
  shows "list_all (\<lambda>i. intent_ok i \<and> intent_row ij i \<in> set (cd_intents s')) is"
  using run
proof (cases rule: commit_cases)
  case (applied row)
  have num: "numbered (cd_events s)" using ok by (simp add: cron_ok_def)
  have "row \<in> set (sd_rows s)" "current_run (int (tw_id w)) (tw_generation w) row"
    using applied(3) by (auto simp: find_Some_iff in_set_conv_nth)
  then have "tw_generation w \<noteq> 0"
    using ok by (auto simp: current_run_def cron_ok_def schedule_ok_def table_ok_def list_all_iff cron_row_check_def)
  with applied(4) num show ?thesis
    using w by (elim commit_run_spec)
      (auto simp: write_ok_def dest!: lifecycle_intents_Inr(3) module_intents_Inr(4) simp: list_all_iff)
qed simp_all

text \<open>
  Property C26: the deliveries a commit asks for are read back: listing what is pending succeeds
  afterwards and offers every one of them for sending, as it was committed.
\<close>

theorem committed_deliveries_are_pending:
  assumes "cron_ok cj ij s" "intent_json_ok ij" "write_ok w"
    "commit env ij new_id w s = Inr (s', AppliedCommit is)" "length (cd_intents s') \<le> limit"
  shows "\<exists>ps. pending ij limit s' = Inr ps \<and> set (map ReadyToSend is) \<subseteq> set ps"
proof -
  have ok: "cron_ok cj ij s'" using commit_ok[OF assms(1-4)] by blast
  let ?rows = "sort_key intent_order (filter is_pending (cd_intents s'))"
  have "length ?rows \<le> limit"
    using order_trans[OF length_filter_le assms(5), of is_pending] by simp
  then have rows: "take limit ?rows = ?rows" by simp
  have "\<exists>p. decode_pending ij r = Inr p" if "r \<in> set ?rows" for r
    using ok that by (cases "decode_pending ij r") (auto simp: cron_ok_def list_all_iff delivery_ok_def)
  then obtain g where g: "decode_pending ij r = Inr (g r)" if "r \<in> set ?rows" for r by metis
  have ps: "pending ij limit s' = Inr (map g ?rows)"
    unfolding pending_def rows by (rule collectE_Inr_map) (rule g)
  have "ReadyToSend i \<in> set (map g ?rows)" if i: "i \<in> set is" for i
  proof -
    have "intent_ok i \<and> intent_row ij i \<in> set (cd_intents s')"
      using committed_intents[OF assms(1,3,4)] i by (auto simp: list_all_iff)
    then have "intent_row ij i \<in> set ?rows" "decode_pending ij (intent_row ij i) = Inr (ReadyToSend i)"
      using decode_pending_stored[OF assms(2)]
      by (auto simp: is_pending_def intent_row_def split: prod.splits)
    moreover from this have "g (intent_row ij i) = ReadyToSend i"
      using g[of "intent_row ij i"] by simp
    ultimately show ?thesis by (metis image_eqI set_map)
  qed
  then show ?thesis using ps by auto
qed

theorem committed_deliveries_are_pending_witness:
  "\<exists>s' is ps. commit env0 ij0 id failed_write cron1 = Inr (s', AppliedCommit is)
     \<and> length is = 1 \<and> pending ij0 10 s' = Inr ps \<and> set (map ReadyToSend is) \<subseteq> set ps"
proof -
  have "(case commit env0 ij0 id failed_write cron1 of
      Inr (s', AppliedCommit is) \<Rightarrow> length (cd_intents s') \<le> 10 \<and> length is = 1 | _ \<Rightarrow> False)"
    by code_simp
  then obtain s' "is" where run: "commit env0 ij0 id failed_write cron1 = Inr (s', AppliedCommit is)"
    "length (cd_intents s') \<le> 10" "length is = 1"
    by (auto split: sum.split_asm prod.split_asm CronCommitResult.split_asm)
  show ?thesis
    using committed_deliveries_are_pending[OF crons_ok(1) ij0_ok writes_ok(1) run(1,2)] run(1,3) by blast
qed



end
