(* ===== verification/Threading.thy ===== *)
theory Threading
  imports Mail_Table
begin

text \<open>
  Message threads (\<^verbatim>\<open>atm-core/src/threading.rs\<close>) and the validation of thread updates
  (\<^verbatim>\<open>atm-core/src/send/request.rs\<close>): the index over a mailbox, the loops that walk it to the
  root and to the terminal message, and the text shown for a thread.
\<close>

section \<open>The thread index\<close>

definition MAX_LOGICAL_THREAD_TEXT_BYTES :: nat where
  "MAX_LOGICAL_THREAD_TEXT_BYTES = 256 * 1024"

definition newline :: char where
  "newline = CHR 0x0A"

definition TRUNCATED_THREAD_CONTEXT_SENTINEL :: string where
  "TRUNCATED_THREAD_CONTEXT_SENTINEL = [newline, newline] @ ''[ATM thread context truncated]''"

definition canonical_sender_identity :: "MessageEnvelope \<Rightarrow> AgentName" where
  "canonical_sender_identity message = me_from message"

definition is_ephemeral :: "MessageEnvelope \<Rightarrow> bool" where
  "is_ephemeral message \<longleftrightarrow> me_expires_at message \<noteq> None"

definition is_expired_ephemeral :: "MessageEnvelope \<Rightarrow> IsoTimestamp \<Rightarrow> bool" where
  "is_expired_ephemeral message now =
     (case me_expires_at message of None \<Rightarrow> False | Some expires_at \<Rightarrow> expires_at \<le> now)"

text \<open>The index is the list of messages it is built from.  \<^verbatim>\<open>by_id\<close> keeps the message inserted
  last under an id; \<^verbatim>\<open>children\<close> keeps the order of the list.\<close>

definition thread_message :: "MessageEnvelope list \<Rightarrow> AtmMessageId \<Rightarrow> MessageEnvelope option" where
  "thread_message messages i = find (\<lambda>m. me_message_id m = Some i) (rev messages)"

definition thread_children :: "MessageEnvelope list \<Rightarrow> AtmMessageId \<Rightarrow> MessageEnvelope list" where
  "thread_children messages p = filter (\<lambda>m. me_parent_message_id m = Some p) messages"

definition successor_count :: "MessageEnvelope list \<Rightarrow> AtmMessageId \<Rightarrow> nat" where
  "successor_count messages parent_id = length (thread_children messages parent_id)"

definition has_successor :: "MessageEnvelope list \<Rightarrow> AtmMessageId \<Rightarrow> bool" where
  "has_successor messages parent_id \<longleftrightarrow> successor_count messages parent_id > 0"

text \<open>\<^verbatim>\<open>max_by\<close> returns the last of the greatest elements.\<close>

definition successor_order :: "MessageEnvelope \<Rightarrow> IsoTimestamp \<times> AtmMessageId option" where
  "successor_order m = (me_timestamp m, me_message_id m)"

definition primary_successor :: "MessageEnvelope list \<Rightarrow> AtmMessageId \<Rightarrow> MessageEnvelope option" where
  "primary_successor messages parent_id =
     (case thread_children messages parent_id of
        [] \<Rightarrow> None
      | m # ms \<Rightarrow> Some (foldl (\<lambda>best m. if successor_order best \<le> successor_order m then m else best) m ms))"

section \<open>The walks\<close>

text \<open>Each walk keeps the ids it has seen.  An id it goes on from is an id, or a parent id, of the
  mailbox that was not seen before, so the number of unseen ones falls.\<close>

definition unseen :: "'a list \<Rightarrow> 'a list \<Rightarrow> nat" where
  "unseen ids seen = length (filter (\<lambda>i. i \<notin> set seen) ids)"

lemma unseen_less: "i \<in> set ids \<Longrightarrow> i \<notin> set seen \<Longrightarrow> unseen ids (i # seen) < unseen ids seen"
proof -
  assume "i \<in> set ids" "i \<notin> set seen"
  then have "i \<in> set (filter (\<lambda>i. i \<notin> set seen) ids)" by simp
  moreover have "filter (\<lambda>j. j \<notin> set (i # seen)) ids
      = filter (\<lambda>j. j \<noteq> i) (filter (\<lambda>i. i \<notin> set seen) ids)" by (induction ids) auto
  ultimately show ?thesis
    unfolding unseen_def using length_filter_less[of i _ "\<lambda>j. j \<noteq> i"] by metis
qed

definition ids_of :: "MessageEnvelope list \<Rightarrow> AtmMessageId list" where
  "ids_of = List.map_filter me_message_id"

definition parents_of :: "MessageEnvelope list \<Rightarrow> AtmMessageId list" where
  "parents_of = List.map_filter me_parent_message_id"

lemma set_ids_of: "i \<in> set (ids_of ms) \<longleftrightarrow> (\<exists>m\<in>set ms. me_message_id m = Some i)"
  unfolding ids_of_def by (induction ms) (auto simp: List.map_filter_simps split: option.splits)

lemma set_parents_of: "p \<in> set (parents_of ms) \<longleftrightarrow> (\<exists>m\<in>set ms. me_parent_message_id m = Some p)"
  unfolding parents_of_def by (induction ms) (auto simp: List.map_filter_simps split: option.splits)

lemma thread_message_Some: "thread_message ms i = Some m \<Longrightarrow> m \<in> set ms \<and> me_message_id m = Some i"
  unfolding thread_message_def by (auto simp: find_Some_iff) (metis length_rev nth_mem set_rev)

lemma thread_message_None: "thread_message ms i = None \<longleftrightarrow> i \<notin> set (ids_of ms)"
  by (auto simp: thread_message_def find_None_iff set_ids_of)

lemma foldl_pick: "foldl (\<lambda>b m. if f b \<le> f m then m else b) m ms \<in> set (m # ms)"
  for f :: "'a \<Rightarrow> 'b::order"
proof (induction ms arbitrary: m)
  case (Cons x ms)
  show ?case using Cons[of "if f m \<le> f x then x else m"] by (auto split: if_splits)
qed simp

lemma primary_successor_Some:
  "primary_successor ms p = Some m \<Longrightarrow> m \<in> set ms \<and> me_parent_message_id m = Some p"
proof -
  assume "primary_successor ms p = Some m"
  then obtain x xs where "thread_children ms p = x # xs"
    "m = foldl (\<lambda>best m. if successor_order best \<le> successor_order m then m else best) x xs"
    by (auto simp: primary_successor_def split: list.splits)
  then have "m \<in> set (thread_children ms p)" using foldl_pick[of successor_order x xs] by simp
  then show ?thesis by (simp add: thread_children_def)
qed

function root_loop ::
  "MessageEnvelope list \<Rightarrow> AtmMessageId list \<Rightarrow> AtmMessageId \<Rightarrow> AtmMessageId option" where
  "root_loop messages seen current =
     (case thread_message messages current of
        None \<Rightarrow> None
      | Some message \<Rightarrow>
          (case me_parent_message_id message of
             None \<Rightarrow> Some current
           | Some parent_id \<Rightarrow>
               if current \<in> set seen then Some current
               else root_loop messages (current # seen) parent_id))"
  by pat_completeness auto
termination
  by (relation "measure (\<lambda>(messages, seen, current). unseen (ids_of messages) seen)")
    (auto intro!: unseen_less simp: set_ids_of dest!: thread_message_Some)

definition root_id :: "MessageEnvelope list \<Rightarrow> AtmMessageId \<Rightarrow> AtmMessageId option" where
  "root_id messages message_id = root_loop messages [] message_id"

function terminal_loop ::
  "MessageEnvelope list \<Rightarrow> AtmMessageId list \<Rightarrow> AtmMessageId \<Rightarrow> AtmMessageId option" where
  "terminal_loop messages seen current =
     (if current \<in> set seen then Some current
      else case primary_successor messages current of
        None \<Rightarrow> Some current
      | Some successor \<Rightarrow>
          (case me_message_id successor of
             None \<Rightarrow> None
           | Some next_id \<Rightarrow> terminal_loop messages (current # seen) next_id))"
  by pat_completeness auto
termination
  by (relation "measure (\<lambda>(messages, seen, current). unseen (parents_of messages) seen)")
    (auto intro!: unseen_less simp: set_parents_of dest!: primary_successor_Some)

definition terminal_id :: "MessageEnvelope list \<Rightarrow> AtmMessageId \<Rightarrow> AtmMessageId option" where
  "terminal_id messages message_id = terminal_loop messages [] message_id"

definition is_terminal :: "MessageEnvelope list \<Rightarrow> AtmMessageId \<Rightarrow> bool" where
  "is_terminal messages message_id \<longleftrightarrow> terminal_id messages message_id = Some message_id"

function chain_loop ::
  "MessageEnvelope list \<Rightarrow> AtmMessageId list \<Rightarrow> AtmMessageId \<Rightarrow> MessageEnvelope list" where
  "chain_loop messages seen message_id =
     (if message_id \<in> set seen then []
      else case thread_message messages message_id of
        None \<Rightarrow> []
      | Some message \<Rightarrow>
          message #
          (case Option.bind (primary_successor messages message_id) me_message_id of
             None \<Rightarrow> []
           | Some next_id \<Rightarrow> chain_loop messages (message_id # seen) next_id))"
  by pat_completeness auto
termination
  by (relation "measure (\<lambda>(messages, seen, current). unseen (ids_of messages) seen)")
    (auto intro!: unseen_less simp: set_ids_of dest!: thread_message_Some)

declare root_loop.simps [simp del] terminal_loop.simps [simp del] chain_loop.simps [simp del]

definition chain_messages :: "MessageEnvelope list \<Rightarrow> AtmMessageId \<Rightarrow> MessageEnvelope list" where
  "chain_messages messages message_id =
     (case root_id messages message_id of
        None \<Rightarrow> []
      | Some root \<Rightarrow> chain_loop messages [] root)"

definition thread_requires_ack :: "MessageEnvelope list \<Rightarrow> AtmMessageId \<Rightarrow> bool" where
  "thread_requires_ack messages message_id \<longleftrightarrow> list_ex me_requires_ack (chain_messages messages message_id)"

section \<open>The text of a thread\<close>

text \<open>\<^verbatim>\<open>is_char_boundary\<close>: an end of the text, or a byte that does not continue a character.\<close>

definition is_char_boundary :: "string \<Rightarrow> nat \<Rightarrow> bool" where
  "is_char_boundary s i \<longleftrightarrow>
     i = 0 \<or> i = length s \<or> (i < length s \<and> (of_char (s ! i) < (128::nat) \<or> 192 \<le> (of_char (s ! i) :: nat)))"

fun char_floor :: "string \<Rightarrow> nat \<Rightarrow> nat" where
  "char_floor s 0 = 0"
| "char_floor s (Suc n) = (if is_char_boundary s (Suc n) then Suc n else char_floor s n)"

fun join_blank :: "string list \<Rightarrow> string" where
  "join_blank [] = []"
| "join_blank [x] = x"
| "join_blank (x # y # ys) = x @ [newline, newline] @ join_blank (y # ys)"

text \<open>\<^verbatim>\<open>rposition\<close> of a superseding message, or the start of the chain.\<close>

definition context_start :: "MessageEnvelope list \<Rightarrow> nat" where
  "context_start chain =
     (case rev (filter (\<lambda>j. me_thread_mode (chain ! j) = Some Supersede) [0..<length chain]) of
        [] \<Rightarrow> 0
      | j # _ \<Rightarrow> j)"

definition composed_text :: "MessageEnvelope list \<Rightarrow> string" where
  "composed_text chain =
     join_blank (filter (\<lambda>t. t \<noteq> []) (map (\<lambda>m. trim (me_text m)) (drop (context_start chain) chain)))"

definition truncated_text :: "string \<Rightarrow> string" where
  "truncated_text t =
     (if length t > MAX_LOGICAL_THREAD_TEXT_BYTES
      then take (char_floor t (MAX_LOGICAL_THREAD_TEXT_BYTES - length TRUNCATED_THREAD_CONTEXT_SENTINEL)) t
        @ TRUNCATED_THREAD_CONTEXT_SENTINEL
      else t)"

definition logical_current_envelope :: "MessageEnvelope list \<Rightarrow> AtmMessageId \<Rightarrow> MessageEnvelope option" where
  "logical_current_envelope messages message_id =
     (case terminal_id messages message_id of
        None \<Rightarrow> None
      | Some tid \<Rightarrow>
          (case thread_message messages tid of
             None \<Rightarrow> None
           | Some terminal \<Rightarrow>
               if me_thread_mode terminal \<noteq> Some AddDetails then Some terminal
               else
                 let composed = truncated_text (composed_text (chain_messages messages tid))
                 in Some (if composed \<noteq> [] then terminal\<lparr>me_text := composed\<rparr> else terminal)))"

section \<open>Thread updates\<close>

definition validate_thread_append ::
  "(AtmMessageId \<Rightarrow> string) \<Rightarrow> MessageEnvelope \<Rightarrow> MessageEnvelope list \<Rightarrow> AtmMessageId
     \<Rightarrow> AtmError + MessageEnvelope" where
  "validate_thread_append ulid_str envelope inbox_messages parent_id =
     (case thread_message inbox_messages parent_id of
        None \<Rightarrow> Inl (err_validation (''thread parent message '' @ ulid_str parent_id
          @ '' was not found in the recipient inbox''))
      | Some parent \<Rightarrow>
          if is_ephemeral parent
          then Inl (err_validation ''ephemeral messages may not be updated or superseded'')
          else case root_id inbox_messages parent_id of
            None \<Rightarrow> Inl (err_validation (''thread root could not be resolved for parent message ''
              @ ulid_str parent_id))
          | Some rid \<Rightarrow>
              (case thread_message inbox_messages rid of
                 None \<Rightarrow> Inl (err_validation (''thread root message '' @ ulid_str rid
                   @ '' was not found in the recipient inbox''))
               | Some root \<Rightarrow>
                   if canonical_sender_identity root \<noteq> canonical_sender_identity envelope
                   then Inl (err_validation
                     ''only the original sender may append details or supersede a message thread'')
                   else if has_successor inbox_messages parent_id
                   then Inl (err_validation (''message '' @ ulid_str parent_id
                     @ '' already has a successor; ATM threads are strictly linear''))
                   else
                     let requires_ack = thread_requires_ack inbox_messages parent_id
                     in Inr (envelope\<lparr>me_requires_ack := requires_ack,
                          me_pending_ack_at := (if requires_ack then Some (me_timestamp envelope) else None),
                          me_acknowledged_at := None\<rparr>)))"

definition prepare_threaded_message ::
  "(AtmMessageId \<Rightarrow> string) \<Rightarrow> MessageEnvelope \<Rightarrow> MessageEnvelope list \<Rightarrow> AtmError + MessageEnvelope" where
  "prepare_threaded_message ulid_str envelope inbox_messages =
     (case (me_parent_message_id envelope, me_thread_mode envelope, me_expires_at envelope) of
        (None, None, _) \<Rightarrow> Inr envelope
      | (Some _, Some _, Some _) \<Rightarrow>
          Inl (err_validation ''ephemeral messages may not participate in a message thread'')
      | (Some parent_id, Some _, None) \<Rightarrow>
          validate_thread_append ulid_str envelope inbox_messages parent_id
      | _ \<Rightarrow> Inl (err_validation ''thread updates must set both parent_message_id and thread_mode''))"

end
