(* ===== verification/Thread_Lines.thy ===== *)
theory Thread_Lines
  imports Threading
begin

text \<open>
  Linear threads: the mailboxes the validation of thread updates keeps up, and what the walks of the
  thread index give on them.
\<close>

section \<open>Lineages\<close>

text \<open>A lineage leads from a message over its predecessors to the root of its thread.\<close>

fun lineage :: "MessageEnvelope list \<Rightarrow> AtmMessageId list \<Rightarrow> bool" where
  "lineage ms [] = False"
| "lineage ms [i] = (map_option me_parent_message_id (thread_message ms i) = Some None)"
| "lineage ms (i # p # is) =
     (map_option me_parent_message_id (thread_message ms i) = Some (Some p) \<and> lineage ms (p # is))"

lemma lineage_not_Nil: "lineage ms ts \<Longrightarrow> ts \<noteq> []"
  by auto

lemma lineage_suffix: "lineage ms (js @ i # is) \<Longrightarrow> lineage ms (i # is)"
proof (induction js)
  case (Cons j js)
  then show ?case by (cases "js @ i # is") auto
qed simp

lemma lineage_unique: "lineage ms (i # xs) \<Longrightarrow> lineage ms (i # ys) \<Longrightarrow> xs = ys"
proof (induction xs arbitrary: i ys)
  case Nil
  then show ?case by (cases ys) auto
next
  case (Cons x xs)
  then obtain y ys' where "ys = y # ys'" by (cases ys) auto
  with Cons show ?case by auto
qed

lemma lineage_distinct: "lineage ms ts \<Longrightarrow> distinct ts"
proof (induction ts)
  case (Cons i ts)
  show ?case
  proof (cases ts)
    case tail: (Cons p "is")
    have "i \<notin> set ts"
    proof
      assume "i \<in> set ts"
      then obtain xs ys where split: "ts = xs @ i # ys" by (meson split_list)
      have "lineage ms ((i # xs) @ i # ys)" using Cons.prems split by simp
      from lineage_suffix[OF this] have "ts = ys" using Cons.prems lineage_unique by blast
      then show False using split by simp
    qed
    then show ?thesis using Cons tail by auto
  qed simp
qed simp

lemma lineage_messages: "lineage ms ts \<Longrightarrow> i \<in> set ts \<Longrightarrow> \<exists>m. thread_message ms i = Some m"
proof (induction ms ts rule: lineage.induct)
  case (3 ms j p "is")
  then show ?case by (cases "i = j") auto
qed auto

lemma lineage_root_loop:
  "lineage ms (i # is) \<Longrightarrow> set (i # is) \<inter> set seen = {} \<Longrightarrow> root_loop ms seen i = Some (last (i # is))"
proof (induction "is" arbitrary: i seen)
  case Nil
  then show ?case by (subst root_loop.simps) auto
next
  case (Cons p "is")
  then obtain m where m: "thread_message ms i = Some m" "me_parent_message_id m = Some p" by auto
  have "distinct (i # p # is)" using Cons.prems(1) by (rule lineage_distinct)
  then have "root_loop ms (i # seen) p = Some (last (p # is))"
    using Cons.prems by (intro Cons.IH) auto
  with Cons.prems m show ?case by (subst root_loop.simps) auto
qed

lemma lineage_root_id: "lineage ms (i # is) \<Longrightarrow> root_id ms i = Some (last (i # is))"
  unfolding root_id_def by (rule lineage_root_loop) auto

section \<open>Linear mailboxes\<close>

text \<open>Ids are unique, a message in a thread has an id, a message has at most one successor, and every
  message with an id has a lineage.\<close>

definition linear_mailbox :: "MessageEnvelope list \<Rightarrow> bool" where
  "linear_mailbox ms \<longleftrightarrow>
     distinct (ids_of ms)
     \<and> (\<forall>m\<in>set ms. me_parent_message_id m \<noteq> None \<longrightarrow> me_message_id m \<noteq> None)
     \<and> (\<forall>p. successor_count ms p \<le> 1)
     \<and> (\<forall>i\<in>set (ids_of ms). \<exists>is. lineage ms (i # is))"

lemma thread_message_distinct:
  assumes "distinct (ids_of ms)" "m \<in> set ms" "me_message_id m = Some i"
  shows "thread_message ms i = Some m"
proof -
  have "i \<in> set (ids_of ms)" using assms by (auto simp: set_ids_of)
  then obtain m' where m': "thread_message ms i = Some m'" using thread_message_None by (metis option.exhaust)
  have "m' = m"
    using assms thread_message_Some[OF m']
  proof (induction ms)
    case (Cons x ms)
    then show ?case
      by (cases "me_message_id x") (auto simp: ids_of_def List.map_filter_simps set_ids_of[unfolded ids_of_def])
  qed simp
  with m' show ?thesis by simp
qed

text \<open>The only successor of a message is its primary one.\<close>

lemma linear_successor:
  assumes "linear_mailbox ms"
    "map_option me_parent_message_id (thread_message ms j) = Some (Some i)"
  shows "Option.bind (primary_successor ms i) me_message_id = Some j"
proof -
  obtain m where m: "thread_message ms j = Some m" "me_parent_message_id m = Some i" using assms(2) by auto
  then have "m \<in> set (thread_children ms i)" using thread_message_Some by (auto simp: thread_children_def)
  moreover have "length (thread_children ms i) \<le> 1"
    using assms(1) by (simp add: linear_mailbox_def successor_count_def)
  ultimately have "thread_children ms i = [m]"
    by (cases "thread_children ms i") (auto simp: le_Suc_eq)
  then show ?thesis using thread_message_Some[OF m(1)] by (simp add: primary_successor_def)
qed

lemma has_successor_iff: "has_successor ms p \<longleftrightarrow> (\<exists>m\<in>set ms. me_parent_message_id m = Some p)"
  by (auto simp: has_successor_def successor_count_def thread_children_def filter_empty_conv)

lemma no_successor: "\<not> has_successor ms i \<Longrightarrow> primary_successor ms i = None"
  by (simp add: has_successor_def successor_count_def primary_successor_def)

lemma lineage_step:
  assumes "linear_mailbox ms" "lineage ms (js @ [j] @ i # is)"
  shows "Option.bind (primary_successor ms i) me_message_id = Some j"
proof -
  have "lineage ms (j # i # is)" using assms(2) lineage_suffix[of ms js j "i # is"] by simp
  then show ?thesis using linear_successor[OF assms(1)] by simp
qed

lemma lineage_terminal_loop:
  assumes "linear_mailbox ms" "\<not> has_successor ms (hd (js @ [i]))"
  shows "lineage ms (js @ i # is) \<Longrightarrow> set (js @ [i]) \<inter> set seen = {}
    \<Longrightarrow> terminal_loop ms seen i = Some (hd (js @ [i]))"
  using assms(2)
proof (induction js arbitrary: i "is" seen rule: rev_induct)
  case Nil
  then show ?case using no_successor by (subst terminal_loop.simps) simp
next
  case (snoc j js)
  have j: "Option.bind (primary_successor ms i) me_message_id = Some j"
    using lineage_step[OF assms(1)] snoc.prems(1) by simp
  have "distinct (js @ [j] @ i # is)" using lineage_distinct[OF snoc.prems(1)] by simp
  then have "terminal_loop ms (i # seen) j = Some (hd (js @ [j]))"
    using snoc.prems by (intro snoc.IH[of j "i # is"]) (auto simp: hd_append)
  with j show ?case
    using snoc.prems(2)
    by (subst terminal_loop.simps) (auto simp: bind_eq_Some_conv hd_append)
qed

lemma lineage_chain_loop:
  assumes "linear_mailbox ms" "\<not> has_successor ms (hd (js @ [i]))"
  shows "lineage ms (js @ i # is) \<Longrightarrow> set (js @ [i]) \<inter> set seen = {}
    \<Longrightarrow> map me_message_id (chain_loop ms seen i) = map Some (i # rev js)"
  using assms(2)
proof (induction js arbitrary: i "is" seen rule: rev_induct)
  case Nil
  then obtain m where "thread_message ms i = Some m" using lineage_messages[of ms "i # is" i] by auto
  with Nil show ?case using no_successor thread_message_Some by (subst chain_loop.simps) auto
next
  case (snoc j js)
  have j: "Option.bind (primary_successor ms i) me_message_id = Some j"
    using lineage_step[OF assms(1)] snoc.prems(1) by simp
  obtain m where m: "thread_message ms i = Some m" using lineage_messages[OF snoc.prems(1), of i] by auto
  have "distinct (js @ [j] @ i # is)" using lineage_distinct[OF snoc.prems(1)] by simp
  then have "map me_message_id (chain_loop ms (i # seen) j) = map Some (j # rev js)"
    using snoc.prems by (intro snoc.IH[of j "i # is"]) (auto simp: hd_append)
  with j m show ?case
    using snoc.prems(2) thread_message_Some[OF m] by (subst chain_loop.simps) auto
qed

text \<open>A lineage is continued to the terminal message.\<close>

lemma lineage_length:
  assumes "lineage ms ts"
  shows "length ts \<le> length (ids_of ms)"
proof -
  have "set ts \<subseteq> set (ids_of ms)"
    using lineage_messages[OF assms] by (metis option.distinct(1) subsetI thread_message_None)
  then have "card (set ts) \<le> card (set (ids_of ms))" by (intro card_mono) auto
  also have "\<dots> \<le> length (ids_of ms)" by (rule card_length)
  finally show ?thesis using distinct_card[OF lineage_distinct[OF assms]] by simp
qed

lemma lineage_next:
  assumes "linear_mailbox ms" "lineage ms (i # is)" "has_successor ms i"
  shows "\<exists>j. lineage ms (j # i # is)"
proof -
  obtain m where m: "m \<in> set ms" "me_parent_message_id m = Some i"
    using assms(3) by (auto simp: has_successor_iff)
  obtain j where j: "me_message_id m = Some j" using assms(1) m by (auto simp: linear_mailbox_def)
  have "thread_message ms j = Some m"
    using thread_message_distinct[OF _ m(1) j] assms(1) by (simp add: linear_mailbox_def)
  then have "lineage ms (j # i # is)" using assms(2) m(2) by simp
  then show ?thesis ..
qed

lemma lineage_complete:
  assumes "linear_mailbox ms" "lineage ms (i # is)"
  shows "\<exists>js. lineage ms (js @ i # is) \<and> \<not> has_successor ms (hd (js @ [i]))"
  using assms(2)
proof (induction "length (ids_of ms) - length is" arbitrary: i "is" rule: less_induct)
  case less
  show ?case
  proof (cases "has_successor ms i")
    case True
    obtain j where j: "lineage ms (j # i # is)" using lineage_next[OF assms(1) less.prems True] ..
    have "length (ids_of ms) - length (i # is) < length (ids_of ms) - length is"
      using lineage_length[OF j] by simp
    from less.hyps[OF this j] obtain js
      where "lineage ms (js @ j # i # is)" "\<not> has_successor ms (hd (js @ [j]))" by blast
    then show ?thesis by (intro exI[of _ "js @ [j]"]) (cases js; simp)
  qed (use less.prems in \<open>auto intro: exI[of _ "[]"]\<close>)
qed

text \<open>The thread of a message: the lineage of its terminal message.\<close>

lemma linear_thread:
  assumes "linear_mailbox ms" "i \<in> set (ids_of ms)"
  shows "\<exists>ts. lineage ms ts \<and> i \<in> set ts \<and> \<not> has_successor ms (hd ts)
    \<and> root_id ms i = Some (last ts) \<and> terminal_id ms i = Some (hd ts)
    \<and> map me_message_id (chain_messages ms i) = map Some (rev ts)"
proof -
  obtain "is" where "lineage ms (i # is)" using assms by (auto simp: linear_mailbox_def)
  moreover from this obtain js where js: "lineage ms (js @ i # is)" "\<not> has_successor ms (hd (js @ [i]))"
    using lineage_complete[OF assms(1)] by blast
  ultimately have root: "root_id ms i = Some (last (i # is))" by (simp add: lineage_root_id)
  have "terminal_id ms i = Some (hd (js @ [i]))"
    unfolding terminal_id_def using lineage_terminal_loop[OF assms(1) js(2,1)] by simp
  moreover have "map me_message_id (chain_loop ms [] (last (i # is))) = map Some (rev (js @ i # is))"
  proof -
    let ?ks = "butlast (js @ i # is)"
    have split: "js @ i # is = ?ks @ [last (i # is)]"
      by (metis append_butlast_last_id last_append list.distinct(1) append_is_Nil_conv)
    have "hd (?ks @ [last (i # is)]) = hd (js @ [i])" using split by (metis hd_append list.sel(1) append_is_Nil_conv)
    moreover have "lineage ms (?ks @ last (i # is) # [])" using js(1) split by simp
    ultimately have "map me_message_id (chain_loop ms [] (last (i # is))) = map Some (last (i # is) # rev ?ks)"
      using lineage_chain_loop[OF assms(1), of ?ks "last (i # is)" "[]" "[]"] js(2) by simp
    also have "last (i # is) # rev ?ks = rev (js @ i # is)" by (metis split rev_append rev.simps(2) rev.simps(1) append_Cons append_Nil)
    finally show ?thesis .
  qed
  then have "map me_message_id (chain_messages ms i) = map Some (rev (js @ i # is))"
    using root by (simp add: chain_messages_def)
  ultimately show ?thesis
    using js root by (intro exI[of _ "js @ i # is"]) (auto simp: hd_append)
qed

section \<open>One terminal message per root\<close>

lemma linear_is_terminal:
  assumes "linear_mailbox ms" "i \<in> set (ids_of ms)"
  shows "is_terminal ms i \<longleftrightarrow> \<not> has_successor ms i"
proof
  assume "is_terminal ms i"
  then show "\<not> has_successor ms i" using linear_thread[OF assms] by (auto simp: is_terminal_def)
next
  assume "\<not> has_successor ms i"
  then show "is_terminal ms i"
    unfolding is_terminal_def terminal_id_def by (subst terminal_loop.simps) (simp add: no_successor)
qed

definition is_root :: "MessageEnvelope list \<Rightarrow> AtmMessageId \<Rightarrow> bool" where
  "is_root ms i \<longleftrightarrow> map_option me_parent_message_id (thread_message ms i) = Some None"

lemma lineage_last: "lineage ms ts \<Longrightarrow> is_root ms (last ts)"
  by (induction ms ts rule: lineage.induct) (auto simp: is_root_def)

lemma root_id_root: "is_root ms r \<Longrightarrow> root_id ms r = Some r"
  unfolding root_id_def is_root_def by (subst root_loop.simps) auto

lemma root_terminal_bij:
  assumes "linear_mailbox ms"
  shows "bij_betw (\<lambda>i. the (root_id ms i)) {i \<in> set (ids_of ms). is_terminal ms i} {r \<in> set (ids_of ms). is_root ms r}"
proof (rule bij_betw_imageI)
  note thread = linear_thread[OF assms]
  show "inj_on (\<lambda>i. the (root_id ms i)) {i \<in> set (ids_of ms). is_terminal ms i}"
  proof (rule inj_onI)
    fix i j assume i: "i \<in> {i \<in> set (ids_of ms). is_terminal ms i}" and j: "j \<in> {i \<in> set (ids_of ms). is_terminal ms i}"
      and root: "the (root_id ms i) = the (root_id ms j)"
    obtain ts where ts: "root_id ms i = Some (last ts)" "terminal_id ms i = Some (hd ts)"
      "map me_message_id (chain_messages ms i) = map Some (rev ts)" using thread[of i] i by blast
    obtain us where us: "root_id ms j = Some (last us)" "terminal_id ms j = Some (hd us)"
      "map me_message_id (chain_messages ms j) = map Some (rev us)" using thread[of j] j by blast
    have "chain_messages ms i = chain_messages ms j"
      using ts(1) us(1) root by (simp add: chain_messages_def)
    then have "map Some (rev ts) = map Some (rev us)" using ts(3) us(3) by metis
    then have "ts = us" by (simp add: inj_map_eq_map)
    then show "i = j" using i j ts(2) us(2) by (simp add: is_terminal_def)
  qed
  show "(\<lambda>i. the (root_id ms i)) ` {i \<in> set (ids_of ms). is_terminal ms i} = {r \<in> set (ids_of ms). is_root ms r}"
  proof (intro equalityI subsetI)
    fix r assume "r \<in> (\<lambda>i. the (root_id ms i)) ` {i \<in> set (ids_of ms). is_terminal ms i}"
    then obtain i ts where "i \<in> set (ids_of ms)" "lineage ms ts" "r = last ts" using thread by (metis (mono_tags, lifting) imageE mem_Collect_eq option.sel)
    then show "r \<in> {r \<in> set (ids_of ms). is_root ms r}"
      using lineage_last[of ms ts] thread_message_None[of ms r] by (auto simp: is_root_def)
  next
    fix r assume r: "r \<in> {r \<in> set (ids_of ms). is_root ms r}"
    then obtain ts where ts: "lineage ms ts" "\<not> has_successor ms (hd ts)" "root_id ms r = Some (last ts)"
      using thread[of r] by blast
    have hd: "hd ts \<in> set ts" using lineage_not_Nil[OF ts(1)] by simp
    then have "hd ts \<in> set (ids_of ms)"
      using lineage_messages[OF ts(1)] by (metis option.distinct(1) thread_message_None)
    moreover have "root_id ms (hd ts) = Some (last ts)"
      using lineage_root_id[of ms "hd ts" "tl ts"] ts(1) lineage_not_Nil[OF ts(1)] by simp
    moreover have "r = last ts" using r root_id_root ts(3) by auto
    ultimately show "r \<in> (\<lambda>i. the (root_id ms i)) ` {i \<in> set (ids_of ms). is_terminal ms i}"
      using linear_is_terminal[OF assms] ts(2) by (intro image_eqI[of _ _ "hd ts"]) auto
  qed
qed

lemma count_by_id:
  "distinct (ids_of ms) \<Longrightarrow>
   length (filter (\<lambda>m. case me_message_id m of None \<Rightarrow> True | Some i \<Rightarrow> Q i) ms)
     = length (filter (\<lambda>m. me_message_id m = None) ms) + card {i \<in> set (ids_of ms). Q i}"
proof (induction ms)
  case (Cons m ms)
  show ?case
  proof (cases "me_message_id m")
    case None
    then show ?thesis using Cons by (simp add: ids_of_def List.map_filter_simps)
  next
    case (Some i)
    then have ids: "ids_of (m # ms) = i # ids_of ms" by (simp add: ids_of_def List.map_filter_simps)
    have "{k \<in> set (ids_of (m # ms)). Q k} = (if Q i then insert i {k \<in> set (ids_of ms). Q k} else {k \<in> set (ids_of ms). Q k})"
      by (auto simp: ids)
    then show ?thesis using Cons Some by (simp add: ids)
  qed
qed (simp add: ids_of_def List.map_filter_simps)

text \<open>The messages no successor replaces are as many as the messages that start a thread.\<close>

lemma one_terminal_per_root:
  assumes "linear_mailbox ms"
  shows "length (filter (\<lambda>m. case me_message_id m of None \<Rightarrow> True | Some i \<Rightarrow> is_terminal ms i) ms)
    = length (filter (\<lambda>m. me_parent_message_id m = None) ms)"
proof -
  have d: "distinct (ids_of ms)" using assms by (simp add: linear_mailbox_def)
  have "me_parent_message_id m = None \<longleftrightarrow> (case me_message_id m of None \<Rightarrow> True | Some i \<Rightarrow> is_root ms i)"
    if "m \<in> set ms" for m
    using that assms thread_message_distinct[OF d that]
    by (auto simp: is_root_def linear_mailbox_def split: option.split)
  then have "filter (\<lambda>m. me_parent_message_id m = None) ms
      = filter (\<lambda>m. case me_message_id m of None \<Rightarrow> True | Some i \<Rightarrow> is_root ms i) ms"
    by (rule filter_cong[OF refl])
  moreover have "card {i \<in> set (ids_of ms). is_terminal ms i} = card {r \<in> set (ids_of ms). is_root ms r}"
    using root_terminal_bij[OF assms] by (rule bij_betw_same_card)
  ultimately show ?thesis by (simp add: count_by_id[OF d])
qed

section \<open>Thread updates keep threads linear\<close>

lemma thread_message_snoc:
  "thread_message (ms @ [e]) i = (if me_message_id e = Some i then Some e else thread_message ms i)"
  by (simp add: thread_message_def)

lemma ids_of_snoc: "ids_of (ms @ [e]) = ids_of ms @ (case me_message_id e of None \<Rightarrow> [] | Some i \<Rightarrow> [i])"
  by (induction ms) (auto simp: ids_of_def List.map_filter_simps split: option.splits)

lemma successor_count_snoc:
  "successor_count (ms @ [e]) p = successor_count ms p + (if me_parent_message_id e = Some p then 1 else 0)"
  by (simp add: successor_count_def thread_children_def)

definition fresh_message :: "MessageEnvelope \<Rightarrow> MessageEnvelope list \<Rightarrow> bool" where
  "fresh_message e ms \<longleftrightarrow> (\<exists>i. me_message_id e = Some i \<and> i \<notin> set (ids_of ms))"

lemma lineage_snoc: "lineage ms ts \<Longrightarrow> fresh_message e ms \<Longrightarrow> lineage (ms @ [e]) ts"
proof (induction ms ts rule: lineage.induct)
  case (2 ms i)
  then show ?case using thread_message_None[of ms i] by (auto simp: thread_message_snoc fresh_message_def)
next
  case (3 ms i p "is")
  then show ?case using thread_message_None[of ms i] by (auto simp: thread_message_snoc fresh_message_def)
qed simp

lemma linear_append:
  assumes ms: "linear_mailbox ms" and e: "fresh_message e ms"
    and parent: "\<And>p. me_parent_message_id e = Some p \<Longrightarrow> p \<in> set (ids_of ms) \<and> \<not> has_successor ms p"
  shows "linear_mailbox (ms @ [e])"
proof -
  obtain j where j: "me_message_id e = Some j" "j \<notin> set (ids_of ms)" using e by (auto simp: fresh_message_def)
  have "\<exists>is. lineage (ms @ [e]) (j # is)"
  proof (cases "me_parent_message_id e")
    case None
    then show ?thesis using j by (intro exI[of _ "[]"]) (simp add: thread_message_snoc)
  next
    case (Some p)
    then obtain "is" where "lineage ms (p # is)" using parent ms by (auto simp: linear_mailbox_def)
    then have "lineage (ms @ [e]) (j # p # is)"
      using lineage_snoc[OF _ e] j Some by (auto simp: thread_message_snoc)
    then show ?thesis ..
  qed
  moreover have "successor_count (ms @ [e]) p \<le> 1" for p
    using ms parent[of p] by (auto simp: successor_count_snoc linear_mailbox_def has_successor_def)
  moreover have "\<exists>is. lineage (ms @ [e]) (i # is)" if "i \<in> set (ids_of ms)" for i
    using ms that lineage_snoc[OF _ e] by (meson linear_mailbox_def)
  ultimately show ?thesis using ms j by (auto simp: linear_mailbox_def ids_of_snoc)
qed

text \<open>A thread needs acknowledgement when its root does.\<close>

definition ack_inherited :: "MessageEnvelope list \<Rightarrow> bool" where
  "ack_inherited ms \<longleftrightarrow>
     (\<forall>m\<in>set ms. \<forall>p m'. me_parent_message_id m = Some p \<longrightarrow> thread_message ms p = Some m'
        \<longrightarrow> me_requires_ack m = me_requires_ack m')"

lemma lineage_ack:
  assumes "ack_inherited ms"
  shows "lineage ms ts \<Longrightarrow> i \<in> set ts \<Longrightarrow>
    map_option me_requires_ack (thread_message ms i) = map_option me_requires_ack (thread_message ms (last ts))"
proof (induction ts arbitrary: i)
  case (Cons j ts)
  show ?case
  proof (cases ts)
    case tail: (Cons p "is")
    obtain m where m: "thread_message ms j = Some m" "me_parent_message_id m = Some p"
      using Cons.prems(1) tail by auto
    obtain m' where m': "thread_message ms p = Some m'"
      using lineage_messages[OF Cons.prems(1), of p] tail by auto
    have "me_requires_ack m = me_requires_ack m'"
      using assms m m' thread_message_Some[OF m(1)] unfolding ack_inherited_def by blast
    then have "map_option me_requires_ack (thread_message ms j) = map_option me_requires_ack (thread_message ms p)"
      using m(1) m' by simp
    moreover have "map_option me_requires_ack (thread_message ms p) = map_option me_requires_ack (thread_message ms (last ts))"
      using Cons.IH[of p] Cons.prems(1) tail by simp
    moreover have "i \<noteq> j \<Longrightarrow> map_option me_requires_ack (thread_message ms i) = map_option me_requires_ack (thread_message ms (last ts))"
      using Cons.IH[of i] Cons.prems tail by simp
    moreover have "last (j # ts) = last ts" using tail by simp
    ultimately show ?thesis by metis
  qed (use Cons.prems in simp)
qed simp

lemma chain_loop_messages:
  "m \<in> set (chain_loop ms seen r) \<Longrightarrow> \<exists>k. me_message_id m = Some k \<and> thread_message ms k = Some m"
proof (induction ms seen r rule: chain_loop.induct)
  case (1 ms seen r)
  from "1.prems" consider "thread_message ms r = Some m"
    | x k where "r \<notin> set seen" "thread_message ms r = Some x"
        "Option.bind (primary_successor ms r) me_message_id = Some k" "m \<in> set (chain_loop ms (r # seen) k)"
    unfolding chain_loop.simps[of ms seen r] by (auto split: if_split_asm option.split_asm) metis
  then show ?case by cases (use "1.IH" thread_message_Some in blast)+
qed

lemma linear_requires_ack:
  assumes "linear_mailbox ms" "ack_inherited ms" "thread_message ms p = Some m"
  shows "thread_requires_ack ms p = me_requires_ack m"
proof -
  have "p \<in> set (ids_of ms)" using assms(3) thread_message_None by (metis option.distinct(1))
  then obtain ts where ts: "lineage ms ts" "p \<in> set ts"
    "map me_message_id (chain_messages ms p) = map Some (rev ts)" using linear_thread[OF assms(1)] by blast
  have same: "me_requires_ack m' = me_requires_ack m" if mem: "m' \<in> set (chain_messages ms p)" for m'
  proof -
    obtain k where k: "me_message_id m' = Some k" "thread_message ms k = Some m'"
      using mem chain_loop_messages by (fastforce simp: chain_messages_def split: option.split_asm)
    have "Some k \<in> set (map me_message_id (chain_messages ms p))" using mem k(1) by force
    then have "k \<in> set ts" unfolding ts(3) by auto
    then show ?thesis using lineage_ack[OF assms(2) ts(1)] ts(2) k(2) assms(3) by (metis option.map(2) option.inject)
  qed
  have "length (chain_messages ms p) = length ts" using ts(3) by (metis length_map length_rev)
  then have "chain_messages ms p \<noteq> []" using ts(2) by auto
  then show ?thesis using same by (auto simp: thread_requires_ack_def list_ex_iff) (metis list.set_intros(1) neq_Nil_conv)
qed

lemma linear_parent:
  assumes "linear_mailbox ms" "m \<in> set ms" "me_parent_message_id m = Some p"
  shows "p \<in> set (ids_of ms)"
proof -
  obtain i where i: "me_message_id m = Some i" using assms by (auto simp: linear_mailbox_def)
  then have "i \<in> set (ids_of ms)" using assms(2) by (auto simp: set_ids_of)
  then obtain "is" where line: "lineage ms (i # is)" using assms(1) by (auto simp: linear_mailbox_def)
  have "thread_message ms i = Some m"
    using thread_message_distinct[OF _ assms(2) i] assms(1) by (simp add: linear_mailbox_def)
  then obtain ps where "is = p # ps" using line assms(3) by (cases "is") auto
  then have "\<exists>m. thread_message ms p = Some m" using lineage_messages[OF line] by simp
  then show ?thesis using thread_message_None by (metis option.distinct(1))
qed

lemma ack_inherited_append:
  assumes ms: "linear_mailbox ms" "ack_inherited ms" "fresh_message e ms"
    and parent: "\<And>p. me_parent_message_id e = Some p \<Longrightarrow>
      \<exists>m. thread_message ms p = Some m \<and> me_requires_ack e = me_requires_ack m"
  shows "ack_inherited (ms @ [e])"
proof -
  obtain j where j: "me_message_id e = Some j" "j \<notin> set (ids_of ms)" using ms(3) by (auto simp: fresh_message_def)
  have "j \<noteq> p" if p: "me_parent_message_id m = Some p" "m \<in> set (ms @ [e])" for m p
  proof (cases "m \<in> set ms")
    case True
    then show ?thesis using linear_parent[OF ms(1) _ p(1)] j(2) by auto
  next
    case False
    then have "me_parent_message_id e = Some p" using p by simp
    then have "thread_message ms p \<noteq> None" using parent by fastforce
    then show ?thesis using j(2) thread_message_None by auto
  qed
  then show ?thesis
    using ms(2) parent j(1) unfolding ack_inherited_def
    by (auto simp: thread_message_snoc split: if_splits)
qed

text \<open>An accepted update keeps threads linear and inherits the need for acknowledgement.\<close>

lemma prepare_threaded_Inr:
  assumes "prepare_threaded_message ulid_str e ms = Inr e'"
  shows "me_message_id e' = me_message_id e" "me_parent_message_id e' = me_parent_message_id e"
    "me_parent_message_id e = Some p \<Longrightarrow> p \<in> set (ids_of ms) \<and> \<not> has_successor ms p
       \<and> me_requires_ack e' = thread_requires_ack ms p"
    "me_parent_message_id e = None \<Longrightarrow> e' = e"
  using assms thread_message_None[of ms p]
  by (auto simp: prepare_threaded_message_def validate_thread_append_def Let_def split: option.splits if_splits)

lemma prepare_keeps_linear:
  assumes "linear_mailbox ms" "ack_inherited ms" "fresh_message e ms"
    "prepare_threaded_message ulid_str e ms = Inr e'"
  shows "linear_mailbox (ms @ [e']) \<and> ack_inherited (ms @ [e'])"
proof -
  note e' = prepare_threaded_Inr[OF assms(4)]
  have fresh: "fresh_message e' ms" using assms(3) e'(1) by (simp add: fresh_message_def)
  have "\<exists>m. thread_message ms p = Some m \<and> me_requires_ack e' = me_requires_ack m"
    if "me_parent_message_id e' = Some p" for p
    using e'(2) e'(3)[of p] that linear_requires_ack[OF assms(1,2)] thread_message_None[of ms p]
    by (cases "thread_message ms p") auto
  then have "ack_inherited (ms @ [e'])" using ack_inherited_append[OF assms(1,2) fresh] by blast
  moreover have "linear_mailbox (ms @ [e'])" using linear_append[OF assms(1) fresh] e'(2,3) by simp
  ultimately show ?thesis by blast
qed

section \<open>The text shown for a thread\<close>

lemma char_floor_le: "char_floor s n \<le> n"
  by (induction n) auto

lemma char_floor_boundary: "is_char_boundary s (char_floor s n)"
  by (induction n) (auto simp: is_char_boundary_def)

lemma sentinel_fits: "length TRUNCATED_THREAD_CONTEXT_SENTINEL \<le> MAX_LOGICAL_THREAD_TEXT_BYTES"
  by (simp add: TRUNCATED_THREAD_CONTEXT_SENTINEL_def MAX_LOGICAL_THREAD_TEXT_BYTES_def)

lemma truncated_text_length: "length (truncated_text t) \<le> MAX_LOGICAL_THREAD_TEXT_BYTES"
  using sentinel_fits char_floor_le[of t "MAX_LOGICAL_THREAD_TEXT_BYTES - length TRUNCATED_THREAD_CONTEXT_SENTINEL"]
  unfolding truncated_text_def by (auto simp: min_def)

lemma truncated_text_Nil: "truncated_text t = [] \<longleftrightarrow> t = []"
  by (auto simp: truncated_text_def TRUNCATED_THREAD_CONTEXT_SENTINEL_def)

lemma join_blank_Nil: "[] \<notin> set xs \<Longrightarrow> join_blank xs = [] \<longleftrightarrow> xs = []"
  by (induction xs rule: join_blank.induct) auto

lemma context_start_less:
  assumes "chain \<noteq> []"
  shows "context_start chain < length chain"
proof -
  define js where "js = rev (filter (\<lambda>j. me_thread_mode (chain ! j) = Some Supersede) [0..<length chain])"
  have "j < length chain" if "j \<in> set js" for j using that by (simp add: js_def)
  moreover have "context_start chain = (case js of [] \<Rightarrow> 0 | j # _ \<Rightarrow> j)"
    unfolding context_start_def js_def ..
  ultimately show ?thesis using assms by (cases js) auto
qed

lemma composed_text_Nil:
  assumes "chain \<noteq> []" "composed_text chain = []"
  shows "trim (me_text (last chain)) = []"
proof -
  have "filter (\<lambda>t. t \<noteq> []) (map (\<lambda>m. trim (me_text m)) (drop (context_start chain) chain)) = []"
    using assms(2) unfolding composed_text_def by (subst (asm) join_blank_Nil) simp_all
  then have "trim (me_text m) = []" if "m \<in> set (drop (context_start chain) chain)" for m
    using that by (auto simp: filter_empty_conv)
  moreover have "last chain \<in> set (drop (context_start chain) chain)"
    using context_start_less[OF assms(1)] last_drop[of "context_start chain" chain]
      last_in_set[of "drop (context_start chain) chain"] by simp
  ultimately show ?thesis by blast
qed

text \<open>On a linear mailbox the envelope shown is that of the last message of the thread; when that
  message adds details its text is the context of the thread, cut at the bound.\<close>

lemma linear_logical_current:
  assumes "linear_mailbox ms" "i \<in> set (ids_of ms)"
  shows "logical_current_envelope ms i =
    (let chain = chain_messages ms i; t = truncated_text (composed_text chain)
     in Some (if me_thread_mode (last chain) = Some AddDetails \<and> t \<noteq> []
        then (last chain)\<lparr>me_text := t\<rparr> else last chain))"
proof -
  obtain ts where ts: "lineage ms ts" "root_id ms i = Some (last ts)" "terminal_id ms i = Some (hd ts)"
    "map me_message_id (chain_messages ms i) = map Some (rev ts)" using linear_thread[OF assms] by blast
  have ne: "ts \<noteq> []" using ts(1) lineage_not_Nil by blast
  have "root_id ms (hd ts) = Some (last ts)"
    using lineage_root_id[of ms "hd ts" "tl ts"] ts(1) ne by simp
  then have same: "chain_messages ms (hd ts) = chain_messages ms i" using ts(2) by (simp add: chain_messages_def)
  have chain: "chain_messages ms i \<noteq> []" using ts(4) ne by auto
  have "last (map me_message_id (chain_messages ms i)) = last (map Some (rev ts))" using ts(4) by simp
  then have "me_message_id (last (chain_messages ms i)) = Some (hd ts)"
    using chain ne by (simp add: last_map last_rev)
  moreover have "last (chain_messages ms i) \<in> set (chain_loop ms [] (last ts))"
    using chain ts(2) by (simp add: chain_messages_def)
  ultimately have "thread_message ms (hd ts) = Some (last (chain_messages ms i))"
    using chain_loop_messages[of "last (chain_messages ms i)" ms "[]" "last ts"] by (metis option.inject)
  then show ?thesis using ts(3) same by (simp add: logical_current_envelope_def Let_def)
qed

end
