(* ===== verification/Selection.thy ===== *)
theory Selection
  imports Thread_Lines
begin

text \<open>
  Mailbox selection (\<^verbatim>\<open>atm-core/src/read/state.rs\<close>, \<^verbatim>\<open>filters.rs\<close> and \<^verbatim>\<open>selection.rs\<close>):
  classifying messages, collapsing threads to their current message, counting and filtering.  The
  clock is one value \<^verbatim>\<open>now\<close> for a whole selection.
\<close>

section \<open>Message states\<close>

datatype ReadState = UnreadState | ReadState

datatype AckState = NoAckRequired | PendingAckState | AcknowledgedState

datatype MessageClass = UnreadClass | PendingAckClass | AcknowledgedClass | ReadClass

datatype DisplayBucket = UnreadBucket | PendingAckBucket | HistoryBucket

datatype ReadSelection = SelectActionable | SelectUnread | SelectPendingAck | SelectAll

definition derive_read_state :: "MessageEnvelope \<Rightarrow> ReadState" where
  "derive_read_state message = (if me_read message then ReadState else UnreadState)"

definition derive_ack_state :: "MessageEnvelope \<Rightarrow> AckState" where
  "derive_ack_state message =
     (case derive_ack_requirement message of
        NotRequired \<Rightarrow> NoAckRequired
      | RequiredPending \<Rightarrow> PendingAckState
      | RequiredAcknowledged \<Rightarrow> AcknowledgedState)"

text \<open>The assertion against unread acknowledged messages is checked in debug builds only.\<close>

definition classify_message :: "MessageEnvelope \<Rightarrow> MessageClass" where
  "classify_message message =
     (case (derive_read_state message, derive_ack_state message) of
        (UnreadState, NoAckRequired) \<Rightarrow> UnreadClass
      | (UnreadState, PendingAckState) \<Rightarrow> PendingAckClass
      | (UnreadState, AcknowledgedState) \<Rightarrow> AcknowledgedClass
      | (ReadState, NoAckRequired) \<Rightarrow> ReadClass
      | (ReadState, PendingAckState) \<Rightarrow> PendingAckClass
      | (ReadState, AcknowledgedState) \<Rightarrow> AcknowledgedClass)"

definition display_bucket_for_class :: "MessageClass \<Rightarrow> DisplayBucket" where
  "display_bucket_for_class c =
     (case c of
        UnreadClass \<Rightarrow> UnreadBucket
      | PendingAckClass \<Rightarrow> PendingAckBucket
      | AcknowledgedClass \<Rightarrow> HistoryBucket
      | ReadClass \<Rightarrow> HistoryBucket)"

section \<open>Requests and results\<close>

datatype ParticipantDirection = DirectionFrom | DirectionTo | DirectionEither

record MessageParticipantFilter =
  pf_agent :: AgentName
  pf_chat_id :: "ChatId option"
  pf_direction :: ParticipantDirection

record MailboxSelectionRequest =
  rq_selection_mode :: ReadSelection
  rq_seen_watermark :: "IsoTimestamp option"
  rq_message_id_filter :: "AtmMessageId option"
  rq_sender_filter :: "AgentName option"
  rq_participant_filter :: "MessageParticipantFilter option"
  rq_timestamp_filter :: "IsoTimestamp option"
  rq_task_filter :: "TaskId option"
  rq_contains_filter :: "string option"

definition default_request :: MailboxSelectionRequest where
  "default_request =
     \<lparr>rq_selection_mode = SelectUnread, rq_seen_watermark = None, rq_message_id_filter = None,
      rq_sender_filter = None, rq_participant_filter = None, rq_timestamp_filter = None,
      rq_task_filter = None, rq_contains_filter = None\<rparr>"

record MailboxSelectionCandidate =
  ca_message_key :: string
  ca_envelope :: MessageEnvelope

record ClassifiedMessage =
  cm_source_index :: nat
  cm_source_path :: string
  cm_bucket :: DisplayBucket
  cm_class :: MessageClass
  cm_envelope :: MessageEnvelope

record SelectedMailboxMessage =
  sm_message_key :: string
  sm_bucket :: DisplayBucket
  sm_class :: MessageClass
  sm_envelope :: MessageEnvelope

record BucketCounts =
  bc_unread :: nat
  bc_pending_ack :: nat
  bc_history :: nat

record MailboxSelectionResult =
  sr_bucket_counts :: BucketCounts
  sr_selected :: "SelectedMailboxMessage list"

section \<open>Filters\<close>

text \<open>\<^verbatim>\<open>eq_ignore_ascii_case\<close> compares after mapping the letters A to Z to a to z.\<close>

definition ascii_lower :: "char \<Rightarrow> char" where
  "ascii_lower c = (if (of_char c :: nat) \<in> {65..90} then char_of ((of_char c :: nat) + 32) else c)"

definition eq_ignore_ascii_case :: "string \<Rightarrow> string \<Rightarrow> bool" where
  "eq_ignore_ascii_case a b \<longleftrightarrow> map ascii_lower a = map ascii_lower b"

definition text_contains_needle :: "string option \<Rightarrow> string \<Rightarrow> bool" where
  "text_contains_needle value needle \<longleftrightarrow>
     needle = [] \<or>
     (case value of
        None \<Rightarrow> False
      | Some v \<Rightarrow> list_ex (\<lambda>k. eq_ignore_ascii_case (take (length needle) (drop k v)) needle)
          [0..<length v + 1 - length needle])"

definition apply_sender_filter :: "AgentName option \<Rightarrow> ClassifiedMessage list \<Rightarrow> ClassifiedMessage list" where
  "apply_sender_filter sender messages =
     (case sender of
        Some s \<Rightarrow> filter (\<lambda>m. me_from (cm_envelope m) = s) messages
      | None \<Rightarrow> messages)"

definition matches_participant_filter :: "MessageParticipantFilter option \<Rightarrow> ClassifiedMessage \<Rightarrow> bool" where
  "matches_participant_filter participant message =
     (case participant of
        None \<Rightarrow> True
      | Some p \<Rightarrow>
          let source_matches = me_from (cm_envelope message) = pf_agent p
                \<and> me_source_chat_id (cm_envelope message) = pf_chat_id p;
              destination_matches = me_destination_chat_id (cm_envelope message) = pf_chat_id p
          in case pf_direction p of
               DirectionFrom \<Rightarrow> source_matches
             | DirectionTo \<Rightarrow> destination_matches
             | DirectionEither \<Rightarrow> source_matches \<or> destination_matches)"

definition apply_participant_filter ::
  "MessageParticipantFilter option \<Rightarrow> ClassifiedMessage list \<Rightarrow> ClassifiedMessage list" where
  "apply_participant_filter participant messages =
     (case participant of
        Some p \<Rightarrow> filter (matches_participant_filter (Some p)) messages
      | None \<Rightarrow> messages)"

definition apply_timestamp_filter ::
  "IsoTimestamp option \<Rightarrow> ClassifiedMessage list \<Rightarrow> ClassifiedMessage list" where
  "apply_timestamp_filter since messages =
     (case since of
        Some s \<Rightarrow> filter (\<lambda>m. me_timestamp (cm_envelope m) \<ge> s) messages
      | None \<Rightarrow> messages)"

definition apply_task_filter :: "TaskId option \<Rightarrow> ClassifiedMessage list \<Rightarrow> ClassifiedMessage list" where
  "apply_task_filter task_id messages =
     (case task_id of
        Some t \<Rightarrow> filter (\<lambda>m. me_task_id (cm_envelope m) = Some t) messages
      | None \<Rightarrow> messages)"

definition selected_by :: "ReadSelection \<Rightarrow> DisplayBucket \<Rightarrow> bool" where
  "selected_by mode bucket =
     (case mode of
        SelectActionable \<Rightarrow> bucket = UnreadBucket \<or> bucket = PendingAckBucket
      | SelectUnread \<Rightarrow> bucket = UnreadBucket
      | SelectPendingAck \<Rightarrow> bucket = PendingAckBucket
      | SelectAll \<Rightarrow> True)"

definition apply_selection_mode :: "ReadSelection \<Rightarrow> ClassifiedMessage list \<Rightarrow> ClassifiedMessage list" where
  "apply_selection_mode mode messages = filter (\<lambda>m. selected_by mode (cm_bucket m)) messages"

section \<open>Selection\<close>

definition effective_display_envelope :: "MessageEnvelope list \<Rightarrow> MessageEnvelope \<Rightarrow> MessageEnvelope" where
  "effective_display_envelope thread_index envelope =
     (case me_message_id envelope of
        None \<Rightarrow> envelope
      | Some message_id \<Rightarrow>
          if is_terminal thread_index message_id then envelope
          else envelope\<lparr>me_read := True, me_pending_ack_at := None\<rparr>)"

definition hidden_from_normal_views :: "IsoTimestamp \<Rightarrow> MessageEnvelope \<Rightarrow> bool" where
  "hidden_from_normal_views now envelope \<longleftrightarrow>
     is_expired_ephemeral envelope now \<or> (is_ephemeral envelope \<and> me_read envelope)"

definition hidden_for_selection :: "IsoTimestamp \<Rightarrow> MessageEnvelope \<Rightarrow> ReadSelection \<Rightarrow> bool" where
  "hidden_for_selection now envelope selection_mode =
     (if is_expired_ephemeral envelope now then True
      else selection_mode \<noteq> SelectAll \<and> is_ephemeral envelope \<and> me_read envelope)"

definition classified :: "MessageEnvelope list \<Rightarrow> nat \<Rightarrow> MailboxSelectionCandidate \<Rightarrow> ClassifiedMessage" where
  "classified thread_index index candidate =
     (let envelope = effective_display_envelope thread_index (ca_envelope candidate);
          c = classify_message envelope
      in \<lparr>cm_source_index = index, cm_source_path = ca_message_key candidate,
          cm_bucket = display_bucket_for_class c, cm_class = c, cm_envelope = envelope\<rparr>)"

definition classify_candidates :: "MailboxSelectionCandidate list \<Rightarrow> ClassifiedMessage list" where
  "classify_candidates candidates =
     map2 (classified (map ca_envelope candidates)) [0..<length candidates] candidates"

definition message_matches_contains :: "string option \<Rightarrow> ClassifiedMessage \<Rightarrow> bool" where
  "message_matches_contains needle message =
     (case needle of
        None \<Rightarrow> True
      | Some value \<Rightarrow> text_contains_needle (Some (me_text (cm_envelope message))) value)"

definition logical_current_messages :: "ClassifiedMessage list \<Rightarrow> ClassifiedMessage list" where
  "logical_current_messages messages =
     (let projected = map cm_envelope messages in
      map (\<lambda>m. case me_message_id (cm_envelope m) of
                 None \<Rightarrow> m
               | Some message_id \<Rightarrow>
                   (case logical_current_envelope projected message_id of
                      None \<Rightarrow> m
                    | Some logical \<Rightarrow> m\<lparr>cm_envelope := logical\<rparr>))
        (filter (\<lambda>m. case me_message_id (cm_envelope m) of
                       None \<Rightarrow> True
                     | Some message_id \<Rightarrow> is_terminal projected message_id) messages))"

definition count_message :: "IsoTimestamp \<Rightarrow> BucketCounts \<Rightarrow> ClassifiedMessage \<Rightarrow> BucketCounts" where
  "count_message now counts message =
     (if hidden_from_normal_views now (cm_envelope message) then counts
      else case cm_bucket message of
        UnreadBucket \<Rightarrow> counts\<lparr>bc_unread := bc_unread counts + 1\<rparr>
      | PendingAckBucket \<Rightarrow> counts\<lparr>bc_pending_ack := bc_pending_ack counts + 1\<rparr>
      | HistoryBucket \<Rightarrow> counts\<lparr>bc_history := bc_history counts + 1\<rparr>)"

definition bucket_counts_for :: "IsoTimestamp \<Rightarrow> ClassifiedMessage list \<Rightarrow> BucketCounts" where
  "bucket_counts_for now messages =
     foldl (count_message now) \<lparr>bc_unread = 0, bc_pending_ack = 0, bc_history = 0\<rparr> messages"

definition select_classified_mailbox_candidates ::
  "IsoTimestamp \<Rightarrow> MailboxSelectionRequest \<Rightarrow> MailboxSelectionCandidate list
     \<Rightarrow> BucketCounts \<times> ClassifiedMessage list" where
  "select_classified_mailbox_candidates now request candidates =
     (let classified_all = classify_candidates candidates;
          logical_current = logical_current_messages classified_all;
          bucket_counts = bucket_counts_for now logical_current
      in case rq_message_id_filter request of
           Some message_id \<Rightarrow>
             (bucket_counts,
              filter (\<lambda>m. me_message_id (cm_envelope m) = Some message_id
                  \<and> matches_participant_filter (rq_participant_filter request) m
                  \<and> message_matches_contains (rq_contains_filter request) m) classified_all)
         | None \<Rightarrow>
             (bucket_counts,
              apply_selection_mode (rq_selection_mode request)
                (filter (\<lambda>m. \<not> hidden_for_selection now (cm_envelope m) (rq_selection_mode request)
                    \<and> message_matches_contains (rq_contains_filter request) m)
                  (apply_task_filter (rq_task_filter request)
                    (apply_timestamp_filter (rq_timestamp_filter request)
                      (apply_participant_filter (rq_participant_filter request)
                        (apply_sender_filter (rq_sender_filter request) logical_current)))))))"

definition selected_message :: "ClassifiedMessage \<Rightarrow> SelectedMailboxMessage" where
  "selected_message m =
     \<lparr>sm_message_key = cm_source_path m, sm_bucket = cm_bucket m, sm_class = cm_class m,
      sm_envelope = cm_envelope m\<rparr>"

definition select_mailbox_candidates ::
  "IsoTimestamp \<Rightarrow> MailboxSelectionRequest \<Rightarrow> MailboxSelectionCandidate list \<Rightarrow> MailboxSelectionResult" where
  "select_mailbox_candidates now request candidates =
     (let (bucket_counts, selected) = select_classified_mailbox_candidates now request candidates
      in \<lparr>sr_bucket_counts = bucket_counts, sr_selected = map selected_message selected\<rparr>)"

text \<open>A stable sort by a reversed comparison: the newest message first, messages with equal keys in
  their given order.\<close>

definition display_order :: "SelectedMailboxMessage \<Rightarrow> IsoTimestamp \<times> AtmMessageId option \<times> string" where
  "display_order m = (me_timestamp (sm_envelope m), me_message_id (sm_envelope m), sm_message_key m)"

definition sort_and_limit_mailbox_selection ::
  "nat option \<Rightarrow> SelectedMailboxMessage list \<Rightarrow> SelectedMailboxMessage list" where
  "sort_and_limit_mailbox_selection limit selected =
     (let sorted = rev (sort_key display_order (rev selected))
      in case limit of Some n \<Rightarrow> take n sorted | None \<Rightarrow> sorted)"

section \<open>Classifying leaves threads as they are\<close>

definition same_links :: "(MessageEnvelope \<Rightarrow> MessageEnvelope) \<Rightarrow> bool" where
  "same_links f \<longleftrightarrow>
     (\<forall>m. me_message_id (f m) = me_message_id m \<and> me_parent_message_id (f m) = me_parent_message_id m
        \<and> me_timestamp (f m) = me_timestamp m)"

lemma same_links_effective: "same_links (effective_display_envelope ms)"
  by (simp add: same_links_def effective_display_envelope_def split: option.split)

lemma find_map: "find P (map f xs) = map_option f (find (P \<circ> f) xs)"
  by (induction xs) auto

lemma links_message: "same_links f \<Longrightarrow> thread_message (map f ms) i = map_option f (thread_message ms i)"
  by (simp add: thread_message_def rev_map find_map comp_def same_links_def)

lemma links_children: "same_links f \<Longrightarrow> thread_children (map f ms) p = map f (thread_children ms p)"
  by (simp add: thread_children_def filter_map comp_def same_links_def)

lemma foldl_pick_map:
  "(\<And>x. g (f x) = g x) \<Longrightarrow>
   foldl (\<lambda>b m. if g b \<le> g m then m else b) (f x) (map f xs) = f (foldl (\<lambda>b m. if g b \<le> g m then m else b) x xs)"
  for g :: "'a \<Rightarrow> 'b::order"
proof (induction xs arbitrary: x)
  case (Cons y ys)
  then show ?case using Cons.IH[of x] Cons.IH[of y] by simp
qed simp

lemma links_successor:
  assumes "same_links f"
  shows "primary_successor (map f ms) p = map_option f (primary_successor ms p)"
proof -
  have "successor_order (f m) = successor_order m" for m
    using assms by (simp add: successor_order_def same_links_def)
  then show ?thesis
    using foldl_pick_map[of successor_order f]
    by (simp add: primary_successor_def links_children[OF assms] split: list.split)
qed

lemma links_root_loop: "same_links f \<Longrightarrow> root_loop (map f ms) seen i = root_loop ms seen i"
proof (induction ms seen i rule: root_loop.induct)
  case (1 ms seen i)
  show ?case
    unfolding root_loop.simps[of "map f ms" seen i] root_loop.simps[of ms seen i] links_message[OF "1.prems"]
    using 1 by (auto simp: same_links_def split: option.split)
qed

lemma links_terminal_loop: "same_links f \<Longrightarrow> terminal_loop (map f ms) seen i = terminal_loop ms seen i"
proof (induction ms seen i rule: terminal_loop.induct)
  case (1 ms seen i)
  show ?case
    unfolding terminal_loop.simps[of "map f ms" seen i] terminal_loop.simps[of ms seen i] links_successor[OF "1.prems"]
    using 1 by (auto simp: same_links_def split: option.split)
qed

lemma links_lineage: "same_links f \<Longrightarrow> lineage (map f ms) ts = lineage ms ts"
  by (induction ms ts rule: lineage.induct)
    (simp_all add: links_message option.map_comp comp_def same_links_def)

lemma links_ids: "same_links f \<Longrightarrow> ids_of (map f ms) = ids_of ms"
  by (induction ms) (auto simp: ids_of_def List.map_filter_simps same_links_def split: option.split)

lemma links_terminal: "same_links f \<Longrightarrow> is_terminal (map f ms) i = is_terminal ms i"
  by (simp add: is_terminal_def terminal_id_def links_terminal_loop)

lemma links_linear:
  assumes "same_links f" "linear_mailbox ms"
  shows "linear_mailbox (map f ms)"
  using assms(2) links_lineage[OF assms(1)] links_ids[OF assms(1)]
  by (auto simp: linear_mailbox_def successor_count_def links_children[OF assms(1)])
    (use assms(1) in \<open>simp_all add: same_links_def\<close>)

lemma classified_nth:
  "n < length cs \<Longrightarrow> classify_candidates cs ! n = classified (map ca_envelope cs) n (cs ! n)"
  by (simp add: classify_candidates_def)

lemma length_classified [simp]: "length (classify_candidates cs) = length cs"
  by (simp add: classify_candidates_def)

lemma classified_envelopes:
  "map cm_envelope (classify_candidates cs)
    = map (effective_display_envelope (map ca_envelope cs)) (map ca_envelope cs)"
  by (rule nth_equalityI) (simp_all add: classified_nth classified_def Let_def)

section \<open>Counts\<close>

lemma bucket_counts:
  fixes now :: IsoTimestamp and ms :: "ClassifiedMessage list"
  defines "counted \<equiv> \<lambda>b. length (filter (\<lambda>m. \<not> hidden_from_normal_views now (cm_envelope m) \<and> cm_bucket m = b) ms)"
  shows "bucket_counts_for now ms
    = \<lparr>bc_unread = counted UnreadBucket, bc_pending_ack = counted PendingAckBucket, bc_history = counted HistoryBucket\<rparr>"
proof -
  have "foldl (count_message now) c ms = \<lparr>bc_unread = bc_unread c + counted UnreadBucket,
      bc_pending_ack = bc_pending_ack c + counted PendingAckBucket, bc_history = bc_history c + counted HistoryBucket\<rparr>" for c
    unfolding counted_def
    by (induction ms arbitrary: c) (auto simp: count_message_def split: DisplayBucket.split)
  then show ?thesis by (simp add: bucket_counts_for_def)
qed

definition counted_by :: "ReadSelection \<Rightarrow> BucketCounts \<Rightarrow> nat" where
  "counted_by mode counts =
     (case mode of
        SelectActionable \<Rightarrow> bc_unread counts + bc_pending_ack counts
      | SelectUnread \<Rightarrow> bc_unread counts
      | SelectPendingAck \<Rightarrow> bc_pending_ack counts
      | SelectAll \<Rightarrow> bc_unread counts + bc_pending_ack counts + bc_history counts)"

lemma counted_selection:
  "counted_by mode (bucket_counts_for now ms)
    = length (filter (\<lambda>m. \<not> hidden_from_normal_views now (cm_envelope m) \<and> selected_by mode (cm_bucket m)) ms)"
  unfolding bucket_counts counted_by_def
proof (induction ms)
  case (Cons a ms)
  then show ?case by (cases "cm_bucket a") (auto simp: selected_by_def split: ReadSelection.splits)
qed (simp split: ReadSelection.split)

lemmas filter_defs = apply_task_filter_def apply_timestamp_filter_def apply_participant_filter_def
  apply_sender_filter_def message_matches_contains_def

lemma unfiltered_selection:
  "sr_selected (select_mailbox_candidates now (default_request\<lparr>rq_selection_mode := mode\<rparr>) cs)
    = map selected_message (filter (\<lambda>m. \<not> hidden_for_selection now (cm_envelope m) mode \<and> selected_by mode (cm_bucket m))
        (logical_current_messages (classify_candidates cs)))"
  by (simp add: select_mailbox_candidates_def select_classified_mailbox_candidates_def default_request_def
      apply_selection_mode_def filter_defs Let_def)

lemma selection_counts:
  "sr_bucket_counts (select_mailbox_candidates now request cs)
    = bucket_counts_for now (logical_current_messages (classify_candidates cs))"
  by (cases "rq_message_id_filter request")
    (simp_all add: select_mailbox_candidates_def select_classified_mailbox_candidates_def Let_def)

section \<open>Each thread is shown once\<close>

abbreviation current_in :: "MessageEnvelope list \<Rightarrow> MessageEnvelope \<Rightarrow> bool" where
  "current_in ms \<equiv> \<lambda>m. case me_message_id m of None \<Rightarrow> True | Some i \<Rightarrow> is_terminal ms i"

lemma logical_current_id:
  "is_terminal ms i \<Longrightarrow> logical_current_envelope ms i = Some l \<Longrightarrow> me_message_id l = Some i"
  by (cases "thread_message ms i")
    (auto simp: logical_current_envelope_def is_terminal_def Let_def dest: thread_message_Some split: if_split_asm)

lemma logical_current_ids:
  "map (me_message_id \<circ> cm_envelope) (logical_current_messages ms)
    = map me_message_id (filter (current_in (map cm_envelope ms)) (map cm_envelope ms))"
  unfolding logical_current_messages_def Let_def filter_map
  by (auto simp: comp_def dest!: logical_current_id split: option.split)

lemma shown_ids:
  "map (me_message_id \<circ> cm_envelope) (logical_current_messages (classify_candidates cs))
    = map me_message_id (filter (current_in (map ca_envelope cs)) (map ca_envelope cs))"
proof -
  let ?f = "effective_display_envelope (map ca_envelope cs)"
  have id: "me_message_id (?f m) = me_message_id m" for m
    using same_links_effective[of "map ca_envelope cs"] by (simp add: same_links_def)
  moreover have "current_in (map ?f (map ca_envelope cs)) (?f m) = current_in (map ca_envelope cs) m" for m
    unfolding links_terminal[OF same_links_effective] id ..
  ultimately show ?thesis
    unfolding logical_current_ids classified_envelopes filter_map by (simp add: comp_def)
qed

lemma thread_shown_once:
  assumes "linear_mailbox (map ca_envelope cs)"
  defines "shown \<equiv> logical_current_messages (classify_candidates cs)"
  shows "length shown = length (filter (\<lambda>c. me_parent_message_id (ca_envelope c) = None) cs)"
    "c \<in> set cs \<Longrightarrow> me_message_id (ca_envelope c) = Some i \<Longrightarrow>
      \<exists>t m. terminal_id (map ca_envelope cs) i = Some t \<and> m \<in> set shown \<and> me_message_id (cm_envelope m) = Some t"
proof -
  let ?ms = "map ca_envelope cs"
  have ids: "map (me_message_id \<circ> cm_envelope) shown = map me_message_id (filter (current_in ?ms) ?ms)"
    unfolding shown_def by (rule shown_ids)
  have "length shown = length (filter (current_in ?ms) ?ms)" using arg_cong[OF ids, of length] by simp
  then show "length shown = length (filter (\<lambda>c. me_parent_message_id (ca_envelope c) = None) cs)"
    unfolding one_terminal_per_root[OF assms(1)] by (simp add: filter_map comp_def)
  assume c: "c \<in> set cs" "me_message_id (ca_envelope c) = Some i"
  then have i: "i \<in> set (ids_of ?ms)" by (auto simp: set_ids_of)
  obtain ts where ts: "lineage ?ms ts" "\<not> has_successor ?ms (hd ts)" "terminal_id ?ms i = Some (hd ts)"
    using linear_thread[OF assms(1) i] by blast
  obtain m where m: "thread_message ?ms (hd ts) = Some m"
    using lineage_messages[OF ts(1)] lineage_not_Nil[OF ts(1)] by (meson hd_in_set)
  then have mem: "m \<in> set ?ms" "me_message_id m = Some (hd ts)" using thread_message_Some by blast+
  then have "hd ts \<in> set (ids_of ?ms)" by (auto simp: set_ids_of)
  then have "is_terminal ?ms (hd ts)" using linear_is_terminal[OF assms(1)] ts(2) by blast
  then have "Some (hd ts) \<in> set (map me_message_id (filter (current_in ?ms) ?ms))"
    using mem by force
  then have "Some (hd ts) \<in> set (map (me_message_id \<circ> cm_envelope) shown)" unfolding ids .
  then obtain x where "x \<in> set shown" "me_message_id (cm_envelope x) = Some (hd ts)" by auto
  then show "\<exists>t m. terminal_id ?ms i = Some t \<and> m \<in> set shown \<and> me_message_id (cm_envelope m) = Some t"
    using ts(3) by blast
qed

end
