(* ===== verification/Mail_Reader.thy ===== *)
theory Mail_Reader
  imports Selection Writer_Invariant
begin

text \<open>
  The mailbox reader (\<^verbatim>\<open>atm-storage-rusqlite/src/mailbox_reader.rs\<close> and \<^verbatim>\<open>sql_filters.rs\<close>)
  and the selection of the runtime on top of it (\<^verbatim>\<open>atm-runtime/src/mailbox_runtime.rs\<close>): a mailbox
  query as a predicate on the rows of the mail tables, the decoding of what it finds, the counts per
  bucket, and the message a read returns.  A query reads one state of the store; the clock of the
  query is one value.  The filters are those a mailbox query sets: the template, variable, tag and
  workflow filters of the search keep their defaults and add no clause.
\<close>

section \<open>Errors of the reader lane\<close>

datatype ReadLaneError =
    UnauthorizedScope
  | Saturated string
  | DeadlineExpired string "64 word" "64 word"
  | Unavailable string
  | LaneStorage AtmErrorCode string "string option"

definition word_str :: "64 word \<Rightarrow> string" where
  "word_str w = nat_str (unat w)"

definition ReadLaneError_display :: "ReadLaneError \<Rightarrow> string" where
  "ReadLaneError_display e =
     (case e of
        UnauthorizedScope \<Rightarrow> ''mailbox scope does not authorize this read''
      | Saturated reason \<Rightarrow> ''mailbox reader lane is saturated: '' @ reason
      | DeadlineExpired stage budget_ms elapsed_ms \<Rightarrow>
          ''mailbox reader deadline expired while '' @ stage @ '' (budget_ms='' @ word_str budget_ms
          @ '' elapsed_ms='' @ word_str elapsed_ms @ '')''
      | Unavailable message \<Rightarrow> ''mailbox reader lane is unavailable: '' @ message
      | LaneStorage _ message cause \<Rightarrow>
          ''mailbox reader storage failure: '' @ message
          @ (case cause of None \<Rightarrow> [] | Some c \<Rightarrow> ''; cause: '' @ c))"

definition AtmError_from_lane :: "ReadLaneError \<Rightarrow> AtmError" where
  "AtmError_from_lane e =
     (let code = (case e of
            UnauthorizedScope \<Rightarrow> MailboxOrValidation MailboxReadFailed
          | Saturated _ \<Rightarrow> DaemonOrAddress DaemonConnectionSaturated
          | DeadlineExpired _ _ _ \<Rightarrow> MailboxOrValidation MailboxLockTimeout
          | Unavailable _ \<Rightarrow> DaemonOrAddress DaemonUnavailable
          | LaneStorage code _ _ \<Rightarrow> code);
          detail = ''bounded mailbox reader request failed: variant='' @ (case e of
            UnauthorizedScope \<Rightarrow> ''unauthorized_scope stage=scope_check budget=not_started''
          | Saturated reason \<Rightarrow> ''saturated stage='' @ reason @ '' budget=not_started''
          | DeadlineExpired stage budget_ms elapsed_ms \<Rightarrow>
              ''deadline_expired stage='' @ stage @ '' budget_ms='' @ word_str budget_ms
              @ '' elapsed_ms='' @ word_str elapsed_ms
          | Unavailable _ \<Rightarrow> ''unavailable stage=reader_lane budget=unavailable''
          | LaneStorage code _ _ \<Rightarrow>
              ''storage stage=reader_lane error_code='' @ code_str code)
      in with_cause (AtmError_new code detail) (ReadLaneError_display e))"

definition read_lane_storage_error :: "AtmError \<Rightarrow> ReadLaneError" where
  "read_lane_storage_error error = LaneStorage (err_code error) (err_message error) (err_cause error)"

section \<open>Filters\<close>

datatype SearchReadState = SearchUnread | SearchRead

datatype SearchAckState = SearchPending | SearchAcknowledged | SearchNotRequired

datatype SearchMailboxSelection = MatchActionable | MatchUnread | MatchPendingAck | MatchAll

record SearchFilters =
  sf_team :: "TeamName option"
  sf_agent :: "AgentName option"
  sf_from_agent :: "AgentName option"
  sf_since :: "IsoTimestamp option"
  sf_until :: "IsoTimestamp option"
  sf_message_id :: "AtmMessageId option"
  sf_task_id :: "TaskId option"
  sf_contains :: "string option"
  sf_read_state :: "SearchReadState option"
  sf_ack_state :: "SearchAckState option"
  sf_current_only :: bool
  sf_mailbox_selection :: "SearchMailboxSelection option"

definition default_filters :: SearchFilters where
  "default_filters = \<lparr>sf_team = None, sf_agent = None, sf_from_agent = None, sf_since = None,
     sf_until = None, sf_message_id = None, sf_task_id = None, sf_contains = None,
     sf_read_state = None, sf_ack_state = None, sf_current_only = False,
     sf_mailbox_selection = None\<rparr>"

record MailboxScope =
  ms_team :: TeamName
  ms_agent :: AgentName

definition mailbox_filters :: "MailboxScope \<Rightarrow> MailboxSelectionRequest \<Rightarrow> SearchFilters" where
  "mailbox_filters scope request = default_filters\<lparr>
     sf_team := Some (ms_team scope), sf_agent := Some (ms_agent scope),
     sf_from_agent := rq_sender_filter request, sf_message_id := rq_message_id_filter request,
     sf_task_id := rq_task_filter request, sf_contains := rq_contains_filter request,
     sf_since := rq_timestamp_filter request, sf_current_only := True,
     sf_mailbox_selection := Some (case rq_selection_mode request of
         SelectActionable \<Rightarrow> MatchActionable
       | SelectUnread \<Rightarrow> MatchUnread
       | SelectPendingAck \<Rightarrow> MatchPendingAck
       | SelectAll \<Rightarrow> MatchAll)\<rparr>"

section \<open>A query as a predicate on rows\<close>

text \<open>\<^verbatim>\<open>COALESCE\<close> of a state column and the field of the stored envelope.\<close>

definition coalesce :: "'a option \<Rightarrow> 'a option \<Rightarrow> 'a option" where
  "coalesce a b = (case a of None \<Rightarrow> b | Some x \<Rightarrow> Some x)"

definition row_state :: "db \<Rightarrow> MailCols \<Rightarrow> StateCols option" where
  "row_state d m = find_state (mc_team m) (mc_agent m) (mc_message_key m) d"

definition sql_read :: "db \<Rightarrow> MailCols \<Rightarrow> bool" where
  "sql_read d m = (case row_state d m of Some s \<Rightarrow> sc_read s | None \<Rightarrow> se_read (mc_envelope_json m))"

definition sql_pending_ack_at :: "db \<Rightarrow> MailCols \<Rightarrow> IsoTimestamp option" where
  "sql_pending_ack_at d m =
     coalesce (Option.bind (row_state d m) sc_pending_ack_at) (se_pending_ack_at (mc_envelope_json m))"

definition sql_acknowledged_at :: "db \<Rightarrow> MailCols \<Rightarrow> IsoTimestamp option" where
  "sql_acknowledged_at d m =
     coalesce (Option.bind (row_state d m) sc_acknowledged_at) (se_acknowledged_at (mc_envelope_json m))"

definition sql_expires_at :: "db \<Rightarrow> MailCols \<Rightarrow> IsoTimestamp option" where
  "sql_expires_at d m =
     coalesce (Option.bind (row_state d m) sc_expires_at) (se_expires_at (mc_envelope_json m))"

definition visible_row :: "IsoTimestamp \<Rightarrow> db \<Rightarrow> MailCols \<Rightarrow> bool" where
  "visible_row now d m \<longleftrightarrow>
     Option.bind (row_state d m) sc_deleted_at = None
     \<and> (case sql_expires_at d m of None \<Rightarrow> True | Some t \<Rightarrow> t > now)"

definition sql_pending :: "db \<Rightarrow> MailCols \<Rightarrow> bool" where
  "sql_pending d m \<longleftrightarrow> sql_pending_ack_at d m \<noteq> None \<and> sql_acknowledged_at d m = None"

definition sql_unread :: "db \<Rightarrow> MailCols \<Rightarrow> bool" where
  "sql_unread d m \<longleftrightarrow>
     (sql_pending_ack_at d m = None \<or> sql_acknowledged_at d m \<noteq> None) \<and> \<not> sql_read d m"

definition current_row :: "IsoTimestamp \<Rightarrow> db \<Rightarrow> MailCols \<Rightarrow> bool" where
  "current_row now d m \<longleftrightarrow>
     mc_message_id m = None \<or>
     \<not> list_ex (\<lambda>x. mc_team x = mc_team m \<and> mc_agent x = mc_agent m
         \<and> mc_parent_message_id x = mc_message_id m \<and> visible_row now d x) (db_mail_messages d)"

definition message_state_filters :: "IsoTimestamp \<Rightarrow> SearchFilters \<Rightarrow> db \<Rightarrow> MailCols \<Rightarrow> bool" where
  "message_state_filters now f d m \<longleftrightarrow>
     visible_row now d m
     \<and> (case sf_read_state f of
          Some SearchUnread \<Rightarrow> \<not> sql_read d m
        | Some SearchRead \<Rightarrow> sql_read d m
        | None \<Rightarrow> True)
     \<and> (case sf_ack_state f of
          Some SearchPending \<Rightarrow> sql_pending d m
        | Some SearchAcknowledged \<Rightarrow> sql_acknowledged_at d m \<noteq> None
        | Some SearchNotRequired \<Rightarrow> sql_pending_ack_at d m = None
        | None \<Rightarrow> True)
     \<and> (case sf_mailbox_selection f of
          Some MatchActionable \<Rightarrow> sql_pending d m \<or> sql_unread d m
        | Some MatchUnread \<Rightarrow> sql_unread d m
        | Some MatchPendingAck \<Rightarrow> sql_pending d m
        | _ \<Rightarrow> True)
     \<and> (sf_current_only f \<longrightarrow> current_row now d m)"

text \<open>\<^verbatim>\<open>column = ?\<close> with a bound parameter: a column that is NULL does not match.\<close>

definition equals_filter :: "'a option \<Rightarrow> 'a option \<Rightarrow> bool" where
  "equals_filter wanted column = (case wanted of None \<Rightarrow> True | Some w \<Rightarrow> column = Some w)"

definition scalar_filters :: "SearchFilters \<Rightarrow> MailCols \<Rightarrow> bool" where
  "scalar_filters f m \<longleftrightarrow>
     equals_filter (sf_team f) (Some (mc_team m)) \<and> equals_filter (sf_agent f) (Some (mc_agent m))
     \<and> equals_filter (sf_from_agent f) (Some (mc_from_agent m))
     \<and> equals_filter (sf_message_id f) (mc_message_id m)
     \<and> equals_filter (sf_task_id f) (se_task_id (mc_envelope_json m))"

text \<open>\<^verbatim>\<open>instr(lower(a), lower(b)) > 0\<close>.\<close>

definition sql_contains :: "string option \<Rightarrow> string \<Rightarrow> bool" where
  "sql_contains column needle \<longleftrightarrow>
     sublist (map ascii_lower needle) (map ascii_lower (case column of None \<Rightarrow> [] | Some t \<Rightarrow> t))"

definition content_filter :: "SearchFilters \<Rightarrow> MailCols \<Rightarrow> bool" where
  "content_filter f m =
     (case sf_contains f of
        None \<Rightarrow> True
      | Some needle \<Rightarrow> sql_contains (mc_summary m) needle \<or> sql_contains (mc_message_text m) needle)"

definition time_filters :: "SearchFilters \<Rightarrow> MailCols \<Rightarrow> bool" where
  "time_filters f m \<longleftrightarrow>
     (case sf_since f of None \<Rightarrow> True | Some since \<Rightarrow> mc_message_at m \<ge> since)
     \<and> (case sf_until f of None \<Rightarrow> True | Some until \<Rightarrow> mc_message_at m \<le> until)"

definition matches_filters :: "IsoTimestamp \<Rightarrow> SearchFilters \<Rightarrow> db \<Rightarrow> MailCols \<Rightarrow> bool" where
  "matches_filters now f d m \<longleftrightarrow>
     scalar_filters f m \<and> content_filter f m \<and> time_filters f m \<and> message_state_filters now f d m"

section \<open>Listing and counting\<close>

definition apply_state :: "MessageEnvelope \<Rightarrow> StateCols option \<Rightarrow> MessageEnvelope" where
  "apply_state envelope state =
     (case state of
        None \<Rightarrow> envelope
      | Some s \<Rightarrow> envelope\<lparr>me_read := sc_read s, me_pending_ack_at := sc_pending_ack_at s,
          me_acknowledged_at := sc_acknowledged_at s, me_expires_at := sc_expires_at s\<rparr>)"

definition row_envelope :: "db \<Rightarrow> MailCols \<Rightarrow> MessageEnvelope" where
  "row_envelope d m = apply_state (decode_envelope (mc_envelope_json m)) (row_state d m)"

definition decode_matching_message :: "MailboxScope \<Rightarrow> db \<Rightarrow> MailCols \<Rightarrow> AtmError + Message" where
  "decode_matching_message scope d m =
     bindE (MessageKey_new (mc_message_key m)) (\<lambda>key.
     Inr \<lparr>msg_team = ms_team scope, msg_agent = ms_agent scope, msg_message_key = key,
          msg_envelope = row_envelope d m\<rparr>)"

definition mail_order :: "MailCols \<Rightarrow> IsoTimestamp \<times> string" where
  "mail_order m = (mc_message_at m, mc_message_key m)"

definition newest_first :: "MailCols list \<Rightarrow> MailCols list" where
  "newest_first rows = rev (sort_key mail_order rows)"

definition limited :: "nat option \<Rightarrow> 'a list \<Rightarrow> 'a list" where
  "limited limit xs = (case limit of None \<Rightarrow> xs | Some n \<Rightarrow> take n xs)"

definition list_matching_messages ::
  "IsoTimestamp \<Rightarrow> MailboxScope \<Rightarrow> SearchFilters \<Rightarrow> nat option \<Rightarrow> db \<Rightarrow> AtmError + Message list" where
  "list_matching_messages now scope filters limit d =
     collectE (decode_matching_message scope d)
       (limited limit (newest_first (filter (matches_filters now filters d) (db_mail_messages d))))"

definition outside_scope :: "MailboxScope \<Rightarrow> SearchFilters \<Rightarrow> bool" where
  "outside_scope scope f \<longleftrightarrow>
     (case sf_team f of None \<Rightarrow> False | Some t \<Rightarrow> t \<noteq> ms_team scope)
     \<or> (case sf_agent f of None \<Rightarrow> False | Some a \<Rightarrow> a \<noteq> ms_agent scope)"

definition submit_matching_list ::
  "IsoTimestamp \<Rightarrow> MailboxScope \<Rightarrow> SearchFilters \<Rightarrow> nat option \<Rightarrow> db \<Rightarrow> ReadLaneError + Message list" where
  "submit_matching_list now scope filters limit d =
     (if outside_scope scope filters then Inl UnauthorizedScope
      else map_err read_lane_storage_error (list_matching_messages now scope
        (filters\<lparr>sf_team := Some (ms_team scope), sf_agent := Some (ms_agent scope)\<rparr>) limit d))"

text \<open>\<^verbatim>\<open>GROUP BY\<close> the bucket of a row: one entry per bucket that has rows.\<close>

datatype MailboxBucket = MailboxUnread | MailboxPendingAck | MailboxHistory

definition sql_bucket :: "db \<Rightarrow> MailCols \<Rightarrow> MailboxBucket" where
  "sql_bucket d m =
     (if sql_pending d m then MailboxPendingAck
      else if \<not> sql_read d m then MailboxUnread
      else MailboxHistory)"

definition count_by_bucket :: "IsoTimestamp \<Rightarrow> SearchFilters \<Rightarrow> db \<Rightarrow> (MailboxBucket \<times> nat) list" where
  "count_by_bucket now filters d =
     (let rows = filter (matches_filters now filters d) (db_mail_messages d);
          count = (\<lambda>b. length (filter (\<lambda>m. sql_bucket d m = b) rows))
      in map (\<lambda>b. (b, count b))
           (filter (\<lambda>b. count b \<noteq> 0) [MailboxUnread, MailboxPendingAck, MailboxHistory]))"

definition count_all :: "IsoTimestamp \<Rightarrow> SearchFilters \<Rightarrow> db \<Rightarrow> nat" where
  "count_all now filters d = length (filter (matches_filters now filters d) (db_mail_messages d))"

definition submit_count ::
  "MailboxScope \<Rightarrow> SearchFilters \<Rightarrow> 'a \<Rightarrow> ReadLaneError + 'a" where
  "submit_count scope filters counted =
     (if outside_scope scope filters then Inl UnauthorizedScope else Inr counted)"

fun bucket_counts_from_storage :: "(MailboxBucket \<times> nat) list \<Rightarrow> BucketCounts \<Rightarrow> BucketCounts" where
  "bucket_counts_from_storage [] buckets = buckets"
| "bucket_counts_from_storage ((MailboxUnread, n) # counts) buckets =
     bucket_counts_from_storage counts (buckets\<lparr>bc_unread := n\<rparr>)"
| "bucket_counts_from_storage ((MailboxPendingAck, n) # counts) buckets =
     bucket_counts_from_storage counts (buckets\<lparr>bc_pending_ack := n\<rparr>)"
| "bucket_counts_from_storage ((MailboxHistory, n) # counts) buckets =
     bucket_counts_from_storage counts (buckets\<lparr>bc_history := n\<rparr>)"

section \<open>The selection of the runtime\<close>

definition selection_candidate :: "Message \<Rightarrow> MailboxSelectionCandidate" where
  "selection_candidate message =
     \<lparr>ca_message_key = msg_message_key message, ca_envelope = msg_envelope message\<rparr>"

definition mailbox_counts_filters :: "MailboxScope \<Rightarrow> SearchFilters" where
  "mailbox_counts_filters scope = default_filters\<lparr>sf_team := Some (ms_team scope),
     sf_agent := Some (ms_agent scope), sf_current_only := True\<rparr>"

definition select_matching ::
  "IsoTimestamp \<Rightarrow> MailboxScope \<Rightarrow> MailboxSelectionRequest \<Rightarrow> nat option \<Rightarrow> db
     \<Rightarrow> AtmError + MailboxSelectionResult" where
  "select_matching now scope request limit d =
     bindE (map_err AtmError_from_lane (submit_count scope (mailbox_counts_filters scope)
       (count_by_bucket now (mailbox_counts_filters scope) d))) (\<lambda>bucket_counts.
     bindE (map_err AtmError_from_lane (submit_matching_list now scope (mailbox_filters scope request) limit d))
       (\<lambda>messages.
         let selection = select_mailbox_candidates now request (map selection_candidate messages)
         in Inr (selection\<lparr>sr_bucket_counts := bucket_counts_from_storage bucket_counts
              \<lparr>bc_unread = 0, bc_pending_ack = 0, bc_history = 0\<rparr>\<rparr>)))"

definition select_one_for_read ::
  "IsoTimestamp \<Rightarrow> MailboxScope \<Rightarrow> MailboxSelectionRequest \<Rightarrow> db
     \<Rightarrow> AtmError + (MailboxSelectionResult \<times> nat)" where
  "select_one_for_read now scope request d =
     bindE (select_matching now scope request (Some 1) d) (\<lambda>selection.
     bindE (map_err AtmError_from_lane (submit_count scope (mailbox_filters scope request)
       (count_all now (mailbox_filters scope request) d))) (\<lambda>match_count.
     Inr (selection, match_count)))"

text \<open>A read without waiting: the newest match, and the display state handed to the writer, the
  keys shown and the newest timestamp among them.  The handoff queue may refuse it; the message then
  stays unread.\<close>

definition handoff_keys :: "MailboxSelectionResult \<Rightarrow> MessageKey list" where
  "handoff_keys selection =
     List.map_filter (\<lambda>m. case MessageKey_new (sm_message_key m) of Inr k \<Rightarrow> Some k | Inl _ \<Rightarrow> None)
       (sr_selected selection)"

definition handoff_watermark :: "bool \<Rightarrow> MailboxSelectionResult \<Rightarrow> IsoTimestamp option" where
  "handoff_watermark update_seen_watermark selection =
     (if update_seen_watermark \<and> sr_selected selection \<noteq> []
      then Some (Max (set (map (\<lambda>m. me_timestamp (sm_envelope m)) (sr_selected selection)))) else None)"

definition read_selection ::
  "IsoTimestamp \<Rightarrow> MailboxScope \<Rightarrow> MailboxSelectionRequest \<Rightarrow> db
     \<Rightarrow> AtmError + (MailboxSelectionResult \<times> nat)" where
  "read_selection now scope request d =
     bindE (select_one_for_read now scope request d) (\<lambda>(selection, match_count).
     Inr (selection\<lparr>sr_selected := sort_and_limit_mailbox_selection (Some 1) (sr_selected selection)\<rparr>,
       match_count))"

end
