(* ===== verification/Reader_Selection.thy ===== *)
theory Reader_Selection
  imports Mail_Reader
begin

text \<open>
  What the runtime selects from a mailbox query: the selection of already current messages, its
  agreement with the selection over the whole mailbox, and the effect of a read.
\<close>

section \<open>Selection as a filter of candidates\<close>

text \<open>What a selection depends on: the key, the bucket and the envelope of a classified message.\<close>

type_synonym view = "string \<times> DisplayBucket \<times> MessageEnvelope"

definition cm_view :: "ClassifiedMessage \<Rightarrow> view" where
  "cm_view m = (cm_source_path m, cm_bucket m, cm_envelope m)"

definition envelope_bucket :: "MessageEnvelope \<Rightarrow> DisplayBucket" where
  "envelope_bucket e = display_bucket_for_class (classify_message e)"

lemma classified_views:
  "map cm_view (classify_candidates cs)
    = map (\<lambda>c. let e = effective_display_envelope (map ca_envelope cs) (ca_envelope c)
               in (ca_message_key c, envelope_bucket e, e)) cs"
  by (rule nth_equalityI) (simp_all add: classified_nth classified_def cm_view_def envelope_bucket_def Let_def)

definition logical_of :: "MessageEnvelope list \<Rightarrow> MessageEnvelope \<Rightarrow> MessageEnvelope" where
  "logical_of ms e =
     (case me_message_id e of
        None \<Rightarrow> e
      | Some i \<Rightarrow> (case logical_current_envelope ms i of None \<Rightarrow> e | Some l \<Rightarrow> l))"

lemma logical_views:
  "map cm_view (logical_current_messages ms)
    = map (\<lambda>(k, b, e). (k, b, logical_of (map cm_envelope ms) e))
        (filter (\<lambda>(k, b, e). current_in (map cm_envelope ms) e) (map cm_view ms))"
  unfolding logical_current_messages_def Let_def
  by (auto simp: filter_map comp_def cm_view_def logical_of_def split: option.split)

definition accepts :: "IsoTimestamp \<Rightarrow> MailboxSelectionRequest \<Rightarrow> view \<Rightarrow> bool" where
  "accepts now request = (\<lambda>(k, b, e).
     (case rq_sender_filter request of None \<Rightarrow> True | Some s \<Rightarrow> me_from e = s)
     \<and> (case rq_participant_filter request of
          None \<Rightarrow> True
        | Some p \<Rightarrow>
            (let source_matches = me_from e = pf_agent p \<and> me_source_chat_id e = pf_chat_id p;
                 destination_matches = me_destination_chat_id e = pf_chat_id p
             in case pf_direction p of
                  DirectionFrom \<Rightarrow> source_matches
                | DirectionTo \<Rightarrow> destination_matches
                | DirectionEither \<Rightarrow> source_matches \<or> destination_matches))
     \<and> (case rq_timestamp_filter request of None \<Rightarrow> True | Some s \<Rightarrow> me_timestamp e \<ge> s)
     \<and> (case rq_task_filter request of None \<Rightarrow> True | Some t \<Rightarrow> me_task_id e = Some t)
     \<and> \<not> hidden_for_selection now e (rq_selection_mode request)
     \<and> selected_by (rq_selection_mode request) b)"

lemma selected_views:
  assumes "rq_message_id_filter request = None" "rq_contains_filter request = None"
  shows "map cm_view (snd (select_classified_mailbox_candidates now request cs))
    = filter (accepts now request) (map cm_view (logical_current_messages (classify_candidates cs)))"
  using assms
  by (simp add: select_classified_mailbox_candidates_def Let_def filter_defs apply_selection_mode_def
      filter_map comp_def cm_view_def accepts_def matches_participant_filter_def
      split: option.split)

lemma logical_of_text:
  assumes "distinct (ids_of ms)" "e \<in> set ms" "current_in ms e"
  shows "\<exists>t. logical_of ms e = e\<lparr>me_text := t\<rparr>"
proof (cases "me_message_id e")
  case None
  then have "logical_of ms e = e\<lparr>me_text := me_text e\<rparr>" by (simp add: logical_of_def)
  then show ?thesis ..
next
  case (Some i)
  then have "thread_message ms i = Some e" "terminal_id ms i = Some i"
    using thread_message_distinct[OF assms(1,2)] assms(3) by (simp_all add: is_terminal_def)
  then have "logical_of ms e = e \<or> (\<exists>t. logical_of ms e = e\<lparr>me_text := t\<rparr>)"
    using Some by (auto simp: logical_of_def logical_current_envelope_def Let_def)
  moreover have "e = e\<lparr>me_text := me_text e\<rparr>" by simp
  ultimately show ?thesis by metis
qed

lemma accepts_text [simp]: "accepts now request (k, b, e\<lparr>me_text := t\<rparr>) = accepts now request (k, b, e)"
  by (simp add: accepts_def hidden_for_selection_def is_expired_ephemeral_def is_ephemeral_def Let_def
      cong: option.case_cong ParticipantDirection.case_cong)

definition shown_candidate ::
  "IsoTimestamp \<Rightarrow> MailboxSelectionRequest \<Rightarrow> MessageEnvelope list \<Rightarrow> MailboxSelectionCandidate \<Rightarrow> bool" where
  "shown_candidate now request ms c \<longleftrightarrow>
     current_in ms (ca_envelope c)
     \<and> accepts now request (ca_message_key c, envelope_bucket (ca_envelope c), ca_envelope c)"

lemma selected_entries:
  fixes cs :: "MailboxSelectionCandidate list"
  defines "ms \<equiv> map ca_envelope cs"
  defines "eff \<equiv> map (effective_display_envelope ms) ms"
  assumes "rq_message_id_filter request = None" "rq_contains_filter request = None" "distinct (ids_of ms)"
  shows "map (\<lambda>m. (sm_message_key m, sm_envelope m)) (sr_selected (select_mailbox_candidates now request cs))
    = map (\<lambda>c. (ca_message_key c, logical_of eff (ca_envelope c))) (filter (shown_candidate now request ms) cs)"
proof -
  let ?f = "effective_display_envelope ms"
  have links: "me_message_id (?f e) = me_message_id e" "is_terminal (map ?f ms) i = is_terminal ms i" for e i
    using same_links_effective[of ms] by (simp_all add: same_links_def links_terminal)
  have cur: "current_in eff (?f e) = current_in ms e" for e unfolding eff_def links ..
  have same: "?f e = e" if "current_in ms e" for e
    using that by (auto simp: effective_display_envelope_def split: option.splits)
  have acc: "accepts now request (k, b, logical_of eff (?f (ca_envelope c))) = accepts now request (k, b, ca_envelope c)"
    if "c \<in> set cs" "current_in ms (ca_envelope c)" for k b c
  proof -
    have "ca_envelope c \<in> set eff" using that same by (force simp: eff_def ms_def)
    moreover have "distinct (ids_of eff)"
      unfolding eff_def links_ids[OF same_links_effective] by (rule assms)
    moreover have "current_in eff (ca_envelope c)" using that(2) cur[of "ca_envelope c"] same by simp
    ultimately obtain t where "logical_of eff (ca_envelope c) = (ca_envelope c)\<lparr>me_text := t\<rparr>"
      using logical_of_text by blast
    then show ?thesis using same[OF that(2)] by simp
  qed
  let ?g = "\<lambda>c. (ca_message_key c, envelope_bucket (?f (ca_envelope c)), logical_of eff (?f (ca_envelope c)))"
  have "filter (\<lambda>c. current_in ms (ca_envelope c) \<and> accepts now request (?g c)) cs = filter (shown_candidate now request ms) cs"
    by (rule filter_cong[OF refl]) (use same acc in \<open>auto simp: shown_candidate_def\<close>)
  moreover have "map ?g (filter (shown_candidate now request ms) cs)
      = map (\<lambda>c. (ca_message_key c, envelope_bucket (ca_envelope c), logical_of eff (ca_envelope c)))
          (filter (shown_candidate now request ms) cs)"
    by (rule map_cong[OF refl]) (auto simp: shown_candidate_def same)
  ultimately have "map cm_view (snd (select_classified_mailbox_candidates now request cs))
      = map (\<lambda>c. (ca_message_key c, envelope_bucket (ca_envelope c), logical_of eff (ca_envelope c)))
          (filter (shown_candidate now request ms) cs)"
    unfolding selected_views[OF assms(3,4)] logical_views classified_envelopes classified_views
      ms_def[symmetric] eff_def[symmetric] Let_def
    by (simp add: filter_map comp_def cur)
  then have "map (\<lambda>(k, b, e). (k, e)) (map cm_view (snd (select_classified_mailbox_candidates now request cs)))
      = map (\<lambda>c. (ca_message_key c, logical_of eff (ca_envelope c))) (filter (shown_candidate now request ms) cs)"
    by simp
  then show ?thesis
    by (simp add: select_mailbox_candidates_def selected_message_def cm_view_def comp_def case_prod_unfold Let_def)
qed

section \<open>Rows of a mailbox\<close>

lemma row_envelope_sel:
  "me_text (row_envelope d m) = se_text (mc_envelope_json m)"
  "me_task_id (row_envelope d m) = se_task_id (mc_envelope_json m)"
  "columns_ok m \<Longrightarrow> me_from (row_envelope d m) = mc_from_agent m"
  "columns_ok m \<Longrightarrow> me_timestamp (row_envelope d m) = mc_message_at m"
  "columns_ok m \<Longrightarrow> me_message_id (row_envelope d m) = mc_message_id m"
  "columns_ok m \<Longrightarrow> me_parent_message_id (row_envelope d m) = mc_parent_message_id m"
  by (simp_all add: row_envelope_def apply_state_def decode_envelope_def MessageEnvelope_from_def
      raw_of_storage_def raw_task_fields_def columns_ok_def Let_def split: option.split)

lemma trim_leading_keeps:
  "c \<in> set s \<Longrightarrow> (\<And>p. p \<in> set ps \<Longrightarrow> c \<notin> set p) \<Longrightarrow> c \<in> set (trim_leading ps s)"
proof (induction ps s rule: trim_leading.induct)
  case (1 ps s)
  show ?case
  proof (cases "leading ps s")
    case None
    then show ?thesis using 1 by (simp add: trim_leading.simps)
  next
    case (Some p)
    then have p: "p \<in> set ps" "prefix p s" using leading_SomeD by blast+
    then have "c \<in> set (drop (length p) s)" using 1(2) 1(3)[OF p(1)] by (auto elim: prefixE)
    then have "c \<in> set (trim_leading ps (drop (length p) s))" using 1(1)[OF Some] 1(3) by blast
    then show ?thesis using Some by (subst trim_leading.simps) simp
  qed
qed

lemma stored_key_parses:
  assumes "mail_check m"
  shows "MessageKey_new (mc_message_key m) = Inr (mc_message_key m)"
proof -
  have colon: "CHR '':'' \<in> set (mc_message_key m)"
    using assms by (auto simp: mail_check_def prefix_def)
  have "CHR '':'' \<in> set (trim (mc_message_key m))"
    unfolding trim_def trim_end_def trim_start_def set_rev
    by (rule trim_leading_keeps, unfold set_rev, rule trim_leading_keeps[OF colon]) (auto simp: white_space_def)
  then have "trim (mc_message_key m) \<noteq> []" by auto
  then show ?thesis by (simp add: MessageKey_new_def require_non_blank_def)
qed

lemma mail_distinct: "table_ok mail_check mail_clash rows \<Longrightarrow> distinct rows"
  unfolding table_ok_def by (induction rows) (auto simp: mail_clash_def)

definition row_candidate :: "db \<Rightarrow> MailCols \<Rightarrow> MailboxSelectionCandidate" where
  "row_candidate d m = \<lparr>ca_message_key = mc_message_key m, ca_envelope = row_envelope d m\<rparr>"

definition in_mailbox :: "MailboxScope \<Rightarrow> MailCols \<Rightarrow> bool" where
  "in_mailbox scope m \<longleftrightarrow> mc_team m = ms_team scope \<and> mc_agent m = ms_agent scope"

text \<open>The rows a query lists, in its order.\<close>

definition matching_rows :: "IsoTimestamp \<Rightarrow> MailboxScope \<Rightarrow> MailboxSelectionRequest \<Rightarrow> nat option \<Rightarrow> db \<Rightarrow> MailCols list" where
  "matching_rows now scope request limit d = limited limit (newest_first
     (filter (matches_filters now (mailbox_filters scope request) d) (db_mail_messages d)))"

lemma set_limited: "x \<in> set (limited limit xs) \<Longrightarrow> x \<in> set xs"
  by (auto simp: limited_def split: option.splits dest: in_set_takeD)

lemma distinct_limited: "distinct xs \<Longrightarrow> distinct (limited limit xs)"
  by (simp add: limited_def split: option.split)

lemma set_newest_first [simp]: "set (newest_first rows) = set rows"
  by (simp add: newest_first_def)

lemma distinct_newest_first [simp]: "distinct (newest_first rows) = distinct rows"
  by (simp add: newest_first_def)

lemma matching_row:
  assumes "m \<in> set (matching_rows now scope request limit d)"
  shows "m \<in> set (db_mail_messages d)" "in_mailbox scope m" "visible_row now d m" "current_row now d m"
  using set_limited[OF assms[unfolded matching_rows_def]]
  by (auto simp: matches_filters_def scalar_filters_def equals_filter_def mailbox_filters_def
      message_state_filters_def in_mailbox_def)

lemma select_matching_rows:
  assumes "mail_ok (db_mail_messages d)"
  shows "select_matching now scope request limit d
    = Inr ((select_mailbox_candidates now request (map (row_candidate d) (matching_rows now scope request limit d)))
        \<lparr>sr_bucket_counts := bucket_counts_from_storage (count_by_bucket now (mailbox_counts_filters scope) d)
          \<lparr>bc_unread = 0, bc_pending_ack = 0, bc_history = 0\<rparr>\<rparr>)"
proof -
  let ?dec = "\<lambda>m. \<lparr>msg_team = ms_team scope, msg_agent = ms_agent scope, msg_message_key = mc_message_key m,
      msg_envelope = row_envelope d m\<rparr>"
  have "decode_matching_message scope d m = Inr (?dec m)"
    if "m \<in> set (matching_rows now scope request limit d)" for m
    using stored_key_parses assms matching_row(1)[OF that]
    by (auto simp: decode_matching_message_def mail_ok_def table_ok_def list_all_iff)
  then have "list_matching_messages now scope (mailbox_filters scope request) limit d
      = Inr (map ?dec (matching_rows now scope request limit d))"
    unfolding list_matching_messages_def matching_rows_def[symmetric] by (rule collectE_Inr_map)
  moreover have "(mailbox_filters scope request)\<lparr>sf_team := Some (ms_team scope), sf_agent := Some (ms_agent scope)\<rparr>
      = mailbox_filters scope request" by (simp add: mailbox_filters_def)
  moreover have "\<not> outside_scope scope (mailbox_filters scope request)" "\<not> outside_scope scope (mailbox_counts_filters scope)"
    by (simp_all add: outside_scope_def mailbox_filters_def mailbox_counts_filters_def)
  ultimately show ?thesis
    by (simp add: select_matching_def submit_matching_list_def submit_count_def Let_def comp_def
        selection_candidate_def row_candidate_def[abs_def])
qed

section \<open>Every listed message is current\<close>

text \<open>In one mailbox a message id and a parent belong to one row.\<close>

lemma mailbox_unique:
  assumes "mail_ok rows" "x \<in> set rows" "y \<in> set rows" "in_mailbox scope x" "in_mailbox scope y"
    "mc_message_id x = Some i" "mc_message_id y = Some i"
  shows "x = y"
  using assms mailboxes.clash_unique[of rows x y]
  by (auto simp: mail_ok_def mail_clash_def in_mailbox_def)

lemma distinct_row_ids:
  assumes "mail_ok rows"
  shows "distinct ms \<Longrightarrow> (\<And>m. m \<in> set ms \<Longrightarrow> m \<in> set rows \<and> in_mailbox scope m)
    \<Longrightarrow> distinct (ids_of (map (row_envelope d) ms))"
proof (induction ms)
  case (Cons m ms)
  have cols: "columns_ok x" if "x \<in> set rows" for x using assms that by (auto simp: mail_ok_def list_all_iff)
  have rest: "distinct (ids_of (map (row_envelope d) ms))" using Cons by simp
  have id: "me_message_id (row_envelope d x) = mc_message_id x" if "x \<in> set (m # ms)" for x
    using row_envelope_sel(5) cols Cons.prems(2) that by blast
  have "i \<notin> set (ids_of (map (row_envelope d) ms))" if i: "mc_message_id m = Some i" for i
  proof
    assume "i \<in> set (ids_of (map (row_envelope d) ms))"
    then obtain x where "x \<in> set ms" "mc_message_id x = Some i" using id by (auto simp: set_ids_of)
    then have "m = x" using mailbox_unique[OF assms _ _ _ _ i] Cons.prems(2) by auto
    then show False using Cons.prems(1) \<open>x \<in> set ms\<close> by simp
  qed
  then show ?case
    using rest id[of m] by (auto simp: ids_of_def List.map_filter_simps split: option.split)
qed (simp add: ids_of_def List.map_filter_simps)

lemma current_no_successor:
  assumes ok: "mail_ok (db_mail_messages d)"
    and ms: "\<And>m. m \<in> set ms \<Longrightarrow> m \<in> set (db_mail_messages d) \<and> in_mailbox scope m \<and> visible_row now d m"
    and m: "m \<in> set (db_mail_messages d)" "in_mailbox scope m" "current_row now d m" "mc_message_id m = Some i"
  shows "\<not> has_successor (map (row_envelope d) ms) i"
proof
  assume "has_successor (map (row_envelope d) ms) i"
  then obtain x where x: "x \<in> set ms" "me_parent_message_id (row_envelope d x) = Some i"
    by (auto simp: has_successor_iff)
  have "columns_ok x" using ok ms[OF x(1)] by (auto simp: mail_ok_def list_all_iff)
  then have "mc_parent_message_id x = mc_message_id m" using x(2) m(4) row_envelope_sel(6) by simp
  then show False using ms[OF x(1)] m by (auto simp: current_row_def list_ex_iff in_mailbox_def)
qed

lemma terminal_if_no_successor: "\<not> has_successor ms i \<Longrightarrow> is_terminal ms i"
  unfolding is_terminal_def terminal_id_def by (subst terminal_loop.simps) (simp add: no_successor)

lemma matching_current:
  assumes "mail_ok (db_mail_messages d)" "m \<in> set (matching_rows now scope request limit d)"
  shows "current_in (map (row_envelope d) (matching_rows now scope request limit d)) (row_envelope d m)"
proof (cases "mc_message_id m")
  case None
  then show ?thesis using assms matching_row(1)[OF assms(2)] row_envelope_sel(5)[of m d]
    by (auto simp: mail_ok_def list_all_iff)
next
  case (Some i)
  have "\<not> has_successor (map (row_envelope d) (matching_rows now scope request limit d)) i"
    using current_no_successor[OF assms(1) _ matching_row(1,2,4)[OF assms(2)] Some] matching_row by blast
  then show ?thesis
    using assms matching_row(1)[OF assms(2)] row_envelope_sel(5)[of m d] Some terminal_if_no_successor
    by (auto simp: mail_ok_def list_all_iff)
qed

lemma matching_distinct:
  assumes "mail_ok (db_mail_messages d)"
  shows "distinct (ids_of (map (row_envelope d) (matching_rows now scope request limit d)))"
proof (rule distinct_row_ids[OF assms])
  have "distinct (db_mail_messages d)" using assms mail_distinct by (simp add: mail_ok_def)
  then show "distinct (matching_rows now scope request limit d)"
    unfolding matching_rows_def by (intro distinct_limited) simp
qed (use matching_row in blast)

section \<open>An update is listed with its own text\<close>

lemma matching_effective:
  fixes d scope
  defines "ms \<equiv> \<lambda>rows. map (row_envelope d) rows"
  assumes "mail_ok (db_mail_messages d)"
  shows "map (effective_display_envelope (ms (matching_rows now scope request limit d)))
      (ms (matching_rows now scope request limit d)) = ms (matching_rows now scope request limit d)"
  unfolding ms_def map_map
  by (rule map_cong[OF refl], drule matching_current[OF assms(2)])
    (auto simp: effective_display_envelope_def split: option.splits)

text \<open>The predecessor of a listed message is not listed, so there is no context to compose.\<close>

lemma listed_own_text:
  assumes ok: "mail_ok (db_mail_messages d)" and m: "m \<in> set (matching_rows now scope request limit d)"
    and p: "mc_parent_message_id m = Some p"
  shows "logical_of (map (row_envelope d) (matching_rows now scope request limit d)) (row_envelope d m) = row_envelope d m"
proof (cases "mc_message_id m")
  case None
  then show ?thesis using ok matching_row(1)[OF m] row_envelope_sel(5)[of m d]
    by (auto simp: logical_of_def mail_ok_def list_all_iff)
next
  case (Some i)
  let ?ms = "map (row_envelope d) (matching_rows now scope request limit d)"
  have cols: "columns_ok x" if "x \<in> set (matching_rows now scope request limit d)" for x
    using ok matching_row(1)[OF that] by (auto simp: mail_ok_def list_all_iff)
  have links: "me_message_id (row_envelope d m) = Some i" "me_parent_message_id (row_envelope d m) = Some p"
    using row_envelope_sel(5,6)[OF cols[OF m]] Some p by simp_all
  then have terminal: "terminal_id ?ms i = Some i"
    using matching_current[OF ok m] by (simp add: is_terminal_def)
  have found: "thread_message ?ms i = Some (row_envelope d m)"
    using thread_message_distinct[OF matching_distinct[OF ok] _ links(1)] m by simp
  have "p \<notin> set (ids_of ?ms)"
  proof
    assume "p \<in> set (ids_of ?ms)"
    then obtain x where x: "x \<in> set (matching_rows now scope request limit d)" "mc_message_id x = Some p"
      using row_envelope_sel(5)[OF cols] by (auto simp: set_ids_of)
    have "\<not> has_successor ?ms p"
      using current_no_successor[OF ok _ matching_row(1,2,4)[OF x(1)] x(2)] matching_row by blast
    then show False using m links(2) by (auto simp: has_successor_iff)
  qed
  then have "root_loop ?ms [i] p = None"
    by (subst root_loop.simps) (simp add: thread_message_None[THEN iffD2])
  then have "root_id ?ms i = None"
    unfolding root_id_def by (subst root_loop.simps) (simp add: found links)
  then have "chain_messages ?ms i = []" by (simp add: chain_messages_def)
  then show ?thesis
    by (simp add: logical_of_def links logical_current_envelope_def terminal found composed_text_def
        truncated_text_def)
qed

section \<open>Agreement with the selection over the whole mailbox\<close>

definition mailbox_rows :: "IsoTimestamp \<Rightarrow> MailboxScope \<Rightarrow> db \<Rightarrow> MailCols list" where
  "mailbox_rows now scope d =
     newest_first (filter (\<lambda>m. in_mailbox scope m \<and> visible_row now d m) (db_mail_messages d))"

text \<open>The acknowledgement columns follow the stored envelope: only a message that asks for one and is
  not itself an acknowledgement has one pending, an acknowledgement is not forgotten, and what is
  acknowledged has been read.\<close>

definition ack_consistent :: "db \<Rightarrow> MailCols \<Rightarrow> bool" where
  "ack_consistent d m \<longleftrightarrow>
     (let e = mc_envelope_json m in
      (se_pending_ack_at e \<noteq> None \<longrightarrow> se_acknowledges_message_id e = None)
      \<and> (case row_state d m of
           None \<Rightarrow> True
         | Some s \<Rightarrow> (sc_pending_ack_at s \<noteq> None \<longrightarrow> se_pending_ack_at e \<noteq> None)
             \<and> (sc_acknowledged_at s = None \<longrightarrow> se_acknowledged_at e = None))
      \<and> (sql_acknowledged_at d m \<noteq> None \<longrightarrow> sql_read d m))"

text \<open>No thread of the mailbox runs in a circle.\<close>

definition threads_end :: "MessageEnvelope list \<Rightarrow> bool" where
  "threads_end ms \<longleftrightarrow> (\<forall>i\<in>set (ids_of ms). is_terminal ms i \<longrightarrow> \<not> has_successor ms i)"

lemma bucket_of_row:
  assumes "ack_consistent d m"
  shows "envelope_bucket (row_envelope d m) = PendingAckBucket \<longleftrightarrow> sql_pending d m"
    "envelope_bucket (row_envelope d m) = UnreadBucket \<longleftrightarrow> sql_unread d m"
proof -
  let ?e = "row_envelope d m" and ?j = "mc_envelope_json m"
  have "me_requires_ack ?e \<longleftrightarrow> sql_pending_ack_at d m \<noteq> None"
    "me_acknowledged_at ?e = sql_acknowledged_at d m" "me_read ?e = sql_read d m"
    using assms
    by (auto simp: ack_consistent_def row_envelope_def apply_state_def decode_envelope_def Let_def
        MessageEnvelope_from_def raw_of_storage_def raw_task_fields_def sql_pending_ack_at_def
        sql_acknowledged_at_def sql_read_def coalesce_def split: option.splits)
  then show "envelope_bucket ?e = PendingAckBucket \<longleftrightarrow> sql_pending d m"
    "envelope_bucket ?e = UnreadBucket \<longleftrightarrow> sql_unread d m"
    using assms
    by (auto simp: envelope_bucket_def classify_message_def derive_read_state_def derive_ack_state_def
        derive_ack_requirement_def display_bucket_for_class_def sql_pending_def sql_unread_def
        ack_consistent_def Let_def)
qed

lemma mailbox_row:
  "m \<in> set (mailbox_rows now scope d) \<longleftrightarrow>
     m \<in> set (db_mail_messages d) \<and> in_mailbox scope m \<and> visible_row now d m"
  by (auto simp: mailbox_rows_def)

lemma mailbox_rows_distinct:
  assumes "mail_ok (db_mail_messages d)"
  shows "distinct (ids_of (map (row_envelope d) (mailbox_rows now scope d)))"
proof (rule distinct_row_ids[OF assms])
  have "distinct (db_mail_messages d)" using assms mail_distinct by (simp add: mail_ok_def)
  then show "distinct (mailbox_rows now scope d)" unfolding mailbox_rows_def by simp
qed (use mailbox_row in blast)

lemma mailbox_current:
  assumes "mail_ok (db_mail_messages d)" "threads_end (map (row_envelope d) (mailbox_rows now scope d))"
    "m \<in> set (mailbox_rows now scope d)"
  shows "current_in (map (row_envelope d) (mailbox_rows now scope d)) (row_envelope d m) \<longleftrightarrow> current_row now d m"
proof (cases "mc_message_id m")
  case None
  then show ?thesis using assms row_envelope_sel(5)[of m d]
    by (auto simp: mail_ok_def list_all_iff mailbox_row current_row_def)
next
  case (Some i)
  let ?ms = "map (row_envelope d) (mailbox_rows now scope d)"
  have cols: "columns_ok x" if "x \<in> set (mailbox_rows now scope d)" for x
    using assms(1) that by (auto simp: mail_ok_def list_all_iff mailbox_row)
  have id: "me_message_id (row_envelope d m) = Some i" using row_envelope_sel(5)[OF cols[OF assms(3)]] Some by simp
  have "current_row now d m" if "\<not> has_successor ?ms i"
  proof (rule ccontr)
    assume "\<not> current_row now d m"
    then obtain x where "x \<in> set (mailbox_rows now scope d)" "mc_parent_message_id x = Some i"
      using assms(3) Some by (auto simp: current_row_def list_ex_iff mailbox_row in_mailbox_def)
    then show False using that row_envelope_sel(6)[OF cols, of x d] by (auto simp: has_successor_iff)
  qed
  moreover have "\<not> has_successor ?ms i" if "current_row now d m"
    using current_no_successor[OF assms(1) _ _ _ that Some] assms(3) mailbox_row by blast
  moreover have "is_terminal ?ms i \<longleftrightarrow> \<not> has_successor ?ms i"
  proof -
    have "i \<in> set (ids_of ?ms)" using assms(3) id by (auto simp: set_ids_of)
    then show ?thesis using assms(2) terminal_if_no_successor by (auto simp: threads_end_def)
  qed
  ultimately show ?thesis using id by auto
qed

lemma accepted_matches:
  assumes "columns_ok m" "ack_consistent d m" "in_mailbox scope m" "visible_row now d m"
    "rq_message_id_filter request = None" "rq_contains_filter request = None"
    "accepts now request (mc_message_key m, envelope_bucket (row_envelope d m), row_envelope d m)"
  shows "matches_filters now (mailbox_filters scope request) d m \<longleftrightarrow> current_row now d m"
proof -
  have acc: "rq_sender_filter request = None \<or> rq_sender_filter request = Some (mc_from_agent m)"
    "rq_task_filter request = None \<or> se_task_id (mc_envelope_json m) = rq_task_filter request"
    "case rq_timestamp_filter request of None \<Rightarrow> True | Some s \<Rightarrow> s \<le> mc_message_at m"
    "selected_by (rq_selection_mode request) (envelope_bucket (row_envelope d m))"
    using assms(7) row_envelope_sel(2)[of d m] row_envelope_sel(3,4)[OF assms(1), of d]
    by (auto simp: accepts_def split: option.splits)
  have "case rq_selection_mode request of SelectActionable \<Rightarrow> sql_pending d m \<or> sql_unread d m
      | SelectUnread \<Rightarrow> sql_unread d m | SelectPendingAck \<Rightarrow> sql_pending d m | SelectAll \<Rightarrow> True"
    using acc(4) bucket_of_row[OF assms(2)] by (auto simp: selected_by_def split: ReadSelection.splits)
  then show ?thesis
    using acc(1-3) assms(3-6)
    by (auto simp: matches_filters_def scalar_filters_def equals_filter_def content_filter_def time_filters_def
        message_state_filters_def mailbox_filters_def default_filters_def in_mailbox_def
        split: option.splits ReadSelection.splits)
qed

lemma unlimited_rows:
  "matching_rows now scope request None d
    = filter (matches_filters now (mailbox_filters scope request) d) (mailbox_rows now scope d)"
proof -
  have "matches_filters now (mailbox_filters scope request) d m \<Longrightarrow> in_mailbox scope m \<and> visible_row now d m" for m
    by (auto simp: matches_filters_def scalar_filters_def equals_filter_def message_state_filters_def
        mailbox_filters_def in_mailbox_def)
  then have "filter (matches_filters now (mailbox_filters scope request) d) (db_mail_messages d)
      = filter (matches_filters now (mailbox_filters scope request) d)
          (filter (\<lambda>m. in_mailbox scope m \<and> visible_row now d m) (db_mail_messages d))"
    by (auto intro!: filter_cong)
  then show ?thesis
    by (simp add: matching_rows_def mailbox_rows_def limited_def newest_first_def rev_filter[symmetric] filter_sort)
qed

lemma reader_agrees:
  assumes ok: "mail_ok (db_mail_messages d)"
    and filters: "rq_message_id_filter request = None" "rq_contains_filter request = None"
    and rows: "list_all (ack_consistent d) (mailbox_rows now scope d)"
      "threads_end (map (row_envelope d) (mailbox_rows now scope d))"
  shows "map sm_message_key (sr_selected (select_mailbox_candidates now request
        (map (row_candidate d) (matching_rows now scope request None d))))
    = map sm_message_key (sr_selected (select_mailbox_candidates now request
        (map (row_candidate d) (mailbox_rows now scope d))))"
proof -
  let ?sel = "\<lambda>rows. filter (\<lambda>m. shown_candidate now request (map (row_envelope d) rows) (row_candidate d m)) rows"
  have envs: "map ca_envelope (map (row_candidate d) rows) = map (row_envelope d) rows" for rows
    by (simp add: row_candidate_def comp_def)
  have keys: "map sm_message_key (sr_selected (select_mailbox_candidates now request (map (row_candidate d) rows)))
      = map mc_message_key (?sel rows)" if "distinct (ids_of (map (row_envelope d) rows))" for rows
    using arg_cong[OF selected_entries[OF filters, of "map (row_candidate d) rows" now, unfolded envs, OF that],
        of "map fst"]
    by (simp add: comp_def filter_map row_candidate_def)
  have "shown_candidate now request (map (row_envelope d) (matching_rows now scope request None d)) (row_candidate d m)
      \<and> matches_filters now (mailbox_filters scope request) d m
      \<longleftrightarrow> shown_candidate now request (map (row_envelope d) (mailbox_rows now scope d)) (row_candidate d m)"
    if m: "m \<in> set (mailbox_rows now scope d)" for m
  proof -
    have "columns_ok m" "in_mailbox scope m" "visible_row now d m" "ack_consistent d m"
      using ok m rows(1) by (auto simp: mail_ok_def list_all_iff mailbox_row)
    note match = accepted_matches[OF this(1,4,2,3) filters]
    have "matches_filters now (mailbox_filters scope request) d m
        \<Longrightarrow> current_in (map (row_envelope d) (matching_rows now scope request None d)) (row_envelope d m)"
      using matching_current[OF ok, of m now scope request None] m by (simp add: unlimited_rows)
    then show ?thesis
      using mailbox_current[OF ok rows(2) m] match by (auto simp: shown_candidate_def row_candidate_def)
  qed
  then have "?sel (matching_rows now scope request None d) = ?sel (mailbox_rows now scope d)"
    unfolding unlimited_rows filter_filter by (intro filter_cong) (auto simp: unlimited_rows)
  then show ?thesis
    using keys[OF matching_distinct[OF ok]] keys[OF mailbox_rows_distinct[OF ok]] by simp
qed

section \<open>Reading one message\<close>

lemma row_candidates [simp]: "map ca_envelope (map (row_candidate d) rows) = map (row_envelope d) rows"
  by (simp add: row_candidate_def comp_def)

lemma limit_one: "limited (Some 1) xs = (case xs of [] \<Rightarrow> [] | x # _ \<Rightarrow> [x])"
  by (cases xs) (simp_all add: limited_def)

definition accepted_row :: "IsoTimestamp \<Rightarrow> MailboxSelectionRequest \<Rightarrow> db \<Rightarrow> MailCols \<Rightarrow> bool" where
  "accepted_row now request d m =
     accepts now request (mc_message_key m, envelope_bucket (row_envelope d m), row_envelope d m)"

text \<open>A read fetches the newest row of the query and shows it if the filters in memory accept it.\<close>

lemma first_row:
  assumes "mail_ok (db_mail_messages d)" "rq_message_id_filter request = None" "rq_contains_filter request = None"
    "matching_rows now scope request (Some 1) d = [m]"
  shows "map sm_message_key (sr_selected (select_mailbox_candidates now request [row_candidate d m]))
    = (if accepted_row now request d m then [mc_message_key m] else [])"
proof -
  have m: "m \<in> set (matching_rows now scope request (Some 1) d)" using assms(4) by simp
  have "shown_candidate now request (map (row_envelope d) [m]) (row_candidate d m) \<longleftrightarrow> accepted_row now request d m"
    using matching_current[OF assms(1) m, unfolded assms(4)]
    by (simp add: shown_candidate_def accepted_row_def row_candidate_def cong: option.case_cong)
  moreover have "distinct (ids_of (map ca_envelope [row_candidate d m]))"
    using matching_distinct[OF assms(1), of now scope request "Some 1", unfolded assms(4)]
    by (simp add: row_candidate_def)
  note arg_cong[OF selected_entries[OF assms(2,3) this, of now], of "map fst"]
  ultimately show ?thesis by (simp add: comp_def row_candidate_def)
qed

lemma sort_and_limit_one:
  "length xs \<le> 1 \<Longrightarrow> sort_and_limit_mailbox_selection (Some 1) xs = xs"
  by (cases xs) (simp_all add: sort_and_limit_mailbox_selection_def Let_def)

lemma read_first_row:
  assumes "mail_ok (db_mail_messages d)" "rq_message_id_filter request = None" "rq_contains_filter request = None"
  shows "\<exists>sel. read_selection now scope request d
      = Inr (sel, length (matching_rows now scope request None d))
    \<and> map sm_message_key (sr_selected sel) = (case matching_rows now scope request None d of
        [] \<Rightarrow> [] | m # _ \<Rightarrow> if accepted_row now request d m then [mc_message_key m] else [])"
proof -
  let ?rows = "matching_rows now scope request (Some 1) d"
  let ?sel = "select_mailbox_candidates now request (map (row_candidate d) ?rows)"
  have rows: "?rows = (case matching_rows now scope request None d of [] \<Rightarrow> [] | m # _ \<Rightarrow> [m])"
    unfolding matching_rows_def limit_one by (simp add: limited_def)
  have keys: "map sm_message_key (sr_selected ?sel) = (case matching_rows now scope request None d of
        [] \<Rightarrow> [] | m # _ \<Rightarrow> if accepted_row now request d m then [mc_message_key m] else [])"
  proof (cases "matching_rows now scope request None d")
    case Nil
    then have "?rows = []" using rows by simp
    then show ?thesis unfolding Nil \<open>?rows = []\<close> using selected_entries[OF assms(2,3), of "[]" now]
      by (simp add: ids_of_def List.map_filter_simps)
  next
    case (Cons m ms)
    then have row: "?rows = [m]" using rows by simp
    show ?thesis unfolding Cons row using first_row[OF assms row] by simp
  qed
  have "length (sr_selected ?sel) \<le> 1"
    using arg_cong[OF keys, of length] by (simp split: list.splits if_splits)
  then have "sort_and_limit_mailbox_selection (Some 1) (sr_selected ?sel) = sr_selected ?sel"
    by (rule sort_and_limit_one)
  moreover have "count_all now (mailbox_filters scope request) d = length (matching_rows now scope request None d)"
    by (simp add: count_all_def matching_rows_def limited_def newest_first_def)
  moreover have "\<not> outside_scope scope (mailbox_filters scope request)"
    by (simp add: outside_scope_def mailbox_filters_def)
  ultimately show ?thesis
    using keys
    by (simp add: read_selection_def select_one_for_read_def select_matching_rows[OF assms(1)] submit_count_def)
qed

section \<open>What a read changes\<close>

text \<open>Marking one message changes the read flag of its state row, and nothing else a query looks at.\<close>

lemma read_state_row:
  assumes "execute_read_display_state env team agent [key] w p d = Inr d'"
  shows "db_mail_messages d' = db_mail_messages d"
    "\<exists>g. (\<forall>s. sc_team (g s) = sc_team s \<and> sc_agent (g s) = sc_agent s \<and> sc_message_key (g s) = sc_message_key s
          \<and> sc_deleted_at (g s) = sc_deleted_at s \<and> sc_expires_at (g s) = sc_expires_at s
          \<and> sc_pending_ack_at (g s) = sc_pending_ack_at s \<and> sc_acknowledged_at (g s) = sc_acknowledged_at s
          \<and> sc_read (g s) = (sc_read s \<or> same_state team agent key s \<and> sc_deleted_at s = None))
       \<and> db_mail_states d' = map g (db_mail_states d)"
    "\<exists>s\<in>set (db_mail_states d). same_state team agent key s"
proof -
  define hit where "hit s \<longleftrightarrow> same_state team agent key s \<and> sc_deleted_at s = None" for s
  define g where "g s = (if hit s then s\<lparr>sc_read := True, sc_updated_at := Some (env_now env),
      sc_nudge_pending_at := (if sc_nudge_pending_at s \<noteq> None \<and> sc_pending_ack_at s \<noteq> None
          \<and> sc_acknowledged_at s = None then Some (next_reminder_due (env_now env)) else None)\<rparr> else s)" for s
  have d': "db_mail_messages d' = db_mail_messages d" "db_mail_states d' = map g (db_mail_states d)"
      "length (filter hit (db_mail_states d)) = 1"
    using assms
    by (auto simp: execute_read_display_state_def bindE_eq_Inr_iff mark_message_read_def Let_def g_def[abs_def]
        hit_def[abs_def] split: if_splits option.splits)
  show "db_mail_messages d' = db_mail_messages d" by (rule d'(1))
  show "\<exists>s\<in>set (db_mail_states d). same_state team agent key s"
    using d'(3) by (auto simp: length_Suc_conv filter_eq_Cons_iff hit_def)
  show "\<exists>g. (\<forall>s. sc_team (g s) = sc_team s \<and> sc_agent (g s) = sc_agent s \<and> sc_message_key (g s) = sc_message_key s
          \<and> sc_deleted_at (g s) = sc_deleted_at s \<and> sc_expires_at (g s) = sc_expires_at s
          \<and> sc_pending_ack_at (g s) = sc_pending_ack_at s \<and> sc_acknowledged_at (g s) = sc_acknowledged_at s
          \<and> sc_read (g s) = (sc_read s \<or> same_state team agent key s \<and> sc_deleted_at s = None))
       \<and> db_mail_states d' = map g (db_mail_states d)"
    by (rule exI[of _ g]) (auto simp: d'(2) g_def hit_def)
qed

lemma read_row_state:
  assumes "execute_read_display_state env team agent [key] w p d = Inr d'"
  shows "sql_pending_ack_at d' m = sql_pending_ack_at d m" "sql_acknowledged_at d' m = sql_acknowledged_at d m"
    "visible_row now d' m = visible_row now d m"
    "\<not> (mc_team m = team \<and> mc_agent m = agent \<and> mc_message_key m = key) \<Longrightarrow> sql_read d' m = sql_read d m"
    "mc_team m = team \<Longrightarrow> mc_agent m = agent \<Longrightarrow> mc_message_key m = key \<Longrightarrow> visible_row now d m \<Longrightarrow> sql_read d' m"
proof -
  obtain g where states: "db_mail_states d' = map g (db_mail_states d)"
    and g: "sc_team (g s) = sc_team s" "sc_agent (g s) = sc_agent s" "sc_message_key (g s) = sc_message_key s"
      "sc_deleted_at (g s) = sc_deleted_at s" "sc_expires_at (g s) = sc_expires_at s"
      "sc_pending_ack_at (g s) = sc_pending_ack_at s" "sc_acknowledged_at (g s) = sc_acknowledged_at s"
      "sc_read (g s) = (sc_read s \<or> same_state team agent key s \<and> sc_deleted_at s = None)" for s
    using read_state_row(2)[OF assms] by blast
  have row: "row_state d' m = map_option g (row_state d m)"
    by (simp add: row_state_def find_state_def states find_map comp_def same_state_def g cong: find_cong)
  show "sql_pending_ack_at d' m = sql_pending_ack_at d m" "sql_acknowledged_at d' m = sql_acknowledged_at d m"
    "visible_row now d' m = visible_row now d m"
    by (cases "row_state d m"; simp add: sql_pending_ack_at_def sql_acknowledged_at_def visible_row_def
        sql_expires_at_def row g)+
  have same: "same_state (mc_team m) (mc_agent m) (mc_message_key m) s" if "row_state d m = Some s" for s
    using that by (auto simp: row_state_def find_state_def find_Some_iff)
  show "sql_read d' m = sql_read d m" if "\<not> (mc_team m = team \<and> mc_agent m = agent \<and> mc_message_key m = key)"
    using that same by (auto simp: sql_read_def row g same_state_def split: option.split)
  show "sql_read d' m" if m: "mc_team m = team" "mc_agent m = agent" "mc_message_key m = key" "visible_row now d m"
  proof -
    obtain s where s: "row_state d m = Some s"
      using read_state_row(3)[OF assms] m(1-3) by (cases "row_state d m") (auto simp: row_state_def find_state_def find_None_iff)
    then show ?thesis using same[OF s] m by (simp add: sql_read_def row g visible_row_def)
  qed
qed

lemma read_matches:
  assumes read: "execute_read_display_state env (ms_team scope) (ms_agent scope) [mc_message_key m] w p d = Inr d'"
    and ok: "mail_ok (db_mail_messages d)" and mode: "rq_selection_mode request = SelectUnread"
    and m: "m \<in> set (db_mail_messages d)" "in_mailbox scope m"
    and x: "x \<in> set (db_mail_messages d)"
  shows "matches_filters now (mailbox_filters scope request) d' x
    \<longleftrightarrow> matches_filters now (mailbox_filters scope request) d x \<and> x \<noteq> m"
proof -
  note same = read_row_state(1-3)[OF read] read_state_row(1)[OF read]
  have key_unique: "in_mailbox scope x \<Longrightarrow> mc_message_key x = mc_message_key m \<Longrightarrow> x = m"
    using ok x m mailboxes.clash_unique[of "db_mail_messages d" x m] by (auto simp: mail_ok_def mail_clash_def in_mailbox_def)
  have "current_row now d' x = current_row now d x" by (simp add: current_row_def same)
  moreover have "visible_row now d x \<Longrightarrow> in_mailbox scope x \<Longrightarrow> sql_read d' x = (sql_read d x \<or> x = m)"
    using read_row_state(4)[OF read, of x] read_row_state(5)[OF read, of m now] m key_unique
    by (auto simp: in_mailbox_def)
  ultimately show ?thesis
    using mode by (auto simp: matches_filters_def scalar_filters_def message_state_filters_def mailbox_filters_def
        default_filters_def equals_filter_def in_mailbox_def sql_unread_def same)
qed

lemma read_removes_row:
  assumes "execute_read_display_state env (ms_team scope) (ms_agent scope) [mc_message_key m] w p d = Inr d'"
    "mail_ok (db_mail_messages d)" "rq_selection_mode request = SelectUnread"
    "m \<in> set (matching_rows now scope request None d)"
  shows "matching_rows now scope request None d' = filter (\<lambda>x. x \<noteq> m) (matching_rows now scope request None d)"
    "length (matching_rows now scope request None d) = Suc (length (matching_rows now scope request None d'))"
proof -
  note m = matching_row(1,2)[OF assms(4)]
  have "filter (matches_filters now (mailbox_filters scope request) d') (db_mail_messages d')
      = filter (\<lambda>x. x \<noteq> m) (filter (matches_filters now (mailbox_filters scope request) d) (db_mail_messages d))"
    unfolding read_state_row(1)[OF assms(1)] filter_filter
    using read_matches[OF assms(1-3) m] by (intro filter_cong) auto
  then show rows: "matching_rows now scope request None d' = filter (\<lambda>x. x \<noteq> m) (matching_rows now scope request None d)"
    by (simp add: matching_rows_def limited_def newest_first_def rev_filter[symmetric] filter_sort)
  have "distinct (matching_rows now scope request None d)"
    using assms(2) mail_distinct by (simp add: matching_rows_def limited_def mail_ok_def)
  then have "length (filter (\<lambda>x. x = m) (matching_rows now scope request None d)) = 1"
    using assms(4) distinct_length_filter[of "matching_rows now scope request None d" "\<lambda>x. x = m"]
    by (simp add: Int_absorb1 subset_iff Collect_conv_if)
  then show "length (matching_rows now scope request None d) = Suc (length (matching_rows now scope request None d'))"
    using sum_length_filter_compl[of "\<lambda>x. x = m" "matching_rows now scope request None d"] rows by simp
qed

end
