(* ===== verification/Reader_Properties.thy ===== *)
theory Reader_Properties
  imports Reader_Selection Scenario
begin

text \<open>
  Properties of message threads and of the mailbox read path, each with an instance on a mailbox with
  an updated message.
\<close>

section \<open>A mailbox with a thread\<close>

definition posted :: "nat \<Rightarrow> string \<Rightarrow> AtmMessageId option \<Rightarrow> string option \<Rightarrow> Message" where
  "posted n body parent chat =
     (let m = letter ''L'' ''W'' n ''a'' None
      in m\<lparr>msg_envelope := (msg_envelope m)\<lparr>me_text := body, me_task_id := None, me_parent_message_id := parent,
           me_thread_mode := (if parent = None then None else Some AddDetails), me_destination_chat_id := chat\<rparr>\<rparr>)"

definition root_note :: Message where "root_note = posted 1 ''one'' None None"
definition update_note :: Message where "update_note = posted 2 ''two'' (Some 1) None"
definition chat_note :: Message where "chat_note = posted 3 ''three'' None (Some ''c'')"

definition thread_ms :: "MessageEnvelope list" where
  "thread_ms = [msg_envelope root_note, msg_envelope update_note]"

lemma notes_valid [simp]: "valid_message root_note" "valid_message update_note" "valid_message chat_note"
  by code_simp+

lemma linear_Nil: "linear_mailbox []"
  by (simp add: linear_mailbox_def ids_of_def List.map_filter_simps successor_count_def thread_children_def)

lemma ack_Nil: "ack_inherited []"
  by (simp add: ack_inherited_def)

lemma prepared_root: "prepare_threaded_message (\<lambda>_. []) (msg_envelope root_note) [] = Inr (msg_envelope root_note)"
  by code_simp

lemma prepared_update:
  "prepare_threaded_message (\<lambda>_. []) (msg_envelope update_note) [msg_envelope root_note]
    = Inr (msg_envelope update_note)"
  by code_simp

lemma fresh_notes:
  "fresh_message (msg_envelope root_note) []" "fresh_message (msg_envelope update_note) [msg_envelope root_note]"
  by (simp_all add: fresh_message_def ids_of_def List.map_filter_simps root_note_def update_note_def posted_def
      letter_def Let_def)

lemma root_linear: "linear_mailbox [msg_envelope root_note] \<and> ack_inherited [msg_envelope root_note]"
  using prepare_keeps_linear[OF linear_Nil ack_Nil fresh_notes(1) prepared_root] by simp

lemma thread_linear: "linear_mailbox thread_ms"
  using prepare_keeps_linear[OF _ _ fresh_notes(2) prepared_update] root_linear by (simp add: thread_ms_def)

lemma thread_ids: "ids_of thread_ms = [1, 2]"
  by code_simp

section \<open>Threads\<close>

text \<open>Property C18: a message that passes the validation of thread updates keeps the threads of the
  mailbox linear: ids stay unique, no message has two successors, and every message leads back to a root;
  it also takes over the acknowledgement requirement of the message it updates.\<close>

theorem updates_keep_threads_linear:
  assumes "linear_mailbox ms" "ack_inherited ms" "fresh_message e ms"
    "prepare_threaded_message ulid_str e ms = Inr e'"
  shows "linear_mailbox (ms @ [e']) \<and> ack_inherited (ms @ [e'])"
  using assms by (rule prepare_keeps_linear)

theorem updates_keep_threads_linear_witness:
  "prepare_threaded_message (\<lambda>_. []) (msg_envelope update_note) [msg_envelope root_note]
      = Inr (msg_envelope update_note)
    \<and> linear_mailbox ([msg_envelope root_note] @ [msg_envelope update_note])"
  using updates_keep_threads_linear[OF _ _ fresh_notes(2) prepared_update] root_linear prepared_update by blast

text \<open>Property C19: on a mailbox with linear threads the selection shows exactly one message for every
  thread: as many messages as there are roots, and for every message of the mailbox the last one of its
  thread.\<close>

theorem each_thread_shown_once:
  assumes "linear_mailbox (map ca_envelope cs)"
  shows "length (logical_current_messages (classify_candidates cs))
      = length (filter (\<lambda>c. me_parent_message_id (ca_envelope c) = None) cs)
    \<and> (\<forall>c\<in>set cs. \<forall>i. me_message_id (ca_envelope c) = Some i \<longrightarrow>
        (\<exists>t m. terminal_id (map ca_envelope cs) i = Some t
          \<and> m \<in> set (logical_current_messages (classify_candidates cs)) \<and> me_message_id (cm_envelope m) = Some t))"
  using thread_shown_once[OF assms] by blast

definition thread_candidates :: "MailboxSelectionCandidate list" where
  "thread_candidates = map (\<lambda>e. \<lparr>ca_message_key = ''k'', ca_envelope = e\<rparr>) thread_ms"

lemma candidate_envelopes: "map ca_envelope thread_candidates = thread_ms"
  by (simp add: thread_candidates_def comp_def)

theorem each_thread_shown_once_witness:
  "length thread_candidates = 2 \<and> length (logical_current_messages (classify_candidates thread_candidates)) = 1"
proof -
  have "length (filter (\<lambda>c. me_parent_message_id (ca_envelope c) = None) thread_candidates) = 1"
    "length thread_candidates = 2" by code_simp+
  then show ?thesis
    using each_thread_shown_once[of thread_candidates] thread_linear by (simp add: candidate_envelopes)
qed

text \<open>Property C20: the current message of a linear thread is its last one. One that adds details is shown
  with the text of its predecessors joined to it, in full when it fits and never longer than 256 KiB; any
  other is shown as it is.\<close>

theorem thread_text_bounded:
  assumes "linear_mailbox ms" "i \<in> set (ids_of ms)"
  shows "\<exists>e. logical_current_envelope ms i = Some e
    \<and> (let chain = chain_messages ms i; l = last chain in
       e = l\<lparr>me_text := me_text e\<rparr>
       \<and> (me_thread_mode l = Some AddDetails \<and> trim (me_text l) \<noteq> [] \<longrightarrow>
            length (me_text e) \<le> MAX_LOGICAL_THREAD_TEXT_BYTES
            \<and> (length (composed_text chain) \<le> MAX_LOGICAL_THREAD_TEXT_BYTES \<longrightarrow> me_text e = composed_text chain))
       \<and> (me_thread_mode l \<noteq> Some AddDetails \<longrightarrow> e = l))"
proof -
  obtain ts where "lineage ms ts" "map me_message_id (chain_messages ms i) = map Some (rev ts)"
    using linear_thread[OF assms] by blast
  then have chain: "chain_messages ms i \<noteq> []" using lineage_not_Nil by fastforce
  have "truncated_text t = [] \<Longrightarrow> t = []" for t
    by (auto simp: truncated_text_def TRUNCATED_THREAD_CONTEXT_SENTINEL_def split: if_splits)
  then have "truncated_text (composed_text (chain_messages ms i)) \<noteq> []"
    if "trim (me_text (last (chain_messages ms i))) \<noteq> []" using composed_text_Nil[OF chain] that by blast
  moreover have "truncated_text t = t" if "length t \<le> MAX_LOGICAL_THREAD_TEXT_BYTES" for t
    using that by (simp add: truncated_text_def)
  ultimately show ?thesis
    unfolding linear_logical_current[OF assms]
    using truncated_text_length[of "composed_text (chain_messages ms i)"] by (auto simp: Let_def)
qed

theorem thread_text_bounded_witness:
  "map_option me_text (logical_current_envelope thread_ms 1) = Some (''one'' @ [newline, newline] @ ''two'')"
proof -
  have chain: "chain_messages thread_ms 1 = thread_ms" by code_simp
  have t: "composed_text thread_ms = ''one'' @ [newline, newline] @ ''two''"
    "me_thread_mode (last thread_ms) = Some AddDetails" "trim (me_text (last thread_ms)) \<noteq> []" by code_simp+
  have "length (composed_text thread_ms) \<le> MAX_LOGICAL_THREAD_TEXT_BYTES"
    by (simp add: t(1) MAX_LOGICAL_THREAD_TEXT_BYTES_def)
  then obtain e where "logical_current_envelope thread_ms 1 = Some e" "me_text e = composed_text thread_ms"
    using thread_text_bounded[OF thread_linear, of 1, unfolded chain Let_def] t(2,3) unfolding thread_ids by auto
  then show ?thesis using t(1) by simp
qed

section \<open>Reading a mailbox\<close>

text \<open>Property C23: the counts of a selection agree with what it selects: a request for the unread, the
  pending or the actionable messages without other filters selects as many messages as the counts
  announce.\<close>

theorem counts_match_selection:
  assumes "mode \<noteq> SelectAll"
  shows "length (sr_selected (select_mailbox_candidates now (default_request\<lparr>rq_selection_mode := mode\<rparr>) cs))
    = counted_by mode (sr_bucket_counts (select_mailbox_candidates now (default_request\<lparr>rq_selection_mode := mode\<rparr>) cs))"
proof -
  have "hidden_for_selection now e mode = hidden_from_normal_views now e" for e
    using assms by (cases mode) (auto simp: hidden_for_selection_def hidden_from_normal_views_def)
  then show ?thesis by (simp add: unfiltered_selection selection_counts counted_selection)
qed

theorem counts_match_selection_witness:
  "length (sr_selected (select_mailbox_candidates 5 (default_request\<lparr>rq_selection_mode := SelectUnread\<rparr>)
    thread_candidates)) = 1"
proof -
  have "counted_by SelectUnread (sr_bucket_counts (select_mailbox_candidates 5
      (default_request\<lparr>rq_selection_mode := SelectUnread\<rparr>) thread_candidates)) = 1" by code_simp
  then show ?thesis using counts_match_selection[of SelectUnread 5 thread_candidates] by simp
qed

definition mailbox_db :: db where
  "mailbox_db = db_after (UpsertMessage update_note Local) (db_after (UpsertMessage root_note Local)
     (db_after (UpsertMessage chat_note Local) empty_db))"

definition scope0 :: MailboxScope where
  "scope0 = \<lparr>ms_team = ''t'', ms_agent = ''W''\<rparr>"

definition unread0 :: MailboxSelectionRequest where
  "unread0 = default_request\<lparr>rq_selection_mode := SelectUnread\<rparr>"

lemma mailbox_db_ok: "mail_ok (db_mail_messages mailbox_db)"
proof -
  have "store_ok mailbox_db" by (simp add: mailbox_db_def db_after_ok)
  then show ?thesis by (simp add: store_ok_def)
qed

lemma unread0_filters: "rq_message_id_filter unread0 = None" "rq_contains_filter unread0 = None"
  by (simp_all add: unread0_def default_request_def)



text \<open>Property C22: a listed message that updates another is listed with its own stored text. The query
  leaves out the superseded messages, so their text is never joined to it, although the selection would do
  so.\<close>

theorem update_listed_with_own_text:
  assumes "mail_ok (db_mail_messages d)"
    "rq_message_id_filter request = None" "rq_contains_filter request = None"
    "select_matching now scope request limit d = Inr r" "s \<in> set (sr_selected r)"
    "me_parent_message_id (sm_envelope s) = Some p"
  shows "\<exists>m\<in>set (db_mail_messages d). in_mailbox scope m \<and> mc_message_key m = sm_message_key s
    \<and> sm_envelope s = row_envelope d m \<and> me_text (sm_envelope s) = se_text (mc_envelope_json m)"
proof -
  let ?rows = "matching_rows now scope request limit d"
  let ?sel = "sr_selected (select_mailbox_candidates now request (map (row_candidate d) ?rows))"
  have s: "s \<in> set ?sel" using assms(4,5) by (auto simp: select_matching_rows[OF assms(1)])
  have eff: "map (effective_display_envelope (map (row_envelope d) ?rows)) (map (row_envelope d) ?rows)
      = map (row_envelope d) ?rows"
    by (rule matching_effective[OF assms(1)])
  obtain m where m: "m \<in> set ?rows" "sm_message_key s = mc_message_key m"
      "sm_envelope s = logical_of (map (row_envelope d) ?rows) (row_envelope d m)"
    using arg_cong[OF selected_entries[OF assms(2,3), of "map (row_candidate d) ?rows" now, unfolded row_candidates eff,
        OF matching_distinct[OF assms(1)]], of set] imageI[OF s, of "\<lambda>m. (sm_message_key m, sm_envelope m)"]
    by (auto simp: row_candidate_def)
  have "columns_ok m" using assms(1) matching_row(1)[OF m(1)] by (auto simp: mail_ok_def list_all_iff)
  moreover obtain t where "sm_envelope s = (row_envelope d m)\<lparr>me_text := t\<rparr>"
    using logical_of_text[OF matching_distinct[OF assms(1)] _ matching_current[OF assms(1) m(1)]] m by auto
  ultimately have "mc_parent_message_id m = Some p" using assms(6) row_envelope_sel(6)[of m d] by simp
  then show ?thesis
    using listed_own_text[OF assms(1) m(1)] m matching_row(1,2)[OF m(1)] by (auto simp: row_envelope_sel(1))
qed

theorem update_listed_with_own_text_witness:
  "\<exists>r s. select_matching 5 scope0 unread0 None mailbox_db = Inr r \<and> s \<in> set (sr_selected r)
    \<and> sm_message_key s = ''atm:2'' \<and> me_text (sm_envelope s) = ''two''
    \<and> map_option me_text (logical_current_envelope
        (map (row_envelope mailbox_db) (mailbox_rows 5 scope0 mailbox_db)) 2)
      = Some (''one'' @ [newline, newline] @ ''two'')"
proof -
  define r where "r = (case select_matching 5 scope0 unread0 None mailbox_db of
    Inr r \<Rightarrow> r | Inl _ \<Rightarrow> \<lparr>sr_bucket_counts = \<lparr>bc_unread = 0, bc_pending_ack = 0, bc_history = 0\<rparr>, sr_selected = []\<rparr>)"
  have r: "select_matching 5 scope0 unread0 None mailbox_db = Inr r"
    unfolding r_def select_matching_rows[OF mailbox_db_ok] by simp
  have s: "map sm_message_key (sr_selected r) = [''atm:3'', ''atm:2'']"
    "me_parent_message_id (sm_envelope (sr_selected r ! 1)) = Some 1"
    unfolding r_def by code_simp+
  then have mem: "sr_selected r ! 1 \<in> set (sr_selected r)" "sm_message_key (sr_selected r ! 1) = ''atm:2''"
    by (auto simp: map_eq_Cons_conv)
  have "list_all (\<lambda>m. mc_message_key m = ''atm:2'' \<longrightarrow> se_text (mc_envelope_json m) = ''two'') (db_mail_messages mailbox_db)"
    "map_option me_text (logical_current_envelope
        (map (row_envelope mailbox_db) (mailbox_rows 5 scope0 mailbox_db)) 2)
      = Some (''one'' @ [newline, newline] @ ''two'')" by code_simp+
  then show ?thesis
    using update_listed_with_own_text[OF mailbox_db_ok unread0_filters r mem(1) s(2)] r mem
    by (intro exI[of _ r] exI[of _ "sr_selected r ! 1"]) (auto simp: list_all_iff)
qed

text \<open>Property C21: a read takes the newest message the query matches and shows it if the filters applied
  afterwards accept it; otherwise it shows nothing, even if an older matching message would be accepted. The
  count it reports is the number of all matching messages.\<close>

theorem read_shows_newest_match:
  assumes "mail_ok (db_mail_messages d)" "rq_message_id_filter request = None" "rq_contains_filter request = None"
  shows "\<exists>sel. read_selection now scope request d
      = Inr (sel, length (matching_rows now scope request None d))
    \<and> map sm_message_key (sr_selected sel) = (case matching_rows now scope request None d of
        [] \<Rightarrow> [] | m # _ \<Rightarrow> if accepted_row now request d m then [mc_message_key m] else [])"
  using assms by (rule read_first_row)

definition to_agent :: MailboxSelectionRequest where
  "to_agent = unread0\<lparr>rq_participant_filter :=
     Some \<lparr>pf_agent = ''W'', pf_chat_id = None, pf_direction = DirectionTo\<rparr>\<rparr>"

theorem read_shows_newest_match_witness:
  "(\<exists>sel. read_selection 5 scope0 to_agent mailbox_db = Inr (sel, 2) \<and> sr_selected sel = [])
    \<and> map sm_message_key (sr_selected (select_mailbox_candidates 5 to_agent
        (map (row_candidate mailbox_db) (mailbox_rows 5 scope0 mailbox_db)))) = [''atm:2'']"
proof -
  have "length (matching_rows 5 scope0 to_agent None mailbox_db) = 2"
    "(case matching_rows 5 scope0 to_agent None mailbox_db of [] \<Rightarrow> []
      | m # _ \<Rightarrow> if accepted_row 5 to_agent mailbox_db m then [mc_message_key m] else []) = []"
    "rq_message_id_filter to_agent = None" "rq_contains_filter to_agent = None"
    "map sm_message_key (sr_selected (select_mailbox_candidates 5 to_agent
        (map (row_candidate mailbox_db) (mailbox_rows 5 scope0 mailbox_db)))) = [''atm:2'']" by code_simp+
  then show ?thesis using read_shows_newest_match[OF mailbox_db_ok, of to_agent 5 scope0] by simp
qed

text \<open>Property C17: reading an unread message takes it out of the unread messages and leaves the others:
  once the read display state is written for what the read returned, the query matches one message less, and
  none of them is the one that was read.\<close>

theorem read_takes_one:
  assumes "mail_ok (db_mail_messages d)" "rq_message_id_filter request = None" "rq_contains_filter request = None"
    "rq_selection_mode request = SelectUnread"
    "read_selection now scope request d = Inr (sel, n)" "sr_selected sel \<noteq> []"
    "execute_read_display_state env (ms_team scope) (ms_agent scope) (handoff_keys sel)
       (handoff_watermark w sel) p d = Inr d'"
  shows "n = Suc (count_all now (mailbox_filters scope request) d')
    \<and> map mc_message_key (matching_rows now scope request None d')
      = filter (\<lambda>k. k \<notin> set (handoff_keys sel)) (map mc_message_key (matching_rows now scope request None d))"
proof -
  let ?rows = "matching_rows now scope request None"
  have sel: "n = length (?rows d)" "map sm_message_key (sr_selected sel) = (case ?rows d of
      [] \<Rightarrow> [] | m # _ \<Rightarrow> if accepted_row now request d m then [mc_message_key m] else [])"
    using read_first_row[OF assms(1-3), of now scope] assms(5) by auto
  then obtain m where m: "map sm_message_key (sr_selected sel) = [mc_message_key m]" "m \<in> set (?rows d)"
    using assms(6) by (auto split: list.splits if_splits)
  note row = matching_row(1,2)[OF m(2)]
  have "MessageKey_new (mc_message_key m) = Inr (mc_message_key m)"
    using assms(1) row(1) by (intro stored_key_parses) (auto simp: mail_ok_def table_ok_def list_all_iff)
  then have keys: "handoff_keys sel = [mc_message_key m]"
    using m(1) by (auto simp: handoff_keys_def List.map_filter_simps map_eq_Cons_conv)
  note gone = read_removes_row[OF assms(7)[unfolded keys] assms(1,4) m(2)]
  have "x \<noteq> m \<longleftrightarrow> mc_message_key x \<noteq> mc_message_key m" if "x \<in> set (?rows d)" for x
    using assms(1) matching_row(1,2)[OF that] row mailboxes.clash_unique[of "db_mail_messages d" x m]
    by (auto simp: mail_ok_def mail_clash_def in_mailbox_def)
  then have "map mc_message_key (?rows d') = filter (\<lambda>k. k \<noteq> mc_message_key m) (map mc_message_key (?rows d))"
    unfolding gone(1) by (simp add: filter_map comp_def cong: filter_cong)
  moreover have "count_all now (mailbox_filters scope request) d' = length (?rows d')"
    by (simp add: count_all_def matching_rows_def limited_def newest_first_def)
  ultimately show ?thesis using gone(2) sel(1) keys by simp
qed

theorem read_takes_one_witness:
  "\<exists>sel d'. read_selection 5 scope0 unread0 mailbox_db = Inr (sel, 2)
    \<and> execute_read_display_state env0 ''t'' ''W'' (handoff_keys sel) (handoff_watermark True sel) Local mailbox_db = Inr d'
    \<and> map mc_message_key (matching_rows 5 scope0 unread0 None d') = [''atm:2'']"
proof -
  define sel where "sel = fst (projr (read_selection 5 scope0 unread0 mailbox_db))"
  define d' where "d' = projr (execute_read_display_state env0 ''t'' ''W'' (handoff_keys sel)
    (handoff_watermark True sel) Local mailbox_db)"
  have sel: "runs (read_selection 5 scope0 unread0 mailbox_db)"
    "snd (projr (read_selection 5 scope0 unread0 mailbox_db)) = 2" by code_simp+
  then have read: "read_selection 5 scope0 unread0 mailbox_db = Inr (sel, 2)"
    unfolding sel_def by (auto dest!: runs_Inr)
  have "runs (execute_read_display_state env0 ''t'' ''W'' (handoff_keys sel) (handoff_watermark True sel) Local mailbox_db)"
    "handoff_keys sel = [''atm:3'']" "length (sr_selected sel) = 1"
    "map mc_message_key (matching_rows 5 scope0 unread0 None mailbox_db) = [''atm:3'', ''atm:2'']"
    "ms_team scope0 = ''t''" "ms_agent scope0 = ''W''" "rq_selection_mode unread0 = SelectUnread"
    unfolding sel_def by code_simp+
  moreover from this(1)
  have "execute_read_display_state env0 ''t'' ''W'' (handoff_keys sel) (handoff_watermark True sel) Local mailbox_db = Inr d'"
    unfolding d'_def by (auto dest!: runs_Inr)
  moreover have "sr_selected sel \<noteq> []" using \<open>length (sr_selected sel) = 1\<close> by auto
  ultimately show ?thesis
    using read_takes_one[OF mailbox_db_ok unread0_filters _ read, of env0 True Local d'] read by auto
qed

end
