(* ===== verification/Spec2Isabelle.thy ===== *)
theory Spec2Isabelle
  imports Value_Layer Ledger_Properties Admission_Properties Lane_Properties Store_Properties
    Cron_Properties Reader_Properties
begin

text \<open>
  A verification library of the durable core of the agent team mail program (ATM): the value types,
  the task ledger and the mailboxes in SQLite, the serial writer that mutates them, the cron stores,
  and the path on which a mailbox is read.  Paths below are relative to \<^verbatim>\<open>src/crates/\<close>.

  \<^bold>\<open>The program.\<close>  Members of a team send each other messages.  A message may carry a task
  operation: assigning, starting, closing or moving a task of a member's queue.  All mutations go as
  \<^verbatim>\<open>WriteOp\<close> values through a bounded channel to one writer thread, which collects them into batches,
  runs each under a savepoint and commits the batch in one transaction.  Cron schedules run modules
  whose messages the writer admits only under the generation of the run that sends them.  Readers query
  the mail tables through SQL filters, collapse threads of messages to their current one, and hand the
  display state of what they returned back to the writer.

  \<^bold>\<open>Value layer.\<close>
  \<^item> \<open>Prelude\<close>: the result type \<open>'e + 'a\<close> with \<open>bindE\<close>, \<open>map_err\<close>, \<open>collectE\<close>, and Rust strings as
    lists of UTF-8 bytes with the standard operations the sources call.
  \<^item> \<open>Error_Codes\<close>: \<^verbatim>\<open>atm-error/src/error_codes.rs\<close> and \<^verbatim>\<open>error.rs\<close>, \<^verbatim>\<open>error_catalog.rs\<close> of
    \<^verbatim>\<open>atm-storage\<close>.  Names of codes are distinct and parse back; detail and recovery are recovered from a
    rendered message.
  \<^item> \<open>Names\<close>: \<^verbatim>\<open>validation.rs\<close>, \<^verbatim>\<open>types.rs\<close>, \<^verbatim>\<open>address.rs\<close> of \<^verbatim>\<open>atm-storage\<close>.  The locale
    \<open>validated_text\<close> is the contract of all parsers of names, interpreted for six of them.
  \<^item> \<open>Task_State\<close>: \<^verbatim>\<open>task_state.rs\<close>, \<^verbatim>\<open>task_op.rs\<close>: states, transition table, limits, positions as
    32-bit words, wire forms.
  \<^item> \<open>Messages\<close>: \<^verbatim>\<open>schema/inbox_message.rs\<close>, \<^verbatim>\<open>contract.rs\<close>: the envelope, its raw and stored forms,
    message keys, the comparison of immutable data.
  \<^item> \<open>Value_Layer\<close>: the properties of this layer.

  \<^bold>\<open>Tables.\<close>
  \<^item> \<open>Store\<close>: the database as the record \<open>db\<close>, a table being the list of its rows; statements check the
    constraints of the data definition row by row.  The locale \<open>constrained_table\<close> states what a
    successful statement keeps; it is interpreted for tasks, mailboxes, cron schedules, transitions and
    deliveries.
  \<^item> \<open>Task_Table\<close>, \<open>Task_Queue\<close>: the rows and read projections of \<^verbatim>\<open>atm-storage-rusqlite/src/task_store.rs\<close>
    and \<^verbatim>\<open>task_sql.rs\<close>, the queue primitives of \<^verbatim>\<open>writer/task_ops.rs\<close>.  Renumbering never trips the unique
    index on positions.
  \<^item> \<open>Mail_Table\<close>: insertion, display state, duplicates, read marking, deletion, the cron fence and the
    search projection (\<^verbatim>\<open>writer/ops.rs\<close>, \<^verbatim>\<open>stmt_cache.rs\<close>, \<^verbatim>\<open>message_admission.rs\<close>).
  \<^item> \<open>Task_Store\<close>, \<open>Escalation\<close>: reminders, prompt handoffs and escalation recipients; the locale
    \<open>recipient_store\<close> is the contract of the SQLite and the in-memory recipients, and the table refines
    the latter (\<open>Store_Properties\<close>).

  \<^bold>\<open>The writer.\<close>
  \<^item> \<open>Task_Writer\<close>: every task mutation and the admission of a message with its task effects, one
    definition per function of \<^verbatim>\<open>writer/\<close>, collected in \<open>execute\<close>.
  \<^item> \<open>Ledger\<close>, \<open>Queue_Order\<close>, \<open>Event_Log\<close>, \<open>Task_Invariant\<close>, \<open>Assignment_Invariant\<close>,
    \<open>Writer_Invariant\<close>, \<open>Writer_Safety\<close>: the invariant \<open>store_ok\<close> (open tasks of a member at positions
    \<open>1..n\<close>, started ones first; events numbered and readable; the columns of a stored message repeat its
    envelope, ids and parents unique in a mailbox) and its preservation by every operation; on such a
    store no operation panics.
  \<^item> \<open>Writer_Batch\<close>: \<^verbatim>\<open>writer/batch.rs\<close>.  The locale \<open>write_lane\<close> needs only that operations keep an
    invariant; it is interpreted on \<open>execute\<close>.  Sharing a savepoint between admissions is not observable.
  \<^item> \<open>Writer_Lane\<close>: the writer thread and its channel as an inductive step relation; reachable states
    keep the store in order and answer writes in order; after the senders are gone the thread stops within
    a bounded number of turns with every write answered.
  \<^item> \<open>Ledger_Properties\<close>, \<open>Admission_Properties\<close>, \<open>Lane_Properties\<close>: the properties.

  \<^bold>\<open>Cron stores.\<close>  \<open>Cron_Schedule\<close> and \<open>Cron_Transition\<close> model \<^verbatim>\<open>cron_schedule_store.rs\<close> and
  \<^verbatim>\<open>cron_transition_store.rs\<close> of both storage crates and their tables in \<^verbatim>\<open>hook_schema.rs\<close>.
  \<open>Cron_Invariant\<close> has the invariant of the tables over sequences of operations; \<open>Cron_Properties\<close> shows
  that a stale permit never admits again, that a commit logs and asks for exactly its deliveries, and
  that a delivery is settled once.

  \<^bold>\<open>Reading mail.\<close>
  \<^item> \<open>Threading\<close>, \<open>Thread_Lines\<close>: \<^verbatim>\<open>atm-core/src/threading.rs\<close> and the validation of
    \<^verbatim>\<open>atm-core/src/send/request.rs\<close>.  The loops carry the set of visited ids and terminate on every
    mailbox; on linear threads, which validated updates keep, they give root, terminal and chain.
  \<^item> \<open>Selection\<close>: \<^verbatim>\<open>atm-core/src/read/state.rs\<close>, \<^verbatim>\<open>filters.rs\<close>, \<^verbatim>\<open>selection.rs\<close>.
  \<^item> \<open>Mail_Reader\<close>: \<^verbatim>\<open>atm-storage-rusqlite/src/mailbox_reader.rs\<close>, \<^verbatim>\<open>sql_filters.rs\<close> and the selection of
    \<^verbatim>\<open>atm-runtime/src/mailbox_runtime.rs\<close>; a query is a predicate on rows.
  \<^item> \<open>Reader_Selection\<close>, \<open>Reader_Properties\<close>: filtering in SQL agrees with selecting from the whole
    mailbox; a read takes the newest match and, once its display state is written, exactly that message
    is no longer unread.

  \<open>Scenario\<close> and \<open>Cron_Scenario\<close> hold the concrete stores on which the properties are instantiated.

  \<^bold>\<open>Parameters and bounds.\<close>  The record \<open>env\<close> stands for the clock, the generator of ids, the JSON
  library and SQLite's error texts.  One operation sees one time and takes at most one new id; a cron
  commit takes one per output.  Failures to open or commit a transaction or a savepoint are values of the
  queued write, so every combination is covered; the serializers of the cron stores (\<open>cron_json\<close>,
  \<open>intent_json\<close>) are arguments with named round-trip laws, which a concrete serializer satisfies.
  Admitting a close acknowledges the assignment by admitting its stored message again, which has no task
  effect: nesting is bounded by two, and every larger bound gives the same result
  (\<open>admission_bound_enough\<close>).  The number of
  turns of the writer thread is bounded by the messages waiting.

  \<^bold>\<open>Simplifications.\<close>  Time stamps are instants, also where SQL compares their text, and the clock of
  a selection is one value; paths are their text; a JSON column is the record it holds; a query reads one
  state of the store; the failures of a reader's own SQL statements are not represented.  The
  \<^verbatim>\<open>debug_assert\<close> of \<^verbatim>\<open>classify_message\<close> exists in debug builds only and is left out.  Of the search
  filters those are modelled that mailbox queries set.

  \<^bold>\<open>Not modelled.\<close>  Template registration and admission with templates (an external engine), diagnostic
  writes, the full-text index and its triggers, schema creation and migrations, the roster, nudge and peer
  stores, connection pooling and timeouts of callers, the waiting of a read and the handoff queue
  (asynchronous), calendar arithmetic and the cron engine (external library, asynchronous), the send
  pipeline, configuration and diagnostics, the command line, the HTTP server, the daemon, bindings,
  adapters and TLS (process and network input and output).
\<close>

end
